(* ===== verification/Iqdb_Prelude.thy ===== *)
theory Iqdb_Prelude
  imports Main "HOL-Library.Word" "HOL-Library.Sublist" "HOL-Library.Monad_Syntax"
begin

text \<open>
  Shared vocabulary of the development: the machine types of the Rust code, the result
  type with its propagation operator, panics, the \<open>Vec\<close> operations the code relies on, and
  the lemma collections the component theories add to.
\<close>

section \<open>Machine types\<close>

type_synonym u8 = "8 word"
type_synonym u32 = "32 word"
type_synonym u64 = "64 word"
type_synonym i64 = "64 word"

text \<open>
  Floating-point values are only stored, copied and moved between memory and bytes by this
  crate, never computed with: they are their IEEE bit patterns.
\<close>

type_synonym f32 = "32 word"
type_synonym f64 = "64 word"
type_synonym vec = "f32 list"

text \<open>
  A \<open>usize\<close> is a natural number; what the platform can hold is \<open>usize_max\<close>. The targets
  the crate supports have 32-bit or 64-bit pointers.
\<close>

type_synonym usize = nat

datatype target = Ptr32 | Ptr64

fun usize_max :: "target \<Rightarrow> nat" where
  "usize_max Ptr32 = 2 ^ 32 - 1"
| "usize_max Ptr64 = 2 ^ 64 - 1"

lemma usize_max_ge_u32: "2 ^ 32 - 1 \<le> usize_max t"
  by (cases t) simp_all

lemma usize_max_le_u64: "usize_max t \<le> 2 ^ 64 - 1"
  by (cases t) simp_all

lemma usize_max_lt_u64: "n \<le> usize_max t \<Longrightarrow> n < 2 ^ 64"
  by (cases t) simp_all

lemma usize_max_Ptr32_le: "usize_max Ptr32 \<le> usize_max t"
  using usize_max_ge_u32 [of t] by simp

section \<open>Results and the question-mark operator\<close>

text \<open>
  \<open>Result<T, E>\<close> is the sum \<open>'e + 'a\<close>: \<open>Inl\<close> is \<open>Err\<close>, \<open>Inr\<close> is \<open>Ok\<close>. The \<open>?\<close>
  operator returns the error to the caller and hands the value on otherwise.
\<close>

definition and_then :: "'e + 'a \<Rightarrow> ('a \<Rightarrow> 'e + 'b) \<Rightarrow> 'e + 'b" where
  "and_then r f = (case r of Inl e \<Rightarrow> Inl e | Inr x \<Rightarrow> f x)"

definition map_err :: "('e \<Rightarrow> 'f) \<Rightarrow> 'e + 'a \<Rightarrow> 'f + 'a" where
  "map_err g r = (case r of Inl e \<Rightarrow> Inl (g e) | Inr x \<Rightarrow> Inr x)"

lemma and_then_simps [simp]:
  "and_then (Inl e) f = Inl e"
  "and_then (Inr x) f = f x"
  by (simp_all add: and_then_def)

lemma map_err_simps [simp]:
  "map_err g (Inl e) = Inl (g e)"
  "map_err g (Inr x) = Inr x"
  by (simp_all add: map_err_def)

named_theorems ok_iff \<open>when a computation returns \<open>Ok\<close>\<close>

lemma and_then_ok [ok_iff]: "and_then r f = Inr y \<longleftrightarrow> (\<exists>x. r = Inr x \<and> f x = Inr y)"
  by (cases r) auto

lemma map_err_ok [ok_iff]: "map_err g r = Inr y \<longleftrightarrow> r = Inr y"
  by (cases r) auto

lemma and_then_err: "and_then r f = Inl e \<longleftrightarrow> r = Inl e \<or> (\<exists>x. r = Inr x \<and> f x = Inl e)"
  by (cases r) auto

lemma and_then_cong [fundef_cong]:
  "r = r' \<Longrightarrow> (\<And>x. r' = Inr x \<Longrightarrow> f x = g x) \<Longrightarrow> and_then r f = and_then r' g"
  by (cases r') auto

definition is_ok :: "'e + 'a \<Rightarrow> bool" where
  "is_ok r = (case r of Inl _ \<Rightarrow> False | Inr _ \<Rightarrow> True)"

lemma is_ok_simps [simp]: "is_ok (Inl e) = False" "is_ok (Inr x) = True"
  by (simp_all add: is_ok_def)

lemma is_ok_iff: "is_ok r \<longleftrightarrow> (\<exists>x. r = Inr x)"
  by (cases r) auto

section \<open>Panics and the Vec operations that may panic\<close>

text \<open>
  A Rust panic is the value \<open>None\<close> of an \<open>option\<close>: an operation of type
  \<open>'s \<Rightarrow> 'a option\<close> returns \<open>Some\<close> when it returns at all. Indexing and
  \<open>Vec::swap_remove\<close> panic out of range.
\<close>

definition vec_index :: "'a list \<Rightarrow> usize \<Rightarrow> 'a option" where
  "vec_index xs i = (if i < length xs then Some (xs ! i) else None)"

definition vec_set :: "'a list \<Rightarrow> usize \<Rightarrow> 'a \<Rightarrow> 'a list option" where
  "vec_set xs i x = (if i < length xs then Some (xs[i := x]) else None)"

definition vec_swap_remove :: "'a list \<Rightarrow> usize \<Rightarrow> 'a list option" where
  "vec_swap_remove xs i = (if i < length xs then Some (butlast (xs[i := last xs])) else None)"

lemma vec_swap_remove_nth:
  assumes "vec_swap_remove xs i = Some ys" and "j < length ys"
  shows "ys ! j = (if j = i then last xs else xs ! j)"
  using assms by (auto simp: vec_swap_remove_def nth_butlast split: if_splits)

lemma vec_swap_remove_length:
  "vec_swap_remove xs i = Some ys \<Longrightarrow> i < length xs \<and> length xs = Suc (length ys)"
  by (auto simp: vec_swap_remove_def split: if_splits)

lemma vec_swap_remove_last:
  "vec_swap_remove xs i = Some ys \<Longrightarrow> last xs = xs ! length ys"
  by (frule vec_swap_remove_length) (auto simp: last_conv_nth simp flip: length_greater_0_conv)

lemma vec_swap_remove_mset:
  assumes "i < length xs"
  shows "\<exists>ys. vec_swap_remove xs i = Some ys \<and> set xs = insert (xs ! i) (set ys)"
proof -
  let ?ys = "butlast (xs[i := last xs])"
  have ne: "xs \<noteq> []" using assms by auto
  then obtain zs z where xs: "xs = zs @ [z]" by (metis append_butlast_last_id)
  have "set xs = insert (xs ! i) (set ?ys)"
  proof (cases "i < length zs")
    case True
    then have "set zs = insert (zs ! i) (set (take i zs) \<union> set (drop (Suc i) zs))"
      using id_take_nth_drop [of i zs]
      by (metis Un_insert_right list.simps(15) set_append)
    moreover have "set (zs[i := z]) = insert z (set (take i zs) \<union> set (drop (Suc i) zs))"
      using True by (simp add: upd_conv_take_nth_drop)
    ultimately show ?thesis
      using True by (auto simp: xs list_update_append nth_append)
  next
    case False
    with assms have "i = length zs" by (simp add: xs)
    then show ?thesis by (simp add: xs list_update_append)
  qed
  with assms show ?thesis by (simp add: vec_swap_remove_def)
qed

section \<open>Lists and maps\<close>

lemma card_dom_map_of: "distinct (map fst kvs) \<Longrightarrow> card (dom (map_of kvs)) = length kvs"
  by (simp add: dom_map_of_conv_image_fst distinct_card flip: set_map)

lemma map_of_eq_nth:
  assumes "distinct (map fst kvs)"
  shows "map_of kvs k = Some v \<longleftrightarrow> (\<exists>i < length kvs. kvs ! i = (k, v))"
  by (simp add: map_of_eq_Some_iff [OF assms] in_set_conv_nth)

end
