(* ===== verification/Iqdb_Bytes.thy ===== *)
theory Iqdb_Bytes
  imports Iqdb_Prelude "HOL-Library.List_Lexorder"
begin

text \<open>
  The standard-library byte conversions the on-disk codec is written with: little-endian
  encoding of fixed-width integers and floats (\<open>to_le_bytes\<close>, \<open>from_le_bytes\<close>) and UTF-8
  validation (\<open>String::from_utf8\<close>), with their round-trip laws.
\<close>

section \<open>Little-endian integers\<close>

primrec le_digits :: "nat \<Rightarrow> 'a::len word \<Rightarrow> u8 list" where
  "le_digits 0 w = []"
| "le_digits (Suc n) w = ucast w # le_digits n (drop_bit 8 w)"

definition to_le_bytes :: "'a::len word \<Rightarrow> u8 list" where
  "to_le_bytes w = le_digits (LENGTH('a) div 8) w"

primrec from_le_bytes :: "u8 list \<Rightarrow> 'a::len word" where
  "from_le_bytes [] = 0"
| "from_le_bytes (b # bs) = or (ucast b) (push_bit 8 (from_le_bytes bs))"

lemma length_le_digits [simp]: "length (le_digits n w) = n"
  by (induction n arbitrary: w) simp_all

lemma length_to_le_bytes [simp]: "length (to_le_bytes (w :: 'a::len word)) = LENGTH('a) div 8"
  by (simp add: to_le_bytes_def)

lemma from_le_digits: "from_le_bytes (le_digits n w) = take_bit (8 * n) (w :: 'a::len word)"
proof (induction n arbitrary: w)
  case (Suc n)
  show ?case
  proof (rule bit_word_eqI)
    fix i
    assume "i < LENGTH('a)"
    then show "bit (from_le_bytes (le_digits (Suc n) w) :: 'a word) i = bit (take_bit (8 * Suc n) w) i"
      by (auto simp: Suc.IH bit_simps dest: bit_imp_le_length)
  qed
qed simp

theorem from_to_le_bytes [simp]:
  "8 dvd LENGTH('a::len) \<Longrightarrow> from_le_bytes (to_le_bytes (w :: 'a word)) = w"
  by (simp add: to_le_bytes_def from_le_digits dvd_mult_div_cancel take_bit_word_eq_self)

lemma le_digits_nth: "j < n \<Longrightarrow> le_digits n w ! j = ucast (drop_bit (8 * j) w)"
proof (induction n arbitrary: w j)
  case (Suc n)
  then show ?case by (cases j) (simp_all add: drop_bit_drop_bit algebra_simps)
qed simp

lemma bit_from_le_bytes:
  "i < LENGTH('a::len) \<Longrightarrow>
     bit (from_le_bytes bs :: 'a word) i \<longleftrightarrow> i div 8 < length bs \<and> bit (bs ! (i div 8)) (i mod 8)"
proof (induction bs arbitrary: i)
  case (Cons b bs)
  show ?case
  proof (cases "i < 8")
    case True
    with Cons.prems show ?thesis by (simp add: bit_simps)
  next
    case False
    then have "i div 8 = Suc ((i - 8) div 8)" and "i mod 8 = (i - 8) mod 8"
      by (simp_all add: le_div_geq le_mod_geq)
    with False Cons show ?thesis
      by (auto simp: bit_simps dest: bit_imp_le_length)
  qed
qed simp

lemma le_digits_from:
  assumes "length bs = n" and "8 * n \<le> LENGTH('a::len)"
  shows "le_digits n (from_le_bytes bs :: 'a word) = bs"
proof (rule nth_equalityI)
  fix j
  assume "j < length (le_digits n (from_le_bytes bs :: 'a word))"
  then have j: "j < n" by simp
  show "le_digits n (from_le_bytes bs :: 'a word) ! j = bs ! j"
  proof (rule bit_word_eqI)
    fix i
    assume i: "i < LENGTH(8)"
    with j assms have "8 * j + i < LENGTH('a)" by simp
    with i j assms(1) show "bit (le_digits n (from_le_bytes bs :: 'a word) ! j) i = bit (bs ! j) i"
      by (simp add: le_digits_nth bit_simps bit_from_le_bytes)
  qed
qed (simp add: assms)

theorem to_from_le_bytes:
  "length bs = LENGTH('a::len) div 8 \<Longrightarrow> to_le_bytes (from_le_bytes bs :: 'a word) = bs"
  by (simp add: to_le_bytes_def le_digits_from)

lemma to_le_bytes_inject:
  "8 dvd LENGTH('a::len) \<Longrightarrow> to_le_bytes (v :: 'a word) = to_le_bytes w \<longleftrightarrow> v = w"
  by (metis from_to_le_bytes)

section \<open>UTF-8\<close>

text \<open>
  \<open>String::from_utf8\<close> of the standard library accepts exactly the well-formed sequences:
  shortest forms only, no surrogates, nothing above U+10FFFF.
\<close>

definition is_cont :: "u8 \<Rightarrow> bool" where
  "is_cont b \<longleftrightarrow> 0x80 \<le> b \<and> b \<le> 0xBF"

definition lead2 :: "u8 \<Rightarrow> bool" where
  "lead2 a \<longleftrightarrow> 0xC2 \<le> a \<and> a \<le> 0xDF"

definition lead3 :: "u8 \<Rightarrow> u8 \<Rightarrow> bool" where
  "lead3 a b \<longleftrightarrow> (a = 0xE0 \<and> 0xA0 \<le> b \<and> b \<le> 0xBF)
     \<or> (0xE1 \<le> a \<and> a \<le> 0xEC \<and> is_cont b)
     \<or> (a = 0xED \<and> 0x80 \<le> b \<and> b \<le> 0x9F)
     \<or> (0xEE \<le> a \<and> a \<le> 0xEF \<and> is_cont b)"

definition lead4 :: "u8 \<Rightarrow> u8 \<Rightarrow> bool" where
  "lead4 a b \<longleftrightarrow> (a = 0xF0 \<and> 0x90 \<le> b \<and> b \<le> 0xBF)
     \<or> (0xF1 \<le> a \<and> a \<le> 0xF3 \<and> is_cont b)
     \<or> (a = 0xF4 \<and> 0x80 \<le> b \<and> b \<le> 0x8F)"

fun utf8_next :: "u8 list \<Rightarrow> u8 list option" where
  "utf8_next [] = None"
| "utf8_next (a # r) =
     (if a < 0x80 then Some r
      else case r of [] \<Rightarrow> None
      | b # r2 \<Rightarrow>
          if lead2 a \<and> is_cont b then Some r2
          else case r2 of [] \<Rightarrow> None
          | c # r3 \<Rightarrow>
              if lead3 a b \<and> is_cont c then Some r3
              else case r3 of [] \<Rightarrow> None
              | d # r4 \<Rightarrow> if lead4 a b \<and> is_cont c \<and> is_cont d then Some r4 else None)"

lemma utf8_next_shorter: "utf8_next bs = Some r \<Longrightarrow> length r < length bs"
  by (cases bs) (auto split: if_splits list.splits)

function valid_utf8 :: "u8 list \<Rightarrow> bool" where
  "valid_utf8 bs =
     (if bs = [] then True
      else case utf8_next bs of None \<Rightarrow> False | Some r \<Rightarrow> valid_utf8 r)"
  by pat_completeness auto
termination
  by (relation "measure length") (auto dest: utf8_next_shorter)

declare valid_utf8.simps [simp del]

lemma valid_utf8_Nil [simp]: "valid_utf8 []"
  by (subst valid_utf8.simps) simp

lemma valid_utf8_ascii: "\<forall>b \<in> set bs. b < 0x80 \<Longrightarrow> valid_utf8 bs"
proof (induction bs)
  case (Cons b bs)
  then show ?case by (subst valid_utf8.simps) simp
qed simp

lemma utf8_next_append: "utf8_next bs = Some r \<Longrightarrow> utf8_next (bs @ s) = Some (r @ s)"
  by (cases bs) (auto split: if_splits list.splits)

lemma valid_utf8_append: "valid_utf8 bs \<Longrightarrow> valid_utf8 cs \<Longrightarrow> valid_utf8 (bs @ cs)"
proof (induction bs rule: valid_utf8.induct)
  case (1 bs)
  show ?case
  proof (cases "bs = []")
    case True
    with "1.prems" show ?thesis by simp
  next
    case False
    with "1.prems"(1) obtain r where r: "utf8_next bs = Some r" "valid_utf8 r"
      by (subst (asm) valid_utf8.simps) (auto split: option.splits)
    with "1.IH" [OF False r] "1.prems"(2) False show ?thesis
      by (subst valid_utf8.simps) (simp add: utf8_next_append)
  qed
qed

text \<open>A Rust \<open>String\<close> is a valid UTF-8 byte sequence; comparison is bytewise.\<close>

typedef rstring = "{bs. valid_utf8 bs}"
  morphisms as_bytes Abs_rstring
  by (rule exI [of _ "[]"]) simp

setup_lifting type_definition_rstring

definition from_utf8 :: "u8 list \<Rightarrow> rstring option" where
  "from_utf8 bs = (if valid_utf8 bs then Some (Abs_rstring bs) else None)"

lemma from_utf8_as_bytes [simp]: "from_utf8 (as_bytes s) = Some s"
  using as_bytes [of s] by (simp add: from_utf8_def as_bytes_inverse)

lemma from_utf8_Some: "from_utf8 bs = Some s \<longleftrightarrow> as_bytes s = bs"
  using as_bytes [of s] by (auto simp: from_utf8_def Abs_rstring_inverse as_bytes_inverse)

lemma from_utf8_None: "from_utf8 bs = None \<longleftrightarrow> \<not> valid_utf8 bs"
  by (simp add: from_utf8_def)

instantiation rstring :: linorder
begin

lift_definition less_eq_rstring :: "rstring \<Rightarrow> rstring \<Rightarrow> bool" is "(\<le>)" .

lift_definition less_rstring :: "rstring \<Rightarrow> rstring \<Rightarrow> bool" is "(<)" .

instance
  by standard (transfer; auto)+

end

instantiation rstring :: equal
begin

definition equal_rstring :: "rstring \<Rightarrow> rstring \<Rightarrow> bool" where
  "equal_rstring s t \<longleftrightarrow> as_bytes s = as_bytes t"

instance
  by standard (simp add: equal_rstring_def as_bytes_inject)

end

end
