(* ===== verification/Iqdb_Types.thy ===== *)
theory Iqdb_Types
  imports Iqdb_Bytes "HOL-Library.Multiset"
begin

text \<open>
  The vocabulary the crate shares with its family (\<open>iqdb_types\<close>, \<open>iqdb_persist\<close>), as far
  as the sources under src/ name it: identifiers, metadata values, metrics and the two error
  types. What the sources never look into stays open: an error variant the crate neither
  builds, matches nor names is \<open>OtherIqdbError\<close> or \<open>OtherPersistError\<close>, a metric added to the
  non-exhaustive enum later is \<open>OtherMetric\<close>, and the metadata map is a type parameter with
  the three operations the codec calls (\<open>meta_lib\<close>).
\<close>

section \<open>Identifiers, values, metrics\<close>

datatype vector_id = U64 u64 | Bytes "u8 list"

datatype val = VString rstring | VInt i64 | VFloat f64 | VBool bool | VNull

datatype metric = Cosine | DotProduct | Euclidean | Manhattan | Hamming | OtherMetric

section \<open>Errors of the layers below\<close>

datatype iqdb_error = NotFound | DimensionMismatch usize usize | InvalidFilter | OtherIqdbError nat

datatype io_error = UnexpectedEof | WriteZero | OtherIoError nat

datatype persist_error =
    InvalidPayload string
  | PersistIo string io_error
  | UnsupportedMetric metric
  | InvalidMetric u8
  | TruncatedPayload u64 u64
  | OtherPersistError nat

section \<open>Metadata\<close>

text \<open>
  \<open>Metadata\<close> is an immutable map from strings to scalar values whose representation is
  private to \<open>iqdb_types\<close>. The codec asks for its size, iterates over it and collects one
  from a list of entries.
\<close>

record 'm meta_lib =
  meta_len :: "'m \<Rightarrow> usize"
  meta_iter :: "'m \<Rightarrow> (rstring \<times> val) list"
  meta_collect :: "(rstring \<times> val) list \<Rightarrow> 'm"

text \<open>
  What the codec relies on: the size is the number of entries the iterator yields, and
  collecting those entries again gives the same map (\<open>meta_coherent\<close>); a collected map holds
  no entry it was not given (\<open>meta_laws\<close>).
\<close>

definition meta_coherent :: "'m meta_lib \<Rightarrow> 'm \<Rightarrow> bool" where
  "meta_coherent ml m \<longleftrightarrow>
     meta_len ml m = length (meta_iter ml m) \<and> meta_collect ml (meta_iter ml m) = m"

definition meta_laws :: "'m meta_lib \<Rightarrow> bool" where
  "meta_laws ml \<longleftrightarrow>
     (\<forall>m. meta_coherent ml m) \<and> (\<forall>es. mset (meta_iter ml (meta_collect ml es)) \<subseteq># mset es)"

section \<open>Rows\<close>

text \<open>\<open>Row\<close> of src/engine/store.rs. The shared \<open>Arc\<close> payload is immutable, so it is its value.\<close>

record 'm row =
  row_id :: vector_id
  row_vector :: vec
  row_meta :: "'m option"

definition Row :: "vector_id \<Rightarrow> vec \<Rightarrow> 'm option \<Rightarrow> 'm row" where
  "Row i v m = \<lparr>row_id = i, row_vector = v, row_meta = m\<rparr>"

lemma Row_sel [simp]:
  "row_id (Row i v m) = i" "row_vector (Row i v m) = v" "row_meta (Row i v m) = m"
  by (simp_all add: Row_def)

lemma Row_collapse [simp]: "Row (row_id r) (row_vector r) (row_meta r) = (r :: 'm row)"
  by (simp add: Row_def)

lemma Row_inject [simp]: "Row i v m = Row j w n \<longleftrightarrow> i = j \<and> v = w \<and> m = n"
  by (simp add: Row_def)

end
