(* ===== verification/Iqdb_Io.thy ===== *)
theory Iqdb_Io
  imports Iqdb_Types
begin

text \<open>
  Byte streams. A reader consumes a prefix of its input and hands the rest on, as
  \<open>&mut dyn Read\<close> over a byte slice does; a writer appends to an output that may have
  limited room, as \<open>&mut dyn Write\<close> over a buffer or a device does. On top of the two: the
  low-level helpers at the end of src/engine/codec.rs, and the contract of a wire format as
  a locale.
\<close>

section \<open>Readers\<close>

type_synonym 'a read = "u8 list \<Rightarrow> persist_error + 'a \<times> u8 list"

definition io :: "io_error \<Rightarrow> persist_error" where
  "io source = PersistIo '''' source"

definition rreturn :: "'a \<Rightarrow> 'a read" where
  "rreturn x bs = Inr (x, bs)"

definition rbind :: "'a read \<Rightarrow> ('a \<Rightarrow> 'b read) \<Rightarrow> 'b read" where
  "rbind m f bs = and_then (m bs) (\<lambda>(x, r). f x r)"

definition rlift :: "persist_error + 'a \<Rightarrow> 'a read" where
  "rlift res bs = and_then res (\<lambda>x. Inr (x, bs))"

text \<open>\<open>Read::read_exact\<close>.\<close>

definition read_exact :: "usize \<Rightarrow> u8 list read" where
  "read_exact n bs =
     (if length bs < n then Inl (io UnexpectedEof) else Inr (take n bs, drop n bs))"

text \<open>A counted loop of reads, in order; the first error ends it.\<close>

primrec read_times :: "nat \<Rightarrow> 'a read \<Rightarrow> 'a list read" where
  "read_times 0 m = rreturn []"
| "read_times (Suc n) m = rbind m (\<lambda>x. rbind (read_times n m) (\<lambda>xs. rreturn (x # xs)))"

lemma rbind_simps [simp]:
  "m bs = Inl e \<Longrightarrow> rbind m f bs = Inl e"
  "m bs = Inr (x, r) \<Longrightarrow> rbind m f bs = f x r"
  by (simp_all add: rbind_def)

lemma rlift_simps [simp]:
  "rlift (Inl e) = (\<lambda>_. Inl e)"
  "rlift (Inr x) = rreturn x"
  by (auto simp: rlift_def rreturn_def fun_eq_iff)

lemma rreturn_app [simp]: "rreturn x bs = Inr (x, bs)"
  by (simp add: rreturn_def)

lemma rbind_ok [ok_iff]:
  "rbind m f bs = Inr y \<longleftrightarrow> (\<exists>x r. m bs = Inr (x, r) \<and> f x r = Inr y)"
  by (auto simp: rbind_def ok_iff)

lemma rlift_ok [ok_iff]: "rlift res bs = Inr (x, r) \<longleftrightarrow> res = Inr x \<and> r = bs"
  by (auto simp: rlift_def ok_iff)

lemma read_exact_append [simp]: "read_exact (length bs) (bs @ r) = Inr (bs, r)"
  by (simp add: read_exact_def)

lemma read_exact_append_eq: "length bs = n \<Longrightarrow> read_exact n (bs @ r) = Inr (bs, r)"
  by auto

lemma read_exact_ok [ok_iff]:
  "read_exact n bs = Inr (x, r) \<longleftrightarrow> n \<le> length bs \<and> x = take n bs \<and> r = drop n bs"
  by (auto simp: read_exact_def)

subsection \<open>The helpers of the codec\<close>

definition read_u8 :: "u8 read" where
  "read_u8 = rbind (read_exact 1) (\<lambda>b. rreturn (b ! 0))"

definition read_u32 :: "u32 read" where
  "read_u32 = rbind (read_exact 4) (\<lambda>b. rreturn (from_le_bytes b))"

definition read_u64 :: "u64 read" where
  "read_u64 = rbind (read_exact 8) (\<lambda>b. rreturn (from_le_bytes b))"

definition usize_try_from :: "target \<Rightarrow> u64 \<Rightarrow> string \<Rightarrow> persist_error + usize" where
  "usize_try_from t n what =
     (if unat n \<le> usize_max t then Inr (unat n) else Inl (InvalidPayload what))"

definition read_usize :: "target \<Rightarrow> string \<Rightarrow> usize read" where
  "read_usize t what = rbind read_u64 (\<lambda>n. rlift (usize_try_from t n what))"

text \<open>
  \<open>read_vec\<close> reads up to \<open>len\<close> bytes to the end of the bounded reader, then compares.
\<close>

definition read_vec :: "usize \<Rightarrow> u8 list read" where
  "read_vec len bs =
     (let buf = take len bs; found = length buf in
      if found \<noteq> len then Inl (TruncatedPayload (of_nat len) (of_nat found))
      else Inr (buf, drop len bs))"

definition to_u64 :: "usize \<Rightarrow> string \<Rightarrow> persist_error + u64" where
  "to_u64 v what = (if v < 2 ^ 64 then Inr (of_nat v) else Inl (InvalidPayload what))"

definition to_u32 :: "usize \<Rightarrow> string \<Rightarrow> persist_error + u32" where
  "to_u32 v what = (if v < 2 ^ 32 then Inr (of_nat v) else Inl (InvalidPayload what))"

lemma read_vec_append [simp]: "read_vec (length bs) (bs @ r) = Inr (bs, r)"
  by (simp add: read_vec_def)

lemma read_vec_ok:
  "read_vec n bs = Inr (x, r) \<longleftrightarrow> n \<le> length bs \<and> x = take n bs \<and> r = drop n bs"
  by (auto simp: read_vec_def Let_def)

lemma unat_of_nat_u32: "n < 2 ^ 32 \<Longrightarrow> unat (of_nat n :: u32) = n"
  by (simp add: unat_of_nat)

lemma unat_of_nat_u64: "n < 2 ^ 64 \<Longrightarrow> unat (of_nat n :: u64) = n"
  by (simp add: unat_of_nat)

section \<open>The contract of a reader\<close>

text \<open>
  A reader looks only at what it consumes: the result does not depend on what follows, and
  what it leaves is a suffix of its input.
\<close>

locale reader =
  fixes dec :: "'a read"
  assumes extend: "dec bs = Inr (x, r) \<Longrightarrow> dec (bs @ s) = Inr (x, r @ s)"
    and suffix: "dec bs = Inr (x, r) \<Longrightarrow> \<exists>u. bs = u @ r"
begin

lemma consumes: "dec bs = Inr (x, r) \<Longrightarrow> length r \<le> length bs"
  by (auto dest: suffix)

end

named_theorems reader_intros \<open>every combinator of readers is a reader\<close>

lemma reader_rreturn [reader_intros]: "reader (rreturn x)"
  by unfold_locales (auto simp: rreturn_def)

lemma reader_fail [reader_intros]: "reader (\<lambda>_. Inl e)"
  by unfold_locales auto

lemma reader_rlift [reader_intros]: "reader (rlift res)"
  by unfold_locales (auto simp: ok_iff)

lemma reader_read_exact [reader_intros]: "reader (read_exact n)"
  by unfold_locales (auto simp: ok_iff intro: append_take_drop_id [symmetric])

lemma reader_read_vec [reader_intros]: "reader (read_vec n)"
  by unfold_locales (auto simp: read_vec_ok intro: append_take_drop_id [symmetric])

lemma reader_rbind [reader_intros]:
  assumes m: "reader m" and f: "\<And>x. reader (f x)"
  shows "reader (rbind m f)"
proof
  fix bs y r s
  assume "rbind m f bs = Inr (y, r)"
  then obtain x q where x: "m bs = Inr (x, q)" and y: "f x q = Inr (y, r)"
    by (auto simp: ok_iff)
  show "rbind m f (bs @ s) = Inr (y, r @ s)"
    using reader.extend [OF m x] reader.extend [OF f y] by simp
  show "\<exists>u. bs = u @ r"
    using reader.suffix [OF m x] reader.suffix [OF f y] by auto
qed

lemma reader_read_times [reader_intros]: "reader m \<Longrightarrow> reader (read_times n m)"
  by (induction n) (simp_all add: reader_intros)

lemma reader_if [reader_intros]:
  "(b \<Longrightarrow> reader m) \<Longrightarrow> (\<not> b \<Longrightarrow> reader k) \<Longrightarrow> reader (if b then m else k)"
  by simp

lemma reader_option [reader_intros]:
  "(x = None \<Longrightarrow> reader m) \<Longrightarrow> (\<And>y. x = Some y \<Longrightarrow> reader (f y)) \<Longrightarrow>
     reader (case x of None \<Rightarrow> m | Some y \<Rightarrow> f y)"
  by (cases x) simp_all

interpretation rd_u8: reader read_u8
  unfolding read_u8_def by (intro reader_intros)

interpretation rd_u32: reader read_u32
  unfolding read_u32_def by (intro reader_intros)

interpretation rd_u64: reader read_u64
  unfolding read_u64_def by (intro reader_intros)

interpretation rd_usize: reader "read_usize t what" for t what
  unfolding read_usize_def by (intro reader_intros rd_u64.reader_axioms)

lemmas reader_prims [reader_intros] =
  rd_u8.reader_axioms rd_u32.reader_axioms rd_u64.reader_axioms rd_usize.reader_axioms

lemma read_times_length: "read_times n m bs = Inr (xs, r) \<Longrightarrow> length xs = n"
  by (induction n arbitrary: bs xs r) (auto simp: ok_iff)

section \<open>Writers\<close>

text \<open>
  \<open>wr_room\<close> is \<open>None\<close> for a growable buffer (\<open>Vec<u8>\<close>, whose writes never fail) and the
  number of bytes the output still takes for a bounded one. A \<open>write_all\<close> that does not fit
  writes what fits and fails.
\<close>

record writer =
  wr_out :: "u8 list"
  wr_room :: "nat option"

type_synonym write_op = "writer \<Rightarrow> (persist_error + unit) \<times> writer"

definition buffer :: writer where
  "buffer = \<lparr>wr_out = [], wr_room = None\<rparr>"

definition write_all :: "u8 list \<Rightarrow> write_op" where
  "write_all bs w =
     (case wr_room w of
        None \<Rightarrow> (Inr (), w\<lparr>wr_out := wr_out w @ bs\<rparr>)
      | Some n \<Rightarrow>
          if length bs \<le> n
          then (Inr (), w\<lparr>wr_out := wr_out w @ bs, wr_room := Some (n - length bs)\<rparr>)
          else (Inl (io WriteZero), w\<lparr>wr_out := wr_out w @ take n bs, wr_room := Some 0\<rparr>))"

text \<open>A sequence of writes; the first error ends it.\<close>

primrec wseq :: "write_op list \<Rightarrow> write_op" where
  "wseq [] w = (Inr (), w)"
| "wseq (m # ms) w = (case m w of (Inl e, w') \<Rightarrow> (Inl e, w') | (Inr _, w') \<Rightarrow> wseq ms w')"

text \<open>A fallible computation whose value the write needs: \<open>w.write_all(&f(x)?)\<close>.\<close>

definition wlift :: "persist_error + 'a \<Rightarrow> ('a \<Rightarrow> write_op) \<Rightarrow> write_op" where
  "wlift res f w = (case res of Inl e \<Rightarrow> (Inl e, w) | Inr x \<Rightarrow> f x w)"

lemma wlift_simps [simp]:
  "wlift (Inl e) f = (\<lambda>w. (Inl e, w))"
  "wlift (Inr x) f = f x"
  by (auto simp: wlift_def fun_eq_iff)

lemma write_all_Nil [simp]: "write_all [] w = (Inr (), w)"
  by (cases w) (auto simp: write_all_def split: option.split)

lemma write_all_append:
  "(case write_all bs w of (Inl e, w') \<Rightarrow> (Inl e, w') | (Inr _, w') \<Rightarrow> write_all cs w')
     = write_all (bs @ cs) w"
  by (cases w) (auto simp: write_all_def split: option.split)

lemma wseq_write_all: "wseq (map write_all bss) = write_all (concat bss)"
proof (induction bss)
  case (Cons bs bss)
  have "wseq (map write_all (bs # bss)) w = write_all (concat (bs # bss)) w" for w
    using write_all_append [where bs = bs and w = w and cs = "concat bss"]
    by (simp add: Cons.IH split: prod.splits sum.splits)
  then show ?case by (rule ext)
qed (simp add: fun_eq_iff)

lemma write_all_buffer [simp]: "write_all bs buffer = (Inr (), \<lparr>wr_out = bs, wr_room = None\<rparr>)"
  by (simp add: write_all_def buffer_def)

lemma wseq_append:
  "wseq (ms @ ns) w = (case wseq ms w of (Inl e, w') \<Rightarrow> (Inl e, w') | (Inr _, w') \<Rightarrow> wseq ns w')"
  by (induction ms arbitrary: w) (auto split: prod.split sum.split)

text \<open>Sequences of plain writes collapse into one write: normalisation of the encoders.\<close>

named_theorems emit \<open>how the encoders of values within the limits unfold into one write\<close>

lemma wseq_emit [emit]:
  "wseq [] = write_all []"
  "wseq [write_all bs] = write_all bs"
  "wseq (write_all bs # write_all cs # ms) = wseq (write_all (bs @ cs) # ms)"
proof -
  show "wseq [] = write_all []" by (simp add: fun_eq_iff)
  show "wseq [write_all bs] = write_all bs"
    using wseq_write_all [of "[bs]"] by simp
  show "wseq (write_all bs # write_all cs # ms) = wseq (write_all (bs @ cs) # ms)"
    by (rule ext)
      (auto simp add: write_all_append [where bs = bs and cs = cs, symmetric] split: prod.split sum.split)
qed

section \<open>The contract of a wire format\<close>

text \<open>
  A wire format of values of type \<open>'a\<close>: the bytes \<open>enc x\<close> of a value within the format's
  limits (\<open>fits\<close>), the writer \<open>put\<close> that emits them and the reader \<open>dec\<close> that takes them
  back. What follows from these laws alone - injectivity, rejection of every truncation, the
  format of a counted sequence - is proved here once.
\<close>

locale wire = reader dec
  for dec :: "'a read" +
  fixes enc :: "'a \<Rightarrow> u8 list"
    and fits :: "'a \<Rightarrow> bool"
    and put :: "'a \<Rightarrow> write_op"
  assumes round_trip: "fits x \<Longrightarrow> dec (enc x @ r) = Inr (x, r)"
    and emits: "fits x \<Longrightarrow> put x = write_all (enc x)"
begin

lemma round_trip_exact: "fits x \<Longrightarrow> dec (enc x) = Inr (x, [])"
  using round_trip [of x "[]"] by simp

lemma truncated:
  assumes "fits x" and "strict_prefix p (enc x)"
  shows "\<exists>e. dec p = Inl e"
proof (cases "dec p")
  case (Inr yr)
  obtain y r where yr: "yr = (y, r)" by fastforce
  from assms(2) obtain q where q: "enc x = p @ q" "q \<noteq> []"
    by (auto elim: strict_prefixE')
  have "dec (enc x) = Inr (y, r @ q)"
    using extend Inr by (simp add: q yr)
  with round_trip_exact [OF assms(1)] q show ?thesis by simp
qed simp

lemma prefix_free:
  assumes "fits x" and "fits y" and "enc x @ r = enc y @ s"
  shows "x = y \<and> r = s"
  by (metis Inr_inject Pair_inject assms round_trip)

lemma enc_inject: "fits x \<Longrightarrow> fits y \<Longrightarrow> enc x = enc y \<longleftrightarrow> x = y"
  using prefix_free [of x y "[]" "[]"] by auto

lemma read_times_enc:
  "\<forall>x \<in> set xs. fits x \<Longrightarrow>
     read_times (length xs) dec (concat (map enc xs) @ r) = Inr (xs, r)"
  by (induction xs) (simp_all add: round_trip)

lemma wseq_put:
  assumes "\<forall>x \<in> set xs. fits x"
  shows "wseq (map put xs) = write_all (concat (map enc xs))"
proof -
  have "map put xs = map write_all (map enc xs)"
    using assms by (simp add: emits)
  then show ?thesis by (simp only: wseq_write_all)
qed

text \<open>A write that runs out of room leaves a proper prefix, which no reader accepts.\<close>

lemma short_write:
  assumes "fits x" and "wr_room w = Some n" and "n < length (enc x)"
  shows "\<exists>w'. put x w = (Inl (io WriteZero), w') \<and> wr_out w' = wr_out w @ take n (enc x)
           \<and> (\<exists>e. dec (take n (enc x)) = Inl e)"
proof -
  have "strict_prefix (take n (enc x)) (enc x)"
    using assms(3) by (metis length_take min.absorb4 nat_less_le prefix_order.le_less take_is_prefix)
  with assms show ?thesis
    by (auto simp: emits write_all_def truncated)
qed

end

lemma wireI:
  assumes "reader dec"
    and "\<And>x r. fits x \<Longrightarrow> dec (enc x @ r) = Inr (x, r)"
    and "\<And>x. fits x \<Longrightarrow> put x = write_all (enc x)"
  shows "wire dec enc fits put"
  using assms by (simp add: wire_def wire_axioms_def)

subsection \<open>The primitive formats\<close>

interpretation w_u8: wire read_u8 "\<lambda>b. [b]" "\<lambda>_. True" "\<lambda>b. write_all [b]"
  by unfold_locales (simp_all add: read_u8_def read_exact_def)

interpretation w_u32: wire read_u32 to_le_bytes "\<lambda>_. True" "\<lambda>n. write_all (to_le_bytes n)"
  by unfold_locales (simp_all add: read_u32_def read_exact_append_eq)

interpretation w_u64: wire read_u64 to_le_bytes "\<lambda>_. True" "\<lambda>n. write_all (to_le_bytes n)"
  by unfold_locales (simp_all add: read_u64_def read_exact_append_eq)

definition usize_bytes :: "usize \<Rightarrow> u8 list" where
  "usize_bytes n = to_le_bytes (of_nat n :: u64)"

definition put_usize :: "string \<Rightarrow> usize \<Rightarrow> write_op" where
  "put_usize what n = wlift (to_u64 n what) (\<lambda>k. write_all (to_le_bytes k))"

lemma read_usize_bytes:
  assumes "n \<le> usize_max t"
  shows "read_usize t what (usize_bytes n @ r) = Inr (n, r)"
  using assms usize_max_lt_u64 [OF assms]
  by (simp add: read_usize_def usize_bytes_def w_u64.round_trip usize_try_from_def
      unat_of_nat_u64)

interpretation w_usize: wire "read_usize t what" usize_bytes "\<lambda>n. n \<le> usize_max t" "put_usize what'"
  for t what what'
proof (unfold_locales)
  fix n r
  assume n: "n \<le> usize_max t"
  show "read_usize t what (usize_bytes n @ r) = Inr (n, r)"
    by (rule read_usize_bytes [OF n])
  show "put_usize what' n = write_all (usize_bytes n)"
    using usize_max_lt_u64 [OF n] by (simp add: put_usize_def to_u64_def usize_bytes_def)
qed

lemma put_usize_emit [emit]: "n \<le> usize_max t \<Longrightarrow> put_usize what n = write_all (usize_bytes n)"
  by (rule w_usize.emits)

lemma read_u8_Cons [simp]: "read_u8 (b # r) = Inr (b, r)"
  using w_u8.round_trip [of b r] by simp

lemmas read_le [simp] = w_u32.round_trip [OF TrueI] w_u64.round_trip [OF TrueI] read_usize_bytes

subsection \<open>Exact characterisation of the primitive readers\<close>

lemma read_vec_exact: "read_vec n bs = Inr (x, r) \<longleftrightarrow> bs = x @ r \<and> length x = n"
  by (auto simp: read_vec_ok)

lemma read_u8_exact: "read_u8 bs = Inr (b, r) \<longleftrightarrow> bs = b # r"
  by (cases bs) (auto simp: read_u8_def rbind_def read_exact_def)

lemma read_u32_exact: "read_u32 bs = Inr (n, r) \<longleftrightarrow> bs = to_le_bytes n @ r"
proof
  assume "read_u32 bs = Inr (n, r)"
  then have "4 \<le> length bs" "n = from_le_bytes (take 4 bs)" "r = drop 4 bs"
    by (auto simp: read_u32_def ok_iff)
  then show "bs = to_le_bytes n @ r" by (simp add: to_from_le_bytes)
qed simp

lemma read_u64_exact: "read_u64 bs = Inr (n, r) \<longleftrightarrow> bs = to_le_bytes n @ r"
proof
  assume "read_u64 bs = Inr (n, r)"
  then have "8 \<le> length bs" "n = from_le_bytes (take 8 bs)" "r = drop 8 bs"
    by (auto simp: read_u64_def ok_iff)
  then show "bs = to_le_bytes n @ r" by (simp add: to_from_le_bytes)
qed simp

lemma read_usize_exact:
  "read_usize t what bs = Inr (n, r) \<longleftrightarrow> bs = usize_bytes n @ r \<and> n \<le> usize_max t"
proof
  assume "read_usize t what bs = Inr (n, r)"
  then show "bs = usize_bytes n @ r \<and> n \<le> usize_max t"
    by (auto simp: read_usize_def ok_iff read_u64_exact usize_try_from_def usize_bytes_def
        split: if_splits)
qed auto

lemmas read_exact_iffs =
  read_vec_exact read_u8_exact read_u32_exact read_u64_exact read_usize_exact

lemma length_usize_bytes [simp]: "length (usize_bytes n) = 8"
  by (simp add: usize_bytes_def)

section \<open>Formats whose reader accepts nothing beyond them\<close>

text \<open>
  A closed format: whatever its reader accepts is within the limits, and its canonical
  encoding is no longer than the bytes the reader consumed. So a reader of untrusted bytes
  never builds more than it has read, and what it accepted can be written and read again.
\<close>

locale closed_wire = wire +
  assumes sound: "dec bs = Inr (x, r) \<Longrightarrow> fits x \<and> length (enc x) + length r \<le> length bs"
begin

lemma rewritable:
  assumes "dec bs = Inr (x, r)"
  shows "put x buffer = (Inr (), \<lparr>wr_out = enc x, wr_room = None\<rparr>) \<and> dec (enc x @ s) = Inr (x, s)"
  using sound [OF assms] by (simp add: emits round_trip)

lemma read_times_sound:
  "read_times n dec bs = Inr (xs, r) \<Longrightarrow>
     (\<forall>x \<in> set xs. fits x) \<and> length (concat (map enc xs)) + length r \<le> length bs"
proof (induction n arbitrary: bs xs)
  case (Suc n)
  then obtain x xs' q where x: "dec bs = Inr (x, q)" and "read_times n dec q = Inr (xs', r)"
    and xs: "xs = x # xs'"
    by (auto simp: ok_iff)
  with Suc.IH have "(\<forall>x \<in> set xs'. fits x) \<and> length (concat (map enc xs')) + length r \<le> length q"
    by blast
  with sound [OF x] show ?case by (auto simp: xs)
qed simp

end

lemma closed_wireI:
  assumes "wire dec enc fits put"
    and "\<And>bs x r. dec bs = Inr (x, r) \<Longrightarrow> fits x \<and> length (enc x) + length r \<le> length bs"
  shows "closed_wire dec enc fits put"
  using assms by (simp add: closed_wire_def closed_wire_axioms_def)

interpretation c_u8: closed_wire read_u8 "\<lambda>b. [b]" "\<lambda>_. True" "\<lambda>b. write_all [b]"
  by unfold_locales (auto simp: read_u8_exact)

interpretation c_u32: closed_wire read_u32 to_le_bytes "\<lambda>_. True" "\<lambda>n. write_all (to_le_bytes n)"
  by unfold_locales (auto simp: read_u32_exact)

end
