(* ===== verification/Iqdb_Config.thy ===== *)
theory Iqdb_Config
  imports Iqdb_Types
begin

text \<open>
  Construction-time configuration (src/config.rs): the index kinds with the public tuning
  fields of the family's configuration structs, the core and durability halves and the
  fluent builder \<open>IqdbConfig\<close>. The cache configuration of \<open>iqdb_cache\<close> is only carried
  around and is a type parameter \<open>'cc\<close>.
\<close>

section \<open>Index kinds\<close>

record hnsw_config =
  hnsw_m :: usize
  hnsw_ef_construction :: usize
  hnsw_ef_search :: usize
  hnsw_filter_widen :: usize
  hnsw_seed :: u64

record ivf_config =
  ivf_n_clusters :: usize
  ivf_n_probes :: usize
  ivf_training_sample_size :: usize
  ivf_use_pq :: bool
  ivf_pq_subvectors :: "usize option"
  ivf_pq_refine_factor :: u32
  ivf_seed :: u64

datatype index_kind = Flat | Hnsw hnsw_config | Ivf ivf_config

fun kind_tag :: "index_kind \<Rightarrow> u8" where
  "kind_tag Flat = 0"
| "kind_tag (Hnsw _) = 1"
| "kind_tag (Ivf _) = 2"

definition default_kind :: index_kind where
  "default_kind = Flat"

section \<open>The core and durability halves\<close>

record 'cc core_config =
  cc_index :: index_kind
  cc_cache :: "'cc option"

definition default_core_config :: "'cc core_config" where
  "default_core_config = \<lparr>cc_index = default_kind, cc_cache = None\<rparr>"

datatype fsync_policy = Always | Periodic nat | Never

datatype compression = NoCompression | Zstd int | Lz4

record durability =
  du_fsync :: fsync_policy
  du_compression :: compression

definition default_durability :: durability where
  "default_durability = \<lparr>du_fsync = Always, du_compression = NoCompression\<rparr>"

section \<open>The builder\<close>

record 'cc iqdb_config =
  cfg_dim :: usize
  cfg_metric :: metric
  cfg_core :: "'cc core_config"
  cfg_durability :: durability

definition config_new :: "usize \<Rightarrow> metric \<Rightarrow> 'cc iqdb_config" where
  "config_new d mt =
     \<lparr>cfg_dim = d, cfg_metric = mt, cfg_core = default_core_config,
      cfg_durability = default_durability\<rparr>"

definition config_index :: "index_kind \<Rightarrow> 'cc iqdb_config \<Rightarrow> 'cc iqdb_config" where
  "config_index k c = c\<lparr>cfg_core := (cfg_core c)\<lparr>cc_index := k\<rparr>\<rparr>"

definition config_cache :: "'cc \<Rightarrow> 'cc iqdb_config \<Rightarrow> 'cc iqdb_config" where
  "config_cache cache c = c\<lparr>cfg_core := (cfg_core c)\<lparr>cc_cache := Some cache\<rparr>\<rparr>"

definition config_fsync :: "fsync_policy \<Rightarrow> 'cc iqdb_config \<Rightarrow> 'cc iqdb_config" where
  "config_fsync p c = c\<lparr>cfg_durability := (cfg_durability c)\<lparr>du_fsync := p\<rparr>\<rparr>"

definition config_compression :: "compression \<Rightarrow> 'cc iqdb_config \<Rightarrow> 'cc iqdb_config" where
  "config_compression z c = c\<lparr>cfg_durability := (cfg_durability c)\<lparr>du_compression := z\<rparr>\<rparr>"

definition config_dim :: "'cc iqdb_config \<Rightarrow> usize" where
  [simp]: "config_dim c = cfg_dim c"

definition config_metric :: "'cc iqdb_config \<Rightarrow> metric" where
  [simp]: "config_metric c = cfg_metric c"

definition config_index_kind :: "'cc iqdb_config \<Rightarrow> index_kind" where
  "config_index_kind c = cc_index (cfg_core c)"

definition config_is_cached :: "'cc iqdb_config \<Rightarrow> bool" where
  "config_is_cached c \<longleftrightarrow> cc_cache (cfg_core c) \<noteq> None"

definition config_into_parts ::
    "'cc iqdb_config \<Rightarrow> usize \<times> metric \<times> 'cc core_config \<times> durability" where
  "config_into_parts c = (cfg_dim c, cfg_metric c, cfg_core c, cfg_durability c)"

lemmas config_defs =
  config_new_def config_index_def config_cache_def config_fsync_def config_compression_def
  config_index_kind_def config_is_cached_def config_into_parts_def default_core_config_def
  default_durability_def default_kind_def

text \<open>The overrides are independent: the order they are chained in does not matter.\<close>

lemma config_index_cache: "config_index k (config_cache cc c) = config_cache cc (config_index k c)"
  by (simp add: config_defs)

lemma config_fsync_compression:
  "config_fsync p (config_compression z c) = config_compression z (config_fsync p c)"
  by (simp add: config_defs)

lemma config_core_durability:
  "config_index k (config_fsync p c) = config_fsync p (config_index k c)"
  "config_index k (config_compression z c) = config_compression z (config_index k c)"
  "config_cache cc (config_fsync p c) = config_fsync p (config_cache cc c)"
  "config_cache cc (config_compression z c) = config_compression z (config_cache cc c)"
  by (simp_all add: config_defs)

lemma config_dim_metric [simp]:
  "cfg_dim (config_index k c) = cfg_dim c" "cfg_metric (config_index k c) = cfg_metric c"
  "cfg_dim (config_cache cc c) = cfg_dim c" "cfg_metric (config_cache cc c) = cfg_metric c"
  "cfg_dim (config_fsync p c) = cfg_dim c" "cfg_metric (config_fsync p c) = cfg_metric c"
  "cfg_dim (config_compression z c) = cfg_dim c" "cfg_metric (config_compression z c) = cfg_metric c"
  by (simp_all add: config_defs)

end
