(* ===== verification/Iqdb_Map_Spec.thy ===== *)
theory Iqdb_Map_Spec
  imports Iqdb_Types
begin

text \<open>
  The abstract specification of everything in the crate that stores vectors: a finite map
  from identifiers to values, changed by \<open>put\<close> and \<open>del\<close>. The row store, the core engine
  and the in-memory handle each implement it. The interface is a locale; what follows from
  it for whole histories of writes, the replay of a write-ahead log among them, is proved
  here once.
\<close>

section \<open>Histories of writes\<close>

datatype 'v write_req = Put vector_id 'v | Del vector_id

fun req_apply :: "'v write_req \<Rightarrow> (vector_id \<rightharpoonup> 'v) \<Rightarrow> (vector_id \<rightharpoonup> 'v)" where
  "req_apply (Put i v) m = m(i \<mapsto> v)"
| "req_apply (Del i) m = m(i := None)"

fun req_id :: "'v write_req \<Rightarrow> vector_id" where
  "req_id (Put i v) = i"
| "req_id (Del i) = i"

definition reqs_apply :: "'v write_req list \<Rightarrow> (vector_id \<rightharpoonup> 'v) \<Rightarrow> (vector_id \<rightharpoonup> 'v)" where
  "reqs_apply rs m = fold req_apply rs m"

lemma reqs_apply_simps [simp]:
  "reqs_apply [] m = m"
  "reqs_apply (r # rs) m = reqs_apply rs (req_apply r m)"
  by (simp_all add: reqs_apply_def)

lemma reqs_apply_append: "reqs_apply (rs @ ss) m = reqs_apply ss (reqs_apply rs m)"
  by (simp add: reqs_apply_def)

text \<open>What a history leaves under an identifier is decided by its last write to it.\<close>

fun last_req :: "vector_id \<Rightarrow> 'v write_req list \<Rightarrow> 'v write_req option" where
  "last_req i [] = None"
| "last_req i (r # rs) =
     (case last_req i rs of Some s \<Rightarrow> Some s | None \<Rightarrow> if req_id r = i then Some r else None)"

fun req_result :: "'v write_req \<Rightarrow> 'v option" where
  "req_result (Put i v) = Some v"
| "req_result (Del i) = None"

lemma last_req_in: "last_req i rs = Some r \<Longrightarrow> r \<in> set rs"
  by (induction rs) (auto split: option.splits if_splits)

lemma req_apply_lookup: "req_apply r m i = (if req_id r = i then req_result r else m i)"
  by (cases r) auto

lemma reqs_apply_lookup:
  "reqs_apply rs m i = (case last_req i rs of Some r \<Rightarrow> req_result r | None \<Rightarrow> m i)"
  by (induction rs arbitrary: m) (auto simp: req_apply_lookup split: option.split)

text \<open>Replaying a history over a state that already holds its effect changes nothing.\<close>

lemma reqs_apply_idem: "reqs_apply rs (reqs_apply rs m) = reqs_apply rs m"
  by (rule ext) (simp add: reqs_apply_lookup split: option.split)

lemma reqs_apply_absorb_prefix:
  "reqs_apply (rs @ ss) (reqs_apply rs m) = reqs_apply (rs @ ss) m"
  by (simp add: reqs_apply_append reqs_apply_idem)

section \<open>The interface\<close>

primrec run_reqs ::
    "(vector_id \<Rightarrow> 'v \<Rightarrow> 's \<Rightarrow> 's option) \<Rightarrow> (vector_id \<Rightarrow> 's \<Rightarrow> 's option)
      \<Rightarrow> 'v write_req list \<Rightarrow> 's \<Rightarrow> 's option" where
  "run_reqs put del [] s = Some s"
| "run_reqs put del (r # rs) s =
     Option.bind (case r of Put i v \<Rightarrow> put i v s | Del i \<Rightarrow> del i s) (run_reqs put del rs)"

locale keyed_store =
  fixes inv :: "'s \<Rightarrow> bool"
    and accepts :: "'s \<Rightarrow> 'v \<Rightarrow> bool"
    and contents :: "'s \<Rightarrow> (vector_id \<rightharpoonup> 'v)"
    and put :: "vector_id \<Rightarrow> 'v \<Rightarrow> 's \<Rightarrow> 's option"
    and del :: "vector_id \<Rightarrow> 's \<Rightarrow> 's option"
    and count :: "'s \<Rightarrow> usize"
  assumes put_ok: "inv s \<Longrightarrow> accepts s v \<Longrightarrow>
      \<exists>s'. put i v s = Some s' \<and> inv s' \<and> contents s' = (contents s)(i \<mapsto> v)
        \<and> accepts s' = accepts s"
    and del_ok: "inv s \<Longrightarrow>
      \<exists>s'. del i s = Some s' \<and> inv s' \<and> contents s' = (contents s)(i := None)
        \<and> accepts s' = accepts s"
    and count_ok: "inv s \<Longrightarrow> count s = card (dom (contents s))"
begin

definition admissible :: "'s \<Rightarrow> 'v write_req list \<Rightarrow> bool" where
  "admissible s rs \<longleftrightarrow> (\<forall>i v. Put i v \<in> set rs \<longrightarrow> accepts s v)"

lemma run_ok:
  assumes "inv s" and "admissible s rs"
  shows "\<exists>s'. run_reqs put del rs s = Some s' \<and> inv s' \<and> accepts s' = accepts s
           \<and> contents s' = reqs_apply rs (contents s)"
  using assms
proof (induction rs arbitrary: s)
  case (Cons r rs)
  have "\<exists>s'. (case r of Put i v \<Rightarrow> put i v s | Del i \<Rightarrow> del i s) = Some s' \<and> inv s'
          \<and> contents s' = req_apply r (contents s) \<and> accepts s' = accepts s"
    using Cons.prems put_ok del_ok by (cases r) (auto simp: admissible_def)
  then obtain s' where s': "(case r of Put i v \<Rightarrow> put i v s | Del i \<Rightarrow> del i s) = Some s'"
      "inv s'" "contents s' = req_apply r (contents s)" "accepts s' = accepts s"
    by blast
  with Cons.prems have "admissible s' rs" by (auto simp: admissible_def)
  with Cons.IH [OF s'(2)] s' show ?case by auto
qed simp

text \<open>No admissible history panics, and what it stores under an identifier is the last write.\<close>

lemma run_last_write:
  assumes "inv s" and "admissible s rs" and "run_reqs put del rs s = Some s'"
  shows "contents s' i = (case last_req i rs of Some r \<Rightarrow> req_result r | None \<Rightarrow> contents s i)"
  using run_ok [OF assms(1,2)] assms(3) by (auto simp: reqs_apply_lookup)

text \<open>Replaying a log over a state that already contains a prefix of it is harmless.\<close>

lemma replay_idempotent:
  assumes "inv s" and "admissible s (rs @ ss)" and "run_reqs put del rs s = Some s1"
  shows "\<exists>s2 s3. run_reqs put del (rs @ ss) s1 = Some s2 \<and> run_reqs put del (rs @ ss) s = Some s3
           \<and> contents s2 = contents s3"
proof -
  have adm: "admissible s rs" using assms(2) by (auto simp: admissible_def)
  from run_ok [OF assms(1) adm] assms(3)
  have s1: "inv s1" "accepts s1 = accepts s" "contents s1 = reqs_apply rs (contents s)" by auto
  then have "admissible s1 (rs @ ss)" using assms(2) by (auto simp: admissible_def)
  from run_ok [OF s1(1) this] run_ok [OF assms(1,2)] s1(3)
  show ?thesis by (auto simp: reqs_apply_absorb_prefix)
qed

lemma count_put:
  assumes "inv s" and "accepts s v" and "put i v s = Some s'" and "finite (dom (contents s))"
  shows "count s' = (if i \<in> dom (contents s) then count s else Suc (count s))"
proof -
  from put_ok [OF assms(1,2), of i] assms(3)
  have "inv s'" and "contents s' = (contents s)(i \<mapsto> v)" by auto
  with assms(1,4) show ?thesis by (simp add: count_ok insert_absorb)
qed

lemma count_del:
  assumes "inv s" and "del i s = Some s'" and "finite (dom (contents s))"
  shows "count s' = (if i \<in> dom (contents s) then count s - 1 else count s)"
proof -
  from del_ok [OF assms(1), of i] assms(2)
  have "inv s'" and "contents s' = (contents s)(i := None)" by auto
  with assms(1,3) show ?thesis by (simp add: count_ok)
qed

end

end
