(* ===== verification/Iqdb_Store.thy ===== *)
theory Iqdb_Store
  imports Iqdb_Map_Spec
begin

text \<open>
  The authoritative row store (src/engine/store.rs): a vector of rows with a hash index from
  identifiers to positions. Vector indexing and \<open>swap_remove\<close> panic out of range, so the
  operations return \<open>None\<close> when the index is stale; the invariant says it never is.
\<close>

section \<open>State and operations\<close>

record 'm row_store =
  st_rows :: "'m row list"
  st_index :: "vector_id \<rightharpoonup> usize"

definition store_new :: "'m row_store" where
  "store_new = \<lparr>st_rows = [], st_index = Map.empty\<rparr>"

text \<open>The capacity is a hint to the allocator and is not observable.\<close>

definition store_with_capacity :: "usize \<Rightarrow> 'm row_store" where
  "store_with_capacity cap = \<lparr>st_rows = [], st_index = Map.empty\<rparr>"

definition store_len :: "'m row_store \<Rightarrow> usize" where
  "store_len s = length (st_rows s)"

definition store_is_empty :: "'m row_store \<Rightarrow> bool" where
  "store_is_empty s \<longleftrightarrow> st_rows s = []"

definition store_iter :: "'m row_store \<Rightarrow> 'm row list" where
  [simp]: "store_iter s = st_rows s"

definition store_contains :: "'m row_store \<Rightarrow> vector_id \<Rightarrow> bool" where
  "store_contains s i \<longleftrightarrow> st_index s i \<noteq> None"

definition store_get :: "'m row_store \<Rightarrow> vector_id \<Rightarrow> 'm row option option" where
  "store_get s i =
     (case st_index s i of
        None \<Rightarrow> Some None
      | Some pos \<Rightarrow> map_option Some (vec_index (st_rows s) pos))"

definition store_upsert ::
    "'m row_store \<Rightarrow> vector_id \<Rightarrow> vec \<Rightarrow> 'm option \<Rightarrow> (bool \<times> 'm row_store) option" where
  "store_upsert s i v m =
     (case st_index s i of
        Some pos \<Rightarrow>
          map_option (\<lambda>rows. (False, s\<lparr>st_rows := rows\<rparr>)) (vec_set (st_rows s) pos (Row i v m))
      | None \<Rightarrow>
          (let pos = length (st_rows s) in
           Some (True, s\<lparr>st_index := (st_index s)(i \<mapsto> pos), st_rows := st_rows s @ [Row i v m]\<rparr>)))"

definition store_remove :: "'m row_store \<Rightarrow> vector_id \<Rightarrow> (bool \<times> 'm row_store) option" where
  "store_remove s i =
     (case st_index s i of
        None \<Rightarrow> Some (False, s)
      | Some pos \<Rightarrow>
          (let index = (st_index s)(i := None) in
           case vec_swap_remove (st_rows s) pos of
             None \<Rightarrow> None
           | Some rows \<Rightarrow>
               Some (True,
                 if pos < length rows
                 then s\<lparr>st_rows := rows, st_index := index(row_id (rows ! pos) \<mapsto> pos)\<rparr>
                 else s\<lparr>st_rows := rows, st_index := index\<rparr>)))"

section \<open>Invariant and abstraction\<close>

text \<open>The hash index maps exactly the identifiers of the rows, each to its row's position.\<close>

definition store_inv :: "'m row_store \<Rightarrow> bool" where
  "store_inv s \<longleftrightarrow>
     (\<forall>i pos. st_index s i = Some pos \<longleftrightarrow> pos < length (st_rows s) \<and> row_id (st_rows s ! pos) = i)"

definition row_entry :: "'m row \<Rightarrow> vector_id \<times> vec \<times> 'm option" where
  "row_entry r = (row_id r, row_vector r, row_meta r)"

definition rows_contents :: "'m row list \<Rightarrow> (vector_id \<rightharpoonup> vec \<times> 'm option)" where
  "rows_contents rows = map_of (map row_entry rows)"

definition store_contents :: "'m row_store \<Rightarrow> (vector_id \<rightharpoonup> vec \<times> 'm option)" where
  "store_contents s = rows_contents (st_rows s)"

lemma store_invD:
  "store_inv s \<Longrightarrow> st_index s i = Some pos \<Longrightarrow>
     pos < length (st_rows s) \<and> row_id (st_rows s ! pos) = i"
  by (simp add: store_inv_def)

lemma store_inv_at:
  "store_inv s \<Longrightarrow> pos < length (st_rows s) \<Longrightarrow> st_index s (row_id (st_rows s ! pos)) = Some pos"
  by (simp add: store_inv_def)

lemma store_inv_distinct: "store_inv s \<Longrightarrow> distinct (map row_id (st_rows s))"
  unfolding distinct_conv_nth
  by (metis length_map nth_map option.inject store_inv_at)

lemma store_inv_dom: "store_inv s \<Longrightarrow> dom (st_index s) = row_id ` set (st_rows s)"
  by (force simp: store_inv_def dom_def in_set_conv_nth)

lemma fst_row_entry [simp]: "fst \<circ> row_entry = row_id"
  by (rule ext) (simp add: row_entry_def)

lemma rows_contents_Some:
  assumes "distinct (map row_id rows)"
  shows "rows_contents rows i = Some (v, m) \<longleftrightarrow> Row i v m \<in> set rows"
proof -
  have "distinct (map fst (map row_entry rows))" using assms by simp
  then have "rows_contents rows i = Some (v, m) \<longleftrightarrow> (i, v, m) \<in> row_entry ` set rows"
    by (simp add: rows_contents_def)
  also have "\<dots> \<longleftrightarrow> Row i v m \<in> set rows"
    by (force simp: row_entry_def)
  finally show ?thesis .
qed

lemma dom_rows_contents: "dom (rows_contents rows) = row_id ` set rows"
  by (simp add: rows_contents_def dom_map_of_conv_image_fst image_image row_entry_def)

lemma store_contents_Some:
  "store_inv s \<Longrightarrow> store_contents s i = Some (v, m) \<longleftrightarrow> Row i v m \<in> set (st_rows s)"
  by (simp add: store_contents_def rows_contents_Some store_inv_distinct)

lemma dom_store_contents: "store_inv s \<Longrightarrow> dom (store_contents s) = dom (st_index s)"
  by (simp add: store_contents_def dom_rows_contents store_inv_dom)

lemma finite_dom_store_contents [simp]: "finite (dom (store_contents s))"
  by (simp add: store_contents_def dom_rows_contents)

lemma store_contents_eqI:
  assumes "store_inv s" and "\<And>i v m. f i = Some (v, m) \<longleftrightarrow> Row i v m \<in> set (st_rows s)"
  shows "store_contents s = f"
proof (rule ext)
  fix i
  have "store_contents s i = Some vm \<longleftrightarrow> f i = Some vm" for vm
    using assms by (cases vm) (simp add: store_contents_Some)
  then show "store_contents s i = f i"
    by (metis not_None_eq)
qed

section \<open>Every operation keeps the invariant and implements its map operation\<close>

lemma store_new_inv [simp]: "store_inv store_new"
  by (simp add: store_inv_def store_new_def)

lemma store_new_contents [simp]: "store_contents store_new = Map.empty"
  by (simp add: store_contents_def store_new_def rows_contents_def)

lemma store_with_capacity_eq [simp]: "store_with_capacity cap = store_new"
  by (simp add: store_with_capacity_def store_new_def)

lemma store_len_card: "store_inv s \<Longrightarrow> store_len s = card (dom (store_contents s))"
  using distinct_card [OF store_inv_distinct [of s]]
  by (simp add: store_len_def store_contents_def dom_rows_contents)

lemma store_is_empty_iff: "store_is_empty s \<longleftrightarrow> store_contents s = Map.empty"
  by (simp add: store_is_empty_def store_contents_def dom_rows_contents flip: dom_eq_empty_conv)

lemma store_contains_iff: "store_inv s \<Longrightarrow> store_contains s i \<longleftrightarrow> i \<in> dom (store_contents s)"
  by (auto simp: store_contains_def dom_store_contents)

lemma store_get_spec:
  assumes "store_inv s"
  shows "store_get s i = Some (map_option (\<lambda>(v, m). Row i v m) (store_contents s i))"
proof (cases "st_index s i")
  case None
  with assms have "store_contents s i = None"
    by (metis dom_store_contents domIff)
  with None show ?thesis by (simp add: store_get_def)
next
  case (Some pos)
  with assms have pos: "pos < length (st_rows s)" "row_id (st_rows s ! pos) = i"
    by (auto dest: store_invD)
  let ?r = "st_rows s ! pos"
  have "Row i (row_vector ?r) (row_meta ?r) \<in> set (st_rows s)"
    using pos by (metis Row_collapse nth_mem)
  with assms have "store_contents s i = Some (row_vector ?r, row_meta ?r)"
    by (simp add: store_contents_Some)
  with Some pos show ?thesis by (auto simp: store_get_def vec_index_def)
qed

lemma store_upsert_new:
  assumes inv: "store_inv s" and new: "st_index s i = None"
  shows "\<exists>s'. store_upsert s i v m = Some (True, s') \<and> store_inv s'
    \<and> st_rows s' = st_rows s @ [Row i v m]"
proof -
  let ?s = "s\<lparr>st_index := (st_index s)(i \<mapsto> length (st_rows s)), st_rows := st_rows s @ [Row i v m]\<rparr>"
  have fresh: "row_id (st_rows s ! pos) \<noteq> i" if "pos < length (st_rows s)" for pos
    using store_inv_at [OF inv that] new by auto
  have "store_inv ?s"
    unfolding store_inv_def
    using inv fresh by (auto simp: store_inv_def nth_append less_Suc_eq)
  then show ?thesis by (simp add: store_upsert_def new Let_def)
qed

lemma store_upsert_replace:
  assumes inv: "store_inv s" and old: "st_index s i = Some pos"
  shows "\<exists>s'. store_upsert s i v m = Some (False, s') \<and> store_inv s'
    \<and> st_rows s' = (st_rows s)[pos := Row i v m]"
proof -
  from store_invD [OF inv old] have pos: "pos < length (st_rows s)" "row_id (st_rows s ! pos) = i"
    by auto
  have "store_inv (s\<lparr>st_rows := (st_rows s)[pos := Row i v m]\<rparr>)"
    unfolding store_inv_def
    using inv pos by (auto simp: store_inv_def nth_list_update)
  with pos show ?thesis by (simp add: store_upsert_def old vec_set_def)
qed

lemma store_upsert_spec:
  assumes inv: "store_inv s"
  shows "\<exists>s'. store_upsert s i v m = Some (store_contents s i = None, s') \<and> store_inv s'
    \<and> store_contents s' = (store_contents s)(i \<mapsto> (v, m))"
proof (cases "st_index s i")
  case None
  from store_upsert_new [OF inv None, of v m] obtain s'
    where s': "store_upsert s i v m = Some (True, s')" "store_inv s'"
      "st_rows s' = st_rows s @ [Row i v m]" by auto
  have absent: "store_contents s i = None"
    using inv None by (metis dom_store_contents domIff)
  then have "Row i w n \<notin> set (st_rows s)" for w n
    using inv by (metis option.distinct(1) store_contents_Some)
  with s' have "store_contents s' = (store_contents s)(i \<mapsto> (v, m))"
    by (intro store_contents_eqI) (auto simp: store_contents_Some inv)
  with s' absent show ?thesis by simp
next
  case (Some pos)
  from store_upsert_replace [OF inv Some, of v m] obtain s'
    where s': "store_upsert s i v m = Some (False, s')" "store_inv s'"
      "st_rows s' = (st_rows s)[pos := Row i v m]" by auto
  from store_invD [OF inv Some] have pos: "pos < length (st_rows s)" "row_id (st_rows s ! pos) = i"
    by auto
  have present: "store_contents s i \<noteq> None"
    using inv Some by (metis dom_store_contents domIff option.distinct(1))
  have mem: "Row j w n \<in> set (st_rows s') \<longleftrightarrow>
      (if j = i then w = v \<and> n = m else Row j w n \<in> set (st_rows s))" for j w n
  proof -
    have "distinct (st_rows s)"
      using store_inv_distinct [OF inv] by (simp add: distinct_map)
    then have "set (st_rows s') = insert (Row i v m) (set (st_rows s) - {st_rows s ! pos})"
      using pos by (simp add: s'(3) set_update_distinct)
    moreover have "r = st_rows s ! pos" if "r \<in> set (st_rows s)" "row_id r = i" for r
      using that pos store_inv_at [OF inv] by (metis in_set_conv_nth option.inject)
    moreover have "Row j w n \<noteq> st_rows s ! pos" if "j \<noteq> i"
      using that pos(2) by (metis Row_sel(1))
    ultimately show ?thesis using pos(2) by auto
  qed
  have "store_contents s' = (store_contents s)(i \<mapsto> (v, m))"
    by (rule store_contents_eqI [OF s'(2)]) (auto simp: mem store_contents_Some [OF inv])
  with s' present show ?thesis by simp
qed

lemma store_remove_absent: "st_index s i = None \<Longrightarrow> store_remove s i = Some (False, s)"
  by (simp add: store_remove_def)

lemma store_remove_present:
  assumes inv: "store_inv s" and here: "st_index s i = Some pos"
  shows "\<exists>s'. store_remove s i = Some (True, s') \<and> store_inv s' \<and> st_index s' i = None
    \<and> vec_swap_remove (st_rows s) pos = Some (st_rows s')"
proof -
  let ?rows = "st_rows s"
  from store_invD [OF inv here] have pos: "pos < length ?rows" "row_id (?rows ! pos) = i"
    by auto
  from vec_swap_remove_mset [OF pos(1)] obtain rows' where
    sr: "vec_swap_remove ?rows pos = Some rows'" by auto
  note len = vec_swap_remove_length [OF sr] and lst = vec_swap_remove_last [OF sr]
  have nth': "rows' ! q = (if q = pos then ?rows ! length rows' else ?rows ! q)"
    if "q < length rows'" for q
    using vec_swap_remove_nth [OF sr that] lst by simp
  define s' where "s' = (if pos < length rows'
      then s\<lparr>st_rows := rows', st_index := (st_index s)(i := None, row_id (rows' ! pos) \<mapsto> pos)\<rparr>
      else s\<lparr>st_rows := rows', st_index := (st_index s)(i := None)\<rparr>)"
  have rows'_eq: "st_rows s' = rows'" by (simp add: s'_def)
  have inj: "row_id (?rows ! p) = row_id (?rows ! q) \<longleftrightarrow> p = q"
    if "p < length ?rows" "q < length ?rows" for p q
    using store_inv_distinct [OF inv] that by (metis length_map nth_eq_iff_index_eq nth_map)
  have index': "st_index s' k = Some q \<longleftrightarrow> q < length rows' \<and> row_id (rows' ! q) = k" for k q
  proof (cases "pos < length rows'")
    case True
    have old: "st_index s k = Some q \<longleftrightarrow> q < length ?rows \<and> row_id (?rows ! q) = k"
      using inv by (simp add: store_inv_def)
    show ?thesis
      using True len pos old nth' inj [of pos "length rows'"] inj [of q "length rows'"] inj [of q pos]
      by (auto simp: s'_def less_Suc_eq)
  next
    case False
    with len have "pos = length rows'" by simp
    with inv pos len nth' inj show ?thesis
      by (auto simp: s'_def store_inv_def less_Suc_eq)
  qed
  have "store_inv s'" by (simp add: store_inv_def rows'_eq index')
  moreover have "st_index s' i = None"
  proof (rule ccontr)
    assume "st_index s' i \<noteq> None"
    then obtain q where q: "q < length rows'" "row_id (rows' ! q) = i" using index' by auto
    with nth' [OF q(1)] len pos inj show False by (auto split: if_splits)
  qed
  moreover have "store_remove s i = Some (True, s')"
    by (simp add: store_remove_def here sr s'_def)
  ultimately show ?thesis using sr rows'_eq by auto
qed

lemma store_remove_spec:
  assumes inv: "store_inv s"
  shows "\<exists>s'. store_remove s i = Some (store_contents s i \<noteq> None, s') \<and> store_inv s'
    \<and> store_contents s' = (store_contents s)(i := None)"
proof (cases "st_index s i")
  case None
  then have "store_contents s i = None"
    using inv by (metis dom_store_contents domIff)
  then show ?thesis
    using inv by (auto simp: store_remove_absent [OF None] fun_upd_idem)
next
  case (Some pos)
  from store_remove_present [OF inv Some] obtain s' where s': "store_remove s i = Some (True, s')"
    "store_inv s'" "st_index s' i = None" "vec_swap_remove (st_rows s) pos = Some (st_rows s')"
    by auto
  from store_invD [OF inv Some] have pos: "pos < length (st_rows s)" "row_id (st_rows s ! pos) = i"
    by auto
  have "store_contents s i \<noteq> None" and gone: "i \<notin> row_id ` set (st_rows s')"
    using Some s' inv by (metis dom_store_contents domIff option.distinct(1))
      (metis domIff s'(2,3) store_inv_dom)
  moreover have "set (st_rows s) = insert (st_rows s ! pos) (set (st_rows s'))"
    using vec_swap_remove_mset [OF pos(1)] s'(4) by auto
  then have "Row j w n \<in> set (st_rows s') \<longleftrightarrow> j \<noteq> i \<and> Row j w n \<in> set (st_rows s)" for j w n
    using gone pos(2) by (metis Row_sel(1) image_eqI insert_iff)
  then have "store_contents s' = (store_contents s)(i := None)"
    by (intro store_contents_eqI [OF s'(2)]) (simp add: store_contents_Some [OF inv])
  ultimately show ?thesis using s' by auto
qed

section \<open>The store implements the map interface\<close>

text \<open>The interface's \<open>put\<close> and \<open>del\<close>: the operations, without the flag they return.\<close>

definition store_put :: "vector_id \<Rightarrow> vec \<times> 'm option \<Rightarrow> 'm row_store \<Rightarrow> 'm row_store option" where
  "store_put i vm s = map_option snd (store_upsert s i (fst vm) (snd vm))"

definition store_del :: "vector_id \<Rightarrow> 'm row_store \<Rightarrow> 'm row_store option" where
  "store_del i s = map_option snd (store_remove s i)"

interpretation st: keyed_store store_inv "\<lambda>_ _. True" store_contents store_put store_del store_len
proof
  fix s :: "'a row_store" and i and vm :: "vec \<times> 'a option"
  assume inv: "store_inv s"
  show "\<exists>s'. store_put i vm s = Some s' \<and> store_inv s'
      \<and> store_contents s' = (store_contents s)(i \<mapsto> vm) \<and> (\<lambda>_. True) = (\<lambda>_. True)"
    using store_upsert_spec [OF inv, of i "fst vm" "snd vm"] by (auto simp: store_put_def)
  show "\<exists>s'. store_del i s = Some s' \<and> store_inv s'
      \<and> store_contents s' = (store_contents s)(i := None) \<and> (\<lambda>_. True) = (\<lambda>_. True)"
    using store_remove_spec [OF inv, of i] by (auto simp: store_del_def)
  show "store_len s = card (dom (store_contents s))"
    by (rule store_len_card [OF inv])
qed

end
