(* ===== verification/Iqdb_Codec.thy ===== *)
theory Iqdb_Codec
  imports Iqdb_Io Iqdb_Config Iqdb_Store
begin

text \<open>
  The on-disk payload codec (src/engine/codec.rs), writer and reader for each part of the
  layout. Decoding takes the platform (\<open>target\<close>), whose pointer width bounds what a length
  field may hold, and the metadata operations of \<open>iqdb_types\<close>.
\<close>

section \<open>Constants\<close>

definition magic :: "u8 list" where
  "magic = [0x49, 0x51, 0x44, 0x43]"

definition version :: u32 where
  "version = 1"

definition max_prealloc :: usize where
  "max_prealloc = 4096"

section \<open>Writers\<close>

definition put_u32_len :: "string \<Rightarrow> usize \<Rightarrow> write_op" where
  "put_u32_len what n = wlift (to_u32 n what) (\<lambda>k. write_all (to_le_bytes k))"

definition bool_byte :: "bool \<Rightarrow> u8" where
  "bool_byte b = (if b then 1 else 0)"

fun encode_kind :: "index_kind \<Rightarrow> write_op" where
  "encode_kind Flat = wseq [write_all [kind_tag Flat]]"
| "encode_kind (Hnsw c) = wseq
     [write_all [kind_tag (Hnsw c)],
      wseq (map (put_usize ''hnsw field'')
        [hnsw_m c, hnsw_ef_construction c, hnsw_ef_search c, hnsw_filter_widen c]),
      write_all (to_le_bytes (hnsw_seed c))]"
| "encode_kind (Ivf c) = wseq
     [write_all [kind_tag (Ivf c)],
      wseq (map (put_usize ''ivf field'')
        [ivf_n_clusters c, ivf_n_probes c, ivf_training_sample_size c]),
      write_all [bool_byte (ivf_use_pq c)],
      (case ivf_pq_subvectors c of
         Some m \<Rightarrow> wseq [write_all [1], put_usize ''pq_subvectors'' m]
       | None \<Rightarrow> write_all [0]),
      write_all (to_le_bytes (ivf_pq_refine_factor c)),
      write_all (to_le_bytes (ivf_seed c))]"

fun encode_id :: "vector_id \<Rightarrow> write_op" where
  "encode_id (U64 n) = wseq [write_all [0], write_all (to_le_bytes n)]"
| "encode_id (Bytes bytes) =
     wseq [write_all [1], put_u32_len ''id bytes len'' (length bytes), write_all bytes]"

definition encode_str :: "rstring \<Rightarrow> write_op" where
  "encode_str s =
     wseq [put_u32_len ''string length'' (length (as_bytes s)), write_all (as_bytes s)]"

fun encode_value :: "val \<Rightarrow> write_op" where
  "encode_value (VString s) = wseq [write_all [0], encode_str s]"
| "encode_value (VInt i) = wseq [write_all [1], write_all (to_le_bytes i)]"
| "encode_value (VFloat f) = wseq [write_all [2], write_all (to_le_bytes f)]"
| "encode_value (VBool b) = wseq [write_all [3], write_all [bool_byte b]]"
| "encode_value VNull = write_all [4]"

definition encode_entry :: "rstring \<times> val \<Rightarrow> write_op" where
  "encode_entry kv = wseq [encode_str (fst kv), encode_value (snd kv)]"

fun encode_meta :: "'m meta_lib \<Rightarrow> 'm option \<Rightarrow> write_op" where
  "encode_meta ml None = write_all [0]"
| "encode_meta ml (Some m) =
     wseq [write_all [1], put_u32_len ''metadata entries'' (meta_len ml m),
           wseq (map encode_entry (meta_iter ml m))]"

fun metric_tag :: "metric \<Rightarrow> persist_error + u8" where
  "metric_tag Cosine = Inr 0"
| "metric_tag DotProduct = Inr 1"
| "metric_tag Euclidean = Inr 2"
| "metric_tag Manhattan = Inr 3"
| "metric_tag Hamming = Inr 4"
| "metric_tag OtherMetric = Inl (UnsupportedMetric OtherMetric)"

definition encode_row :: "'m meta_lib \<Rightarrow> 'm row \<Rightarrow> write_op" where
  "encode_row ml r =
     wseq [encode_id (row_id r),
           wseq (map (\<lambda>c. write_all (to_le_bytes c)) (row_vector r)),
           encode_meta ml (row_meta r)]"

definition encode ::
    "'m meta_lib \<Rightarrow> index_kind \<Rightarrow> usize \<Rightarrow> metric \<Rightarrow> 'm row_store \<Rightarrow> write_op" where
  "encode ml kind d mt store =
     wseq [write_all magic,
           write_all (to_le_bytes version),
           encode_kind kind,
           put_usize ''dim'' d,
           wlift (metric_tag mt) (\<lambda>tag. write_all [tag]),
           put_usize ''n_rows'' (store_len store),
           wseq (map (encode_row ml) (store_iter store))]"

section \<open>Readers\<close>

definition decode_hnsw :: "target \<Rightarrow> index_kind read" where
  "decode_hnsw t =
     rbind (read_usize t ''hnsw.m'') (\<lambda>m.
     rbind (read_usize t ''hnsw.ef_construction'') (\<lambda>efc.
     rbind (read_usize t ''hnsw.ef_search'') (\<lambda>efs.
     rbind (read_usize t ''hnsw.filter_widen'') (\<lambda>fw.
     rbind read_u64 (\<lambda>seed.
       rreturn (Hnsw \<lparr>hnsw_m = m, hnsw_ef_construction = efc, hnsw_ef_search = efs,
                      hnsw_filter_widen = fw, hnsw_seed = seed\<rparr>))))))"

definition decode_pq_subvectors :: "target \<Rightarrow> usize option read" where
  "decode_pq_subvectors t =
     rbind read_u8 (\<lambda>tag.
       if tag = 0 then rreturn None
       else if tag = 1 then rbind (read_usize t ''ivf.pq_subvectors'') (\<lambda>m. rreturn (Some m))
       else (\<lambda>_. Inl (InvalidPayload ''ivf.pq_subvectors option tag'')))"

definition decode_ivf :: "target \<Rightarrow> index_kind read" where
  "decode_ivf t =
     rbind (read_usize t ''ivf.n_clusters'') (\<lambda>nc.
     rbind (read_usize t ''ivf.n_probes'') (\<lambda>np.
     rbind (read_usize t ''ivf.training_sample_size'') (\<lambda>ts.
     rbind read_u8 (\<lambda>pq.
     rbind (decode_pq_subvectors t) (\<lambda>sub.
     rbind read_u32 (\<lambda>rf.
     rbind read_u64 (\<lambda>seed.
       rreturn (Ivf \<lparr>ivf_n_clusters = nc, ivf_n_probes = np, ivf_training_sample_size = ts,
                     ivf_use_pq = (pq \<noteq> 0), ivf_pq_subvectors = sub,
                     ivf_pq_refine_factor = rf, ivf_seed = seed\<rparr>))))))))"

definition decode_kind :: "target \<Rightarrow> index_kind read" where
  "decode_kind t =
     rbind read_u8 (\<lambda>tag.
       if tag = 0 then rreturn Flat
       else if tag = 1 then decode_hnsw t
       else if tag = 2 then decode_ivf t
       else (\<lambda>_. Inl (InvalidPayload ''unknown index-kind tag'')))"

definition decode_id :: "vector_id read" where
  "decode_id =
     rbind read_u8 (\<lambda>tag.
       if tag = 0 then rbind read_u64 (\<lambda>n. rreturn (U64 n))
       else if tag = 1 then
         rbind read_u32 (\<lambda>len.
           if unat len = 0
           then (\<lambda>_. Inl (InvalidPayload ''VectorId::Bytes key must not be empty''))
           else rbind (read_vec (unat len)) (\<lambda>bytes. rreturn (Bytes bytes)))
       else (\<lambda>_. Inl (InvalidPayload ''unknown VectorId tag'')))"

definition decode_str :: "rstring read" where
  "decode_str =
     rbind read_u32 (\<lambda>len.
     rbind (read_vec (unat len)) (\<lambda>bytes.
       case from_utf8 bytes of
         None \<Rightarrow> (\<lambda>_. Inl (InvalidPayload ''metadata string is not valid UTF-8''))
       | Some s \<Rightarrow> rreturn s))"

definition decode_value :: "val read" where
  "decode_value =
     rbind read_u8 (\<lambda>tag.
       if tag = 0 then rbind decode_str (\<lambda>s. rreturn (VString s))
       else if tag = 1 then rbind read_u64 (\<lambda>i. rreturn (VInt i))
       else if tag = 2 then rbind read_u64 (\<lambda>f. rreturn (VFloat f))
       else if tag = 3 then rbind read_u8 (\<lambda>b. rreturn (VBool (b \<noteq> 0)))
       else if tag = 4 then rreturn VNull
       else (\<lambda>_. Inl (InvalidPayload ''unknown metadata Value tag'')))"

definition decode_entry :: "(rstring \<times> val) read" where
  "decode_entry = rbind decode_str (\<lambda>k. rbind decode_value (\<lambda>v. rreturn (k, v)))"

definition decode_meta :: "'m meta_lib \<Rightarrow> 'm option read" where
  "decode_meta ml =
     rbind read_u8 (\<lambda>tag.
       if tag = 0 then rreturn None
       else if tag = 1 then
         rbind read_u32 (\<lambda>count.
         rbind (read_times (unat count) decode_entry) (\<lambda>entries.
           rreturn (Some (meta_collect ml entries))))
       else (\<lambda>_. Inl (InvalidPayload ''unknown metadata presence tag'')))"

definition metric_from_tag :: "u8 \<Rightarrow> persist_error + metric" where
  "metric_from_tag tag =
     (if tag = 0 then Inr Cosine
      else if tag = 1 then Inr DotProduct
      else if tag = 2 then Inr Euclidean
      else if tag = 3 then Inr Manhattan
      else if tag = 4 then Inr Hamming
      else Inl (InvalidMetric tag))"

text \<open>The body of the row loop: the components are read one by one.\<close>

definition decode_row :: "'m meta_lib \<Rightarrow> usize \<Rightarrow> 'm row read" where
  "decode_row ml d =
     rbind decode_id (\<lambda>i.
     rbind (read_times d read_u32) (\<lambda>buf.
     rbind (decode_meta ml) (\<lambda>m.
       rreturn (Row i buf m))))"

record 'm decoded =
  de_kind :: index_kind
  de_dim :: usize
  de_metric :: metric
  de_rows :: "'m row list"

definition decode :: "'m meta_lib \<Rightarrow> target \<Rightarrow> 'm decoded read" where
  "decode ml t =
     rbind (read_exact 4) (\<lambda>mg.
       if mg \<noteq> magic then (\<lambda>_. Inl (InvalidPayload ''iqdb core payload magic mismatch''))
       else rbind read_u32 (\<lambda>ver.
         if ver \<noteq> version
         then (\<lambda>_. Inl (InvalidPayload ''unsupported iqdb core payload version''))
         else
           rbind (decode_kind t) (\<lambda>kind.
           rbind (read_usize t ''dim'') (\<lambda>d.
           rbind read_u8 (\<lambda>tag.
           rbind (rlift (metric_from_tag tag)) (\<lambda>mt.
           rbind (read_usize t ''n_rows'') (\<lambda>n_rows.
           rbind (read_times n_rows (decode_row ml d)) (\<lambda>rows.
             rreturn \<lparr>de_kind = kind, de_dim = d, de_metric = mt, de_rows = rows\<rparr>))))))))"

end
