(* ===== verification/Iqdb_Codec_Format.thy ===== *)
theory Iqdb_Codec_Format
  imports Iqdb_Codec
begin

text \<open>
  The payload format: for each part of the layout the bytes it occupies, the limits it must
  respect to be written at all, and the proof that its writer and its reader implement the
  wire contract. The laws of every part (round trip, rejection of truncations, unique
  decoding) are then facts of the interpretations.
\<close>

section \<open>The layout as bytes\<close>

definition u32_len_bytes :: "usize \<Rightarrow> u8 list" where
  "u32_len_bytes n = to_le_bytes (of_nat n :: u32)"

fun kind_bytes :: "index_kind \<Rightarrow> u8 list" where
  "kind_bytes Flat = [0]"
| "kind_bytes (Hnsw c) =
     [1] @ usize_bytes (hnsw_m c) @ usize_bytes (hnsw_ef_construction c)
       @ usize_bytes (hnsw_ef_search c) @ usize_bytes (hnsw_filter_widen c)
       @ to_le_bytes (hnsw_seed c)"
| "kind_bytes (Ivf c) =
     [2] @ usize_bytes (ivf_n_clusters c) @ usize_bytes (ivf_n_probes c)
       @ usize_bytes (ivf_training_sample_size c) @ [bool_byte (ivf_use_pq c)]
       @ (case ivf_pq_subvectors c of Some m \<Rightarrow> [1] @ usize_bytes m | None \<Rightarrow> [0])
       @ to_le_bytes (ivf_pq_refine_factor c) @ to_le_bytes (ivf_seed c)"

fun id_bytes :: "vector_id \<Rightarrow> u8 list" where
  "id_bytes (U64 n) = [0] @ to_le_bytes n"
| "id_bytes (Bytes bytes) = [1] @ u32_len_bytes (length bytes) @ bytes"

definition str_bytes :: "rstring \<Rightarrow> u8 list" where
  "str_bytes s = u32_len_bytes (length (as_bytes s)) @ as_bytes s"

fun value_bytes :: "val \<Rightarrow> u8 list" where
  "value_bytes (VString s) = [0] @ str_bytes s"
| "value_bytes (VInt i) = [1] @ to_le_bytes i"
| "value_bytes (VFloat f) = [2] @ to_le_bytes f"
| "value_bytes (VBool b) = [3, bool_byte b]"
| "value_bytes VNull = [4]"

definition entry_bytes :: "rstring \<times> val \<Rightarrow> u8 list" where
  "entry_bytes kv = str_bytes (fst kv) @ value_bytes (snd kv)"

fun meta_bytes :: "'m meta_lib \<Rightarrow> 'm option \<Rightarrow> u8 list" where
  "meta_bytes ml None = [0]"
| "meta_bytes ml (Some m) =
     [1] @ u32_len_bytes (meta_len ml m) @ concat (map entry_bytes (meta_iter ml m))"

definition vec_bytes :: "vec \<Rightarrow> u8 list" where
  "vec_bytes v = concat (map to_le_bytes v)"

definition row_bytes :: "'m meta_lib \<Rightarrow> 'm row \<Rightarrow> u8 list" where
  "row_bytes ml r = id_bytes (row_id r) @ vec_bytes (row_vector r) @ meta_bytes ml (row_meta r)"

fun metric_byte :: "metric \<Rightarrow> u8" where
  "metric_byte Cosine = 0"
| "metric_byte DotProduct = 1"
| "metric_byte Euclidean = 2"
| "metric_byte Manhattan = 3"
| "metric_byte Hamming = 4"
| "metric_byte OtherMetric = 0"

definition payload_bytes :: "'m meta_lib \<Rightarrow> 'm decoded \<Rightarrow> u8 list" where
  "payload_bytes ml d =
     magic @ to_le_bytes version @ kind_bytes (de_kind d) @ usize_bytes (de_dim d)
       @ [metric_byte (de_metric d)] @ usize_bytes (length (de_rows d))
       @ concat (map (row_bytes ml) (de_rows d))"

section \<open>The limits of the format\<close>

fun kind_fits :: "target \<Rightarrow> index_kind \<Rightarrow> bool" where
  "kind_fits t Flat = True"
| "kind_fits t (Hnsw c) =
     (hnsw_m c \<le> usize_max t \<and> hnsw_ef_construction c \<le> usize_max t
      \<and> hnsw_ef_search c \<le> usize_max t \<and> hnsw_filter_widen c \<le> usize_max t)"
| "kind_fits t (Ivf c) =
     (ivf_n_clusters c \<le> usize_max t \<and> ivf_n_probes c \<le> usize_max t
      \<and> ivf_training_sample_size c \<le> usize_max t
      \<and> (case ivf_pq_subvectors c of None \<Rightarrow> True | Some m \<Rightarrow> m \<le> usize_max t))"

fun id_fits :: "vector_id \<Rightarrow> bool" where
  "id_fits (U64 n) = True"
| "id_fits (Bytes bytes) = (bytes \<noteq> [] \<and> length bytes < 2 ^ 32)"

definition str_fits :: "rstring \<Rightarrow> bool" where
  "str_fits s \<longleftrightarrow> length (as_bytes s) < 2 ^ 32"

fun value_fits :: "val \<Rightarrow> bool" where
  "value_fits (VString s) = str_fits s"
| "value_fits _ = True"

definition entry_fits :: "rstring \<times> val \<Rightarrow> bool" where
  "entry_fits kv \<longleftrightarrow> str_fits (fst kv) \<and> value_fits (snd kv)"

fun meta_fits :: "'m meta_lib \<Rightarrow> 'm option \<Rightarrow> bool" where
  "meta_fits ml None = True"
| "meta_fits ml (Some m) =
     (meta_coherent ml m \<and> length (meta_iter ml m) < 2 ^ 32
      \<and> list_all entry_fits (meta_iter ml m))"

definition row_fits :: "'m meta_lib \<Rightarrow> usize \<Rightarrow> 'm row \<Rightarrow> bool" where
  "row_fits ml d r \<longleftrightarrow> id_fits (row_id r) \<and> length (row_vector r) = d \<and> meta_fits ml (row_meta r)"

definition payload_fits :: "'m meta_lib \<Rightarrow> target \<Rightarrow> 'm decoded \<Rightarrow> bool" where
  "payload_fits ml t d \<longleftrightarrow>
     kind_fits t (de_kind d) \<and> de_dim d \<le> usize_max t \<and> de_metric d \<noteq> OtherMetric
     \<and> length (de_rows d) \<le> usize_max t \<and> list_all (row_fits ml (de_dim d)) (de_rows d)"

section \<open>Each part is a wire format\<close>

lemma put_u32_len_emit [emit]: "n < 2 ^ 32 \<Longrightarrow> put_u32_len what n = write_all (u32_len_bytes n)"
  by (simp add: put_u32_len_def to_u32_def u32_len_bytes_def)

lemma read_u32_len [simp]: "read_u32 (u32_len_bytes n @ r) = Inr (of_nat n, r)"
  by (simp add: u32_len_bytes_def)

lemma length_u32_len_bytes [simp]: "length (u32_len_bytes n) = 4"
  by (simp add: u32_len_bytes_def)

lemma bool_byte_iff [simp]: "bool_byte b = 0 \<longleftrightarrow> \<not> b"
  by (simp add: bool_byte_def)

subsection \<open>Index kinds\<close>

lemma reader_decode_hnsw [reader_intros]: "reader (decode_hnsw t)"
  unfolding decode_hnsw_def by (intro reader_intros)

lemma reader_decode_ivf [reader_intros]: "reader (decode_ivf t)"
  unfolding decode_ivf_def decode_pq_subvectors_def by (intro reader_intros)

lemma decode_kind_bytes: "kind_fits t k \<Longrightarrow> decode_kind t (kind_bytes k @ r) = Inr (k, r)"
  by (cases k)
    (auto simp: decode_kind_def decode_hnsw_def decode_ivf_def decode_pq_subvectors_def rbind_def
      split: option.splits)

lemma encode_kind_emit [emit]: "kind_fits t k \<Longrightarrow> encode_kind k = write_all (kind_bytes k)"
  by (cases k) (auto simp: emit split: option.splits)

lemma reader_decode_kind [reader_intros]: "reader (decode_kind t)"
  unfolding decode_kind_def by (intro reader_intros)

interpretation w_kind: wire "decode_kind t" kind_bytes "kind_fits t" encode_kind for t
  by (intro wireI reader_intros decode_kind_bytes encode_kind_emit)

subsection \<open>Identifiers\<close>

lemma reader_decode_id [reader_intros]: "reader decode_id"
  unfolding decode_id_def by (intro reader_intros)

lemma decode_id_bytes: "id_fits i \<Longrightarrow> decode_id (id_bytes i @ r) = Inr (i, r)"
  by (cases i) (auto simp: decode_id_def rbind_def unat_of_nat)

lemma encode_id_emit [emit]: "id_fits i \<Longrightarrow> encode_id i = write_all (id_bytes i)"
  by (cases i) (auto simp: emit)

interpretation w_id: wire decode_id id_bytes id_fits encode_id
  by (intro wireI reader_intros decode_id_bytes encode_id_emit)

subsection \<open>Strings and metadata values\<close>

lemma reader_decode_str [reader_intros]: "reader decode_str"
  unfolding decode_str_def by (intro reader_intros)

lemma decode_str_bytes: "str_fits s \<Longrightarrow> decode_str (str_bytes s @ r) = Inr (s, r)"
  by (simp add: decode_str_def str_bytes_def str_fits_def rbind_def unat_of_nat)

lemma encode_str_emit [emit]: "str_fits s \<Longrightarrow> encode_str s = write_all (str_bytes s)"
  by (simp add: encode_str_def str_fits_def str_bytes_def emit)

interpretation w_str: wire decode_str str_bytes str_fits encode_str
  by (intro wireI reader_intros decode_str_bytes encode_str_emit)

lemma reader_decode_value [reader_intros]: "reader decode_value"
  unfolding decode_value_def by (intro reader_intros)

lemma decode_value_bytes: "value_fits v \<Longrightarrow> decode_value (value_bytes v @ r) = Inr (v, r)"
  by (cases v) (simp_all add: decode_value_def rbind_def decode_str_bytes)

lemma encode_value_emit [emit]: "value_fits v \<Longrightarrow> encode_value v = write_all (value_bytes v)"
  by (cases v) (simp_all add: emit)

interpretation w_value: wire decode_value value_bytes value_fits encode_value
  by (intro wireI reader_intros decode_value_bytes encode_value_emit)

interpretation w_entry: wire decode_entry entry_bytes entry_fits encode_entry
proof (rule wireI)
  show "reader decode_entry"
    unfolding decode_entry_def by (intro reader_intros)
qed (auto simp: decode_entry_def entry_bytes_def entry_fits_def encode_entry_def rbind_def
    decode_str_bytes decode_value_bytes emit)

lemmas reader_decode_entry [reader_intros] = w_entry.reader_axioms

subsection \<open>Metadata and rows\<close>

interpretation w_meta: wire "decode_meta ml" "meta_bytes ml" "meta_fits ml" "encode_meta ml" for ml
proof (rule wireI)
  show "reader (decode_meta ml)"
    unfolding decode_meta_def by (intro reader_intros)
next
  fix m r
  assume "meta_fits ml m"
  then show "decode_meta ml (meta_bytes ml m @ r) = Inr (m, r)"
    by (cases m)
      (auto simp: decode_meta_def rbind_def meta_coherent_def unat_of_nat
        list_all_iff w_entry.read_times_enc)
next
  fix m
  assume "meta_fits ml m"
  then show "encode_meta ml m = write_all (meta_bytes ml m)"
    by (cases m) (simp_all add: meta_coherent_def emit list_all_iff w_entry.wseq_put)
qed

lemmas reader_decode_meta [reader_intros] = w_meta.reader_axioms

lemma wseq_vec [emit]: "wseq (map (\<lambda>c. write_all (to_le_bytes c)) v) = write_all (vec_bytes v)"
  by (simp add: vec_bytes_def w_u32.wseq_put)

lemma read_vec_components: "length v = d \<Longrightarrow> read_times d read_u32 (vec_bytes v @ r) = Inr (v, r)"
  using w_u32.read_times_enc [of v r] by (auto simp: vec_bytes_def)

interpretation w_row: wire "decode_row ml d" "row_bytes ml" "row_fits ml d" "encode_row ml" for ml d
proof (rule wireI)
  show "reader (decode_row ml d)"
    unfolding decode_row_def by (intro reader_intros)
qed (simp_all add: decode_row_def rbind_def row_bytes_def row_fits_def encode_row_def
    decode_id_bytes read_vec_components w_meta.round_trip w_meta.emits emit)

lemmas reader_decode_row [reader_intros] = w_row.reader_axioms

subsection \<open>Metrics\<close>

lemma metric_from_tag_byte [simp]: "m \<noteq> OtherMetric \<Longrightarrow> metric_from_tag (metric_byte m) = Inr m"
  by (cases m) (simp_all add: metric_from_tag_def)

lemma metric_tag_byte [simp]: "m \<noteq> OtherMetric \<Longrightarrow> metric_tag m = Inr (metric_byte m)"
  by (cases m) simp_all

lemma metric_from_tag_ok: "metric_from_tag tag = Inr m \<Longrightarrow> m \<noteq> OtherMetric \<and> metric_byte m = tag"
  by (auto simp: metric_from_tag_def split: if_splits)

subsection \<open>The payload\<close>

text \<open>\<open>encode\<close> on a decoded payload: the same writes, the rows given as a list.\<close>

definition encode_decoded :: "'m meta_lib \<Rightarrow> 'm decoded \<Rightarrow> write_op" where
  "encode_decoded ml d =
     encode ml (de_kind d) (de_dim d) (de_metric d) \<lparr>st_rows = de_rows d, st_index = Map.empty\<rparr>"

lemma reader_decode [reader_intros]: "reader (decode ml t)"
  unfolding decode_def by (intro reader_intros)

interpretation w_payload:
  wire "decode ml t" "payload_bytes ml" "payload_fits ml t" "encode_decoded ml" for ml t
proof (rule wireI)
  show "reader (decode ml t)" by (rule reader_decode)
next
  fix d :: "'a decoded" and r
  assume "payload_fits ml t d"
  then have fits: "kind_fits t (de_kind d)" "de_dim d \<le> usize_max t" "de_metric d \<noteq> OtherMetric"
    "length (de_rows d) \<le> usize_max t" "\<forall>r \<in> set (de_rows d). row_fits ml (de_dim d) r"
    by (auto simp: payload_fits_def list_all_iff)
  have "length magic = 4" by (simp add: magic_def)
  with fits show "decode ml t (payload_bytes ml d @ r) = Inr (d, r)"
    by (simp add: decode_def payload_bytes_def rbind_def read_exact_append_eq decode_kind_bytes
        w_row.read_times_enc)
next
  fix d :: "'a decoded"
  assume "payload_fits ml t d"
  then have fits: "kind_fits t (de_kind d)" "de_dim d \<le> usize_max t" "de_metric d \<noteq> OtherMetric"
    "length (de_rows d) \<le> usize_max t" "\<forall>r \<in> set (de_rows d). row_fits ml (de_dim d) r"
    by (auto simp: payload_fits_def list_all_iff)
  then show "encode_decoded ml d = write_all (payload_bytes ml d)"
    by (simp add: encode_decoded_def encode_def payload_bytes_def store_len_def emit
        w_row.wseq_put)
qed

lemma encode_payload:
  assumes "payload_fits ml t \<lparr>de_kind = k, de_dim = d, de_metric = mt, de_rows = st_rows s\<rparr>"
  shows "encode ml k d mt s
    = write_all (payload_bytes ml \<lparr>de_kind = k, de_dim = d, de_metric = mt, de_rows = st_rows s\<rparr>)"
  using w_payload.emits [OF assms] by (simp add: encode_decoded_def encode_def store_len_def)

end
