(* ===== verification/Iqdb_Codec_Sound.thy ===== *)
theory Iqdb_Codec_Sound
  imports Iqdb_Codec_Format
begin

text \<open>
  Decoding untrusted bytes. Everything the decoder accepts respects the limits of the format
  and is no larger than the bytes it was read from; what it accepts on a 32-bit platform it
  accepts on every platform with the same result.
\<close>

section \<open>Each part is a closed format\<close>

interpretation c_id: closed_wire decode_id id_bytes id_fits encode_id
proof (intro closed_wireI w_id.wire_axioms)
  fix bs i r
  assume "decode_id bs = Inr (i, r)"
  then show "id_fits i \<and> length (id_bytes i) + length r \<le> length bs"
    using unsigned_less [where 'b = 32 and 'a = nat]
    by (auto simp: decode_id_def ok_iff read_exact_iffs u32_len_bytes_def split: if_splits)
qed

interpretation c_str: closed_wire decode_str str_bytes str_fits encode_str
proof (intro closed_wireI w_str.wire_axioms)
  fix bs s r
  assume "decode_str bs = Inr (s, r)"
  then show "str_fits s \<and> length (str_bytes s) + length r \<le> length bs"
    using unsigned_less [where 'b = 32 and 'a = nat]
    by (auto simp: decode_str_def ok_iff read_exact_iffs str_fits_def str_bytes_def
        from_utf8_Some split: option.splits)
qed

interpretation c_value: closed_wire decode_value value_bytes value_fits encode_value
proof (intro closed_wireI w_value.wire_axioms)
  fix bs v r
  assume "decode_value bs = Inr (v, r)"
  then show "value_fits v \<and> length (value_bytes v) + length r \<le> length bs"
    by (auto simp: decode_value_def ok_iff read_exact_iffs dest!: c_str.sound split: if_splits)
qed

interpretation c_entry: closed_wire decode_entry entry_bytes entry_fits encode_entry
proof (intro closed_wireI w_entry.wire_axioms)
  fix bs kv r
  assume "decode_entry bs = Inr (kv, r)"
  then show "entry_fits kv \<and> length (entry_bytes kv) + length r \<le> length bs"
    by (auto simp: decode_entry_def ok_iff entry_fits_def entry_bytes_def
        dest!: c_str.sound c_value.sound)
qed

interpretation c_kind: closed_wire "decode_kind t" kind_bytes "kind_fits t" encode_kind for t
proof (intro closed_wireI w_kind.wire_axioms)
  fix bs k r
  assume "decode_kind t bs = Inr (k, r)"
  then show "kind_fits t k \<and> length (kind_bytes k) + length r \<le> length bs"
    by (auto simp: decode_kind_def decode_hnsw_def decode_ivf_def decode_pq_subvectors_def ok_iff
        read_exact_iffs split: if_splits)
qed

subsection \<open>With metadata\<close>

lemma entries_size: "mset es \<subseteq># mset fs \<Longrightarrow>
    length es \<le> length fs \<and> length (concat (map f es)) \<le> length (concat (map f fs))"
proof -
  assume sub: "mset es \<subseteq># mset fs"
  have "sum_list (map g es) \<le> sum_list (map g fs)" for g :: "'a \<Rightarrow> nat"
  proof -
    obtain ds where "mset fs = mset es + ds" using sub by (metis subset_mset.add_diff_inverse)
    then have "sum_mset (image_mset g (mset fs)) = sum_mset (image_mset g (mset es)) + sum_mset (image_mset g ds)"
      by simp
    then show ?thesis by (simp add: sum_mset_sum_list flip: mset_map)
  qed
  then show ?thesis
    using size_mset_mono [OF sub] by (simp add: length_concat comp_def)
qed

lemma closed_meta:
  assumes "meta_laws ml"
  shows "closed_wire (decode_meta ml) (meta_bytes ml) (meta_fits ml) (encode_meta ml)"
proof (intro closed_wireI w_meta.wire_axioms)
  fix bs m r
  assume "decode_meta ml bs = Inr (m, r)"
  then consider "bs = 0 # r" "m = None"
    | count q es where "bs = 1 # to_le_bytes (count :: u32) @ q" "m = Some (meta_collect ml es)"
        "read_times (unat count) decode_entry q = Inr (es, r)"
    by (auto simp: decode_meta_def ok_iff read_exact_iffs split: if_splits)
  then show "meta_fits ml m \<and> length (meta_bytes ml m) + length r \<le> length bs"
  proof cases
    case 2
    let ?m = "meta_collect ml es"
    have sub: "mset (meta_iter ml ?m) \<subseteq># mset es" and coh: "meta_coherent ml ?m"
      using assms by (auto simp: meta_laws_def)
    have len: "length es < 2 ^ 32"
      using read_times_length [OF 2(3)] unsigned_less [of count, where 'a = nat] by simp
    from c_entry.read_times_sound [OF 2(3)] sub set_mset_mono [OF sub]
    have "list_all entry_fits (meta_iter ml ?m)"
      and "length (concat (map entry_bytes es)) + length r \<le> length q"
      by (auto simp: list_all_iff)
    with entries_size [OF sub, of entry_bytes] coh len 2 show ?thesis by simp
  qed simp
qed

lemma closed_row:
  assumes "meta_laws ml"
  shows "closed_wire (decode_row ml d) (row_bytes ml) (row_fits ml d) (encode_row ml)"
proof (intro closed_wireI w_row.wire_axioms)
  fix bs r rest
  assume "decode_row ml d bs = Inr (r, rest)"
  then obtain i v m q s where i: "decode_id bs = Inr (i, q)"
    and v: "read_times d read_u32 q = Inr (v, s)"
    and m: "decode_meta ml s = Inr (m, rest)" and r: "r = Row i v m"
    by (auto simp: decode_row_def ok_iff)
  show "row_fits ml d r \<and> length (row_bytes ml r) + length rest \<le> length bs"
    using c_id.sound [OF i] c_u32.read_times_sound [OF v] read_times_length [OF v]
      closed_wire.sound [OF closed_meta [OF assms] m]
    by (simp add: r row_fits_def row_bytes_def vec_bytes_def)
qed

lemma decode_ok:
  assumes "decode ml t bs = Inr (d, r)"
  obtains q s where
    "bs = magic @ to_le_bytes version @ q"
    "decode_kind t q = Inr (de_kind d, usize_bytes (de_dim d) @ [metric_byte (de_metric d)]
        @ usize_bytes (length (de_rows d)) @ s)"
    "de_dim d \<le> usize_max t" "length (de_rows d) \<le> usize_max t" "de_metric d \<noteq> OtherMetric"
    "read_times (length (de_rows d)) (decode_row ml (de_dim d)) s = Inr (de_rows d, r)"
proof -
  from assms obtain q n s where *:
    "take 4 bs = magic" "4 \<le> length bs" "drop 4 bs = to_le_bytes version @ q"
    "decode_kind t q = Inr (de_kind d, usize_bytes (de_dim d) @ [metric_byte (de_metric d)]
        @ usize_bytes n @ s)"
    "de_dim d \<le> usize_max t" "n \<le> usize_max t" "de_metric d \<noteq> OtherMetric"
    "read_times n (decode_row ml (de_dim d)) s = Inr (de_rows d, r)"
    by (auto simp: decode_def ok_iff read_u8_exact read_u32_exact read_usize_exact
      dest!: metric_from_tag_ok split: if_splits)
  moreover have "n = length (de_rows d)" using read_times_length [OF *(8)] by simp
  moreover have "bs = magic @ to_le_bytes version @ q" using *(1,3) by (metis append_take_drop_id)
  ultimately show ?thesis using that by simp
qed

lemma closed_payload:
  assumes "meta_laws ml"
  shows "closed_wire (decode ml t) (payload_bytes ml) (payload_fits ml t) (encode_decoded ml)"
proof (intro closed_wireI w_payload.wire_axioms)
  fix bs d r
  assume "decode ml t bs = Inr (d, r)"
  then show "payload_fits ml t d \<and> length (payload_bytes ml d) + length r \<le> length bs"
  proof (rule decode_ok)
    fix q s
    assume bs: "bs = magic @ to_le_bytes version @ q"
      and k: "decode_kind t q = Inr (de_kind d, usize_bytes (de_dim d) @ [metric_byte (de_metric d)]
        @ usize_bytes (length (de_rows d)) @ s)"
      and lim: "de_dim d \<le> usize_max t" "length (de_rows d) \<le> usize_max t" "de_metric d \<noteq> OtherMetric"
      and rows: "read_times (length (de_rows d)) (decode_row ml (de_dim d)) s = Inr (de_rows d, r)"
    show ?thesis
      using c_kind.sound [OF k] lim closed_wire.read_times_sound [OF closed_row [OF assms] rows]
      by (auto simp: bs payload_fits_def payload_bytes_def list_all_iff)
  qed
qed

end
