(* ===== verification/Iqdb_Codec_Portable.thy ===== *)
theory Iqdb_Codec_Portable
  imports Iqdb_Codec_Sound
begin

text \<open>
  Two more views of the codec: the platform it runs on matters only for what does not fit a
  \<open>usize\<close>, and the exact outcome of encoding into a buffer, error by error.
\<close>

section \<open>Platforms\<close>

text \<open>\<open>m'\<close> accepts whatever \<open>m\<close> accepts, with the same result.\<close>

definition widens :: "'a read \<Rightarrow> 'a read \<Rightarrow> bool" where
  "widens m m' \<longleftrightarrow> (\<forall>bs x. m bs = Inr x \<longrightarrow> m' bs = Inr x)"

named_theorems widens_intros \<open>readers that differ in the platform only\<close>

lemma widens_refl: "widens m m"
  by (simp add: widens_def)

lemma widens_rbind [widens_intros]:
  "widens m m' \<Longrightarrow> (\<And>x. widens (f x) (f' x)) \<Longrightarrow> widens (rbind m f) (rbind m' f')"
  unfolding widens_def ok_iff by fast

lemma widens_if [widens_intros]:
  "widens m m' \<Longrightarrow> widens k k' \<Longrightarrow> widens (if b then m else k) (if b then m' else k')"
  by simp

lemma widens_usize [widens_intros]: "widens (read_usize Ptr32 what) (read_usize t what)"
  using usize_max_Ptr32_le [of t] by (auto simp: widens_def read_usize_exact)

lemma widens_decode: "widens (decode ml Ptr32) (decode ml t)"
  unfolding decode_def decode_kind_def decode_hnsw_def decode_ivf_def decode_pq_subvectors_def
  by (intro widens_intros widens_refl)

section \<open>The outcome of encoding into a growable buffer\<close>

fun first_err :: "persist_error option list \<Rightarrow> persist_error option" where
  "first_err [] = None"
| "first_err (Some e # es) = Some e"
| "first_err (None # es) = first_err es"

definition len_err :: "string \<Rightarrow> usize \<Rightarrow> persist_error option" where
  "len_err what n = (if n < 2 ^ 32 then None else Some (InvalidPayload what))"

fun id_err :: "vector_id \<Rightarrow> persist_error option" where
  "id_err (U64 n) = None"
| "id_err (Bytes bytes) = len_err ''id bytes len'' (length bytes)"

definition str_err :: "rstring \<Rightarrow> persist_error option" where
  "str_err s = len_err ''string length'' (length (as_bytes s))"

fun value_err :: "val \<Rightarrow> persist_error option" where
  "value_err (VString s) = str_err s"
| "value_err _ = None"

definition entry_err :: "rstring \<times> val \<Rightarrow> persist_error option" where
  "entry_err kv = first_err [str_err (fst kv), value_err (snd kv)]"

fun meta_err :: "'m meta_lib \<Rightarrow> 'm option \<Rightarrow> persist_error option" where
  "meta_err ml None = None"
| "meta_err ml (Some m) =
     first_err (len_err ''metadata entries'' (meta_len ml m) # map entry_err (meta_iter ml m))"

definition row_err :: "'m meta_lib \<Rightarrow> 'm row \<Rightarrow> persist_error option" where
  "row_err ml r = first_err [id_err (row_id r), meta_err ml (row_meta r)]"

definition metric_err :: "metric \<Rightarrow> persist_error option" where
  "metric_err mt = (if mt = OtherMetric then Some (UnsupportedMetric mt) else None)"

definition payload_err :: "'m meta_lib \<Rightarrow> metric \<Rightarrow> 'm row list \<Rightarrow> persist_error option" where
  "payload_err ml mt rows = first_err (metric_err mt # map (row_err ml) rows)"

definition result_of :: "persist_error option \<Rightarrow> persist_error + unit" where
  "result_of eo = (case eo of None \<Rightarrow> Inr () | Some e \<Rightarrow> Inl e)"

text \<open>On an unbounded output the write \<open>m\<close> has the outcome \<open>eo\<close>, whatever was written before.\<close>

definition outcome :: "write_op \<Rightarrow> persist_error option \<Rightarrow> bool" where
  "outcome m eo \<longleftrightarrow>
     (\<forall>w. wr_room w = None \<longrightarrow> fst (m w) = result_of eo \<and> wr_room (snd (m w)) = None)"

named_theorems outcome_intros \<open>the outcomes of the encoders\<close>

lemma outcome_write_all [outcome_intros]: "outcome (write_all bs) None"
  by (simp add: outcome_def write_all_def result_of_def)

lemma outcome_Nil [outcome_intros]: "outcome (wseq []) None"
  by (simp add: outcome_def result_of_def)

lemma outcome_Cons:
  assumes "outcome m eo" and "outcome (wseq ms) (first_err es)"
  shows "outcome (wseq (m # ms)) (first_err (eo # es))"
  unfolding outcome_def
proof (intro allI impI)
  fix w :: writer
  assume w: "wr_room w = None"
  obtain res w' where mw: "m w = (res, w')" by fastforce
  with assms(1) w have res: "res = result_of eo" and w': "wr_room w' = None"
    unfolding outcome_def by (metis fst_conv snd_conv)+
  show "fst (wseq (m # ms) w) = result_of (first_err (eo # es))
      \<and> wr_room (snd (wseq (m # ms) w)) = None"
    using assms(2) w' by (cases eo) (auto simp: mw res outcome_def result_of_def)
qed

lemma outcome_wseq: "list_all2 outcome ms es \<Longrightarrow> outcome (wseq ms) (first_err es)"
proof (induction rule: list_all2_induct)
  case Nil
  show ?case using outcome_Nil by (simp only: first_err.simps)
next
  case (Cons m ms eo es)
  then show ?case by (intro outcome_Cons)
qed

lemma outcome_map:
  "(\<And>x. x \<in> set xs \<Longrightarrow> outcome (f x) (g x)) \<Longrightarrow> outcome (wseq (map f xs)) (first_err (map g xs))"
  by (rule outcome_wseq) (simp add: list_all2_map1 list_all2_map2 list.rel_refl_strong)

lemma first_err_Nones: "\<forall>e \<in> set es. e = None \<Longrightarrow> first_err es = None"
  by (induction es) auto

lemma outcome_len [outcome_intros]: "outcome (put_u32_len what n) (len_err what n)"
  by (simp add: outcome_def put_u32_len_def to_u32_def len_err_def result_of_def write_all_def)

lemma outcome_str: "outcome (encode_str s) (str_err s)"
proof -
  have "outcome (encode_str s) (first_err [str_err s, None])"
    unfolding encode_str_def str_err_def
    by (intro outcome_wseq list_all2_Cons [THEN iffD2] conjI outcome_intros) simp
  then show ?thesis by (cases "str_err s") simp_all
qed

lemma outcome_tagged: "outcome m eo \<Longrightarrow> outcome (wseq [write_all bs, m]) eo"
  using outcome_wseq [of "[write_all bs, m]" "[None, eo]"] outcome_write_all [of bs]
  by (cases eo) simp_all

lemma outcome_value: "outcome (encode_value v) (value_err v)"
  by (cases v) (simp_all add: outcome_tagged outcome_str outcome_write_all)

lemma outcome_entry: "outcome (encode_entry kv) (entry_err kv)"
  unfolding encode_entry_def entry_err_def
  by (intro outcome_wseq) (simp add: outcome_str outcome_value)

lemma outcome_meta: "outcome (encode_meta ml m) (meta_err ml m)"
proof (cases m)
  case (Some x)
  let ?es = "[None, len_err ''metadata entries'' (meta_len ml x),
    first_err (map entry_err (meta_iter ml x))]"
  have "outcome (encode_meta ml m) (first_err ?es)"
    unfolding Some encode_meta.simps
    by (intro outcome_wseq) (simp add: outcome_write_all outcome_len outcome_map outcome_entry)
  moreover have "first_err ?es = meta_err ml m"
    by (cases "first_err (map entry_err (meta_iter ml x))";
        cases "len_err ''metadata entries'' (meta_len ml x)") (simp_all add: Some)
  ultimately show ?thesis by simp
qed (simp add: outcome_write_all)

lemma outcome_id: "outcome (encode_id i) (id_err i)"
proof (cases i)
  case (Bytes b)
  have "outcome (encode_id i) (first_err [None, len_err ''id bytes len'' (length b), None])"
    unfolding Bytes encode_id.simps
    by (intro outcome_wseq) (simp add: outcome_write_all outcome_len)
  then show ?thesis by (cases "len_err ''id bytes len'' (length b)") (simp_all add: Bytes)
qed (simp add: outcome_tagged outcome_write_all)

lemma outcome_row: "outcome (encode_row ml r) (row_err ml r)"
proof -
  have "outcome (encode_row ml r) (first_err [id_err (row_id r), None, meta_err ml (row_meta r)])"
    unfolding encode_row_def
    by (intro outcome_wseq) (simp add: outcome_id outcome_meta wseq_vec outcome_write_all)
  then show ?thesis by (cases "id_err (row_id r)") (simp_all add: row_err_def)
qed

lemma outcome_encode:
  assumes "kind_fits t k" and "d \<le> usize_max t" and "store_len s \<le> usize_max t"
  shows "outcome (encode ml k d mt s) (payload_err ml mt (st_rows s))"
proof -
  have mt: "outcome (wlift (metric_tag mt) (\<lambda>tag. write_all [tag])) (metric_err mt)"
    by (cases mt) (simp_all add: metric_err_def outcome_write_all, simp add: outcome_def result_of_def)
  let ?es = "[None, None, None, None, metric_err mt, None, first_err (map (row_err ml) (st_rows s))]"
  have "outcome (encode ml k d mt s) (first_err ?es)"
    unfolding encode_def
    using assms mt
    by (intro outcome_wseq)
      (simp add: outcome_write_all encode_kind_emit put_usize_emit outcome_map outcome_row)
  moreover have "first_err ?es = payload_err ml mt (st_rows s)"
    by (cases "metric_err mt"; cases "first_err (map (row_err ml) (st_rows s))")
      (simp_all add: payload_err_def)
  ultimately show ?thesis by simp
qed

end
