(* ===== verification/Iqdb_Meta_Instance.thy ===== *)
theory Iqdb_Meta_Instance
  imports Iqdb_Types "HOL-Library.Finite_Map"
begin

text \<open>
  The metadata parameter instantiated: an ordered map from strings to values that iterates
  in key order and lets the last of several entries with one key win. It satisfies
  \<open>meta_laws\<close>, so the properties that assume those laws are about something; their
  witnesses use it.
\<close>

definition btree_meta :: "(rstring, val) fmap meta_lib" where
  "btree_meta =
     \<lparr>meta_len = (\<lambda>m. fcard (fmdom m)),
      meta_iter = sorted_list_of_fmap,
      meta_collect = (\<lambda>es. fmap_of_list (rev es))\<rparr>"

lemma map_fst_sorted_list_of_fmap: "map fst (sorted_list_of_fmap m) = sorted_list_of_fset (fmdom m)"
  by (simp add: sorted_list_of_fmap_def comp_def)

lemma distinct_sorted_list_of_fmap: "distinct (map fst (sorted_list_of_fmap m))"
  by (simp add: map_fst_sorted_list_of_fmap sorted_list_of_fset.rep_eq)

lemma map_of_rev_distinct: "distinct (map fst xs) \<Longrightarrow> map_of (rev xs) = map_of xs"
  by (simp add: map_of_inject_set rev_map [symmetric])

lemma fmap_of_rev_sorted_list: "fmap_of_list (rev (sorted_list_of_fmap m)) = m"
  by (rule fmap_ext) (simp add: fmlookup_of_list map_of_rev_distinct distinct_sorted_list_of_fmap)

lemma btree_meta_laws: "meta_laws btree_meta"
proof -
  have "length (sorted_list_of_fmap m) = fcard (fmdom m)" for m :: "(rstring, val) fmap"
    by (simp add: sorted_list_of_fmap_def sorted_list_of_fset.rep_eq fcard.rep_eq)
  then have coh: "meta_coherent btree_meta m" for m
    by (simp add: meta_coherent_def btree_meta_def fmap_of_rev_sorted_list)
  have sub: "mset (sorted_list_of_fmap (fmap_of_list (rev es))) \<subseteq># mset es"
    for es :: "(rstring \<times> val) list"
  proof -
    let ?xs = "sorted_list_of_fmap (fmap_of_list (rev es))"
    have "set ?xs \<subseteq> set es"
    proof
      fix kv
      assume "kv \<in> set ?xs"
      then have "map_of ?xs (fst kv) = Some (snd kv)"
        by (metis distinct_sorted_list_of_fmap map_of_is_SomeI prod.collapse)
      then have "map_of (rev es) (fst kv) = Some (snd kv)"
        by (simp add: fmlookup_of_list)
      then show "kv \<in> set es" by (auto dest: map_of_SomeD)
    qed
    then have "mset_set (set ?xs) \<subseteq># mset_set (set es)"
      by (simp add: subset_imp_msubset_mset_set)
    moreover have "mset_set (set ?xs) = mset ?xs"
      using distinct_sorted_list_of_fmap by (metis distinct_map mset_set_set)
    moreover have "mset_set (set es) \<subseteq># mset es"
      by (metis mset_set_set_mset_msubset set_mset_mset)
    ultimately show ?thesis by (metis subset_mset.order_trans)
  qed
  show ?thesis
    using coh sub by (simp add: meta_laws_def btree_meta_def)
qed

lemma btree_meta_iter_empty [simp]: "meta_iter btree_meta fmempty = []"
  by (simp add: btree_meta_def sorted_list_of_fmap_def sorted_list_of_fset.rep_eq)

lemma btree_meta_iter_single [simp]: "meta_iter btree_meta (fmupd k v fmempty) = [(k, v)]"
  by (simp add: btree_meta_def sorted_list_of_fmap_def sorted_list_of_fset.rep_eq)

lemma btree_meta_coherent [simp]: "meta_coherent btree_meta m"
  using btree_meta_laws by (simp add: meta_laws_def)

end
