(* ===== verification/Iqdb_Codec_Props.thy ===== *)
theory Iqdb_Codec_Props
  imports Iqdb_Codec_Portable Iqdb_Meta_Instance
begin

text \<open>
  The properties of the payload codec, each with an application to a concrete database: one
  row under a byte key with metadata and one under a number.
\<close>

definition payload_of :: "index_kind \<Rightarrow> usize \<Rightarrow> metric \<Rightarrow> 'm row_store \<Rightarrow> 'm decoded" where
  "payload_of k d mt s = \<lparr>de_kind = k, de_dim = d, de_metric = mt, de_rows = st_rows s\<rparr>"

lemma payload_of_sel [simp]:
  "de_kind (payload_of k d mt s) = k" "de_dim (payload_of k d mt s) = d"
  "de_metric (payload_of k d mt s) = mt" "de_rows (payload_of k d mt s) = st_rows s"
  by (simp_all add: payload_of_def)

lemma encode_fits:
  "payload_fits ml t (payload_of k d mt s) \<Longrightarrow>
     encode ml k d mt s = write_all (payload_bytes ml (payload_of k d mt s))"
  by (simp add: payload_of_def encode_payload)

section \<open>A concrete database\<close>

definition str_k :: rstring where
  "str_k = Abs_rstring [0x6B]"

lemma as_bytes_str_k [simp]: "as_bytes str_k = [0x6B]"
  unfolding str_k_def by (rule Abs_rstring_inverse) (simp add: valid_utf8_ascii)

definition demo_store :: "(rstring, val) fmap row_store" where
  "demo_store =
     \<lparr>st_rows = [Row (Bytes [0xDE, 0xAD]) [0x3F800000, 0] (Some (fmupd str_k (VInt 7) fmempty)),
                 Row (U64 1) [0, 0x40000000] None],
      st_index = [Bytes [0xDE, 0xAD] \<mapsto> 0, U64 1 \<mapsto> 1]\<rparr>"

definition demo_ivf :: index_kind where
  "demo_ivf = Ivf \<lparr>ivf_n_clusters = 2, ivf_n_probes = 2, ivf_training_sample_size = 64,
     ivf_use_pq = True, ivf_pq_subvectors = Some 8, ivf_pq_refine_factor = 4, ivf_seed = 7\<rparr>"

lemma usize_max_ge [simp]: "n \<le> 4294967295 \<Longrightarrow> n \<le> usize_max t"
  by (cases t) simp_all

lemma demo_fits: "payload_fits btree_meta t (payload_of demo_ivf 2 Cosine demo_store)"
  by (simp add: payload_fits_def demo_ivf_def demo_store_def row_fits_def entry_fits_def str_fits_def)

section \<open>Round trip\<close>

text \<open>
  C1. Encoding a database within the limits of the format into a buffer succeeds, and
  decoding what was written, with any bytes after it, gives back the index kind with its
  whole configuration, the dimension, the metric and the rows in the same order, leaving
  exactly the bytes that follow.
\<close>

theorem codec_round_trip:
  assumes "payload_fits ml t (payload_of k d mt s)"
  shows "\<exists>bs. encode ml k d mt s buffer = (Inr (), \<lparr>wr_out = bs, wr_room = None\<rparr>)
    \<and> decode ml t (bs @ rest) = Inr (payload_of k d mt s, rest)"
  using assms by (simp add: encode_fits w_payload.round_trip)

theorem codec_round_trip_witness:
  "payload_fits btree_meta Ptr64 (payload_of demo_ivf 2 Cosine demo_store)
    \<and> (\<exists>bs. encode btree_meta demo_ivf 2 Cosine demo_store buffer = (Inr (), \<lparr>wr_out = bs, wr_room = None\<rparr>)
        \<and> decode btree_meta Ptr64 (bs @ [9]) = Inr (payload_of demo_ivf 2 Cosine demo_store, [9]))"
  using demo_fits codec_round_trip [OF demo_fits] by simp

text \<open>
  C28. A truncated payload is never accepted: every proper prefix of what \<open>encode\<close> wrote
  decodes to an error, at whatever byte it was cut.
\<close>

theorem codec_rejects_truncation:
  assumes "payload_fits ml t (payload_of k d mt s)"
    and "encode ml k d mt s buffer = (Inr (), w)"
    and "strict_prefix p (wr_out w)"
  shows "\<exists>e. decode ml t p = Inl e"
proof -
  have "wr_out w = payload_bytes ml (payload_of k d mt s)"
    using assms(2) by (auto simp: encode_fits [OF assms(1)])
  with assms(1,3) show ?thesis by (intro w_payload.truncated) simp_all
qed

theorem codec_rejects_truncation_witness:
  "\<exists>e. decode btree_meta Ptr64 (butlast (payload_bytes btree_meta (payload_of demo_ivf 2 Cosine demo_store))) = Inl e"
proof -
  let ?bs = "payload_bytes btree_meta (payload_of demo_ivf 2 Cosine demo_store)"
  have "?bs \<noteq> []" by (simp add: payload_bytes_def magic_def)
  then have "strict_prefix (butlast ?bs) ?bs"
    by (metis append_butlast_last_id not_Cons_self2 prefixI prefix_order.le_less self_append_conv)
  then show ?thesis
    by (intro codec_rejects_truncation [OF demo_fits, where w = "\<lparr>wr_out = ?bs, wr_room = None\<rparr>"])
      (simp_all add: encode_fits [OF demo_fits])
qed

text \<open>
  C33. On an output with limited room the encoder either writes the whole payload or fails
  with an i/o error, and then what reached the output is a prefix that no later decode takes
  for a database.
\<close>

theorem codec_short_write:
  assumes "payload_fits ml t (payload_of k d mt s)" and "wr_room w = Some n"
  defines "payload \<equiv> payload_bytes ml (payload_of k d mt s)"
  shows "\<exists>res w'. encode ml k d mt s w = (res, w') \<and> wr_out w' = wr_out w @ take n payload
    \<and> (if length payload \<le> n then res = Inr ()
       else res = Inl (PersistIo '''' WriteZero) \<and> (\<exists>e. decode ml t (take n payload) = Inl e))"
proof (cases "length payload \<le> n")
  case True
  with assms(2) show ?thesis
    by (simp add: encode_fits [OF assms(1)] payload_def write_all_def)
next
  case False
  then show ?thesis
    using w_payload.short_write [OF assms(1,2)]
    by (simp add: encode_fits [OF assms(1)] w_payload.emits [OF assms(1)] payload_def io_def)
qed

theorem codec_short_write_witness:
  "fst (encode btree_meta demo_ivf 2 Cosine demo_store \<lparr>wr_out = [], wr_room = Some 10\<rparr>)
     = Inl (PersistIo '''' WriteZero)"
proof -
  let ?bs = "payload_bytes btree_meta (payload_of demo_ivf 2 Cosine demo_store)"
  have "length ?bs = length magic + 4 + length (kind_bytes demo_ivf) + (8 + (1 + (8 +
      length (concat (map (row_bytes btree_meta) (st_rows demo_store))))))"
    by (simp add: payload_bytes_def)
  then have "10 < length ?bs" by (simp add: magic_def)
  with codec_short_write [OF demo_fits [of Ptr64], of "\<lparr>wr_out = [], wr_room = Some 10\<rparr>" 10]
  show ?thesis by auto
qed

section \<open>Untrusted input\<close>

lemma decode_sound_fits: "meta_laws ml \<Longrightarrow> decode ml t bs = Inr (d, r) \<Longrightarrow> payload_fits ml t d"
  using closed_wire.sound [OF closed_payload] by blast

text \<open>
  C12. Whatever bytes the decoder accepts, hostile ones included, the result respects the
  limits of the format (no empty key, every vector of the declared dimension, valid strings)
  and its encoding is no longer than the bytes that were read: no length field can make the
  decoder build more than it has received.
\<close>

theorem decode_sound:
  assumes "meta_laws ml" and "decode ml t bs = Inr (d, r)"
  shows "payload_fits ml t d \<and> length (payload_bytes ml d) + length r \<le> length bs"
  using closed_wire.sound [OF closed_payload [OF assms(1)] assms(2)] .

lemma demo_decode:
  "decode btree_meta t (payload_bytes btree_meta (payload_of demo_ivf 2 Cosine demo_store))
     = Inr (payload_of demo_ivf 2 Cosine demo_store, [])"
  by (rule w_payload.round_trip_exact [OF demo_fits])

theorem decode_sound_witness:
  "payload_fits btree_meta Ptr32 (payload_of demo_ivf 2 Cosine demo_store)"
  using decode_sound [OF btree_meta_laws demo_decode [of Ptr32]] by simp

lemma row_bytes_length: "row_fits ml d r \<Longrightarrow> 4 * d + 7 \<le> length (row_bytes ml r)"
proof -
  assume r: "row_fits ml d r"
  have i: "6 \<le> length (id_bytes i)" if "id_fits i" for i
    using that by (cases i) (auto simp: Suc_le_eq)
  have m: "1 \<le> length (meta_bytes ml m)" for m
    by (cases m) simp_all
  have v: "length (vec_bytes v) = 4 * length v" for v
    by (induction v) (simp_all add: vec_bytes_def)
  show ?thesis
    using r i [of "row_id r"] m [of "row_meta r"] by (simp add: row_fits_def row_bytes_def v)
qed

lemma rows_bytes_length:
  "list_all (row_fits ml d) rows \<Longrightarrow>
     length rows * (4 * d + 7) \<le> length (concat (map (row_bytes ml) rows))"
  by (induction rows) (auto dest!: row_bytes_length)

text \<open>
  C30. The number of rows and their dimension are paid for in bytes: a payload that decodes
  to \<open>n\<close> rows of dimension \<open>d\<close> is at least \<open>26 + n * (4 * d + 7)\<close> bytes long, so huge counts
  in a short file are rejected on every platform.
\<close>

theorem decode_rows_bounded:
  assumes "meta_laws ml" and "decode ml t bs = Inr (d, r)"
  shows "26 + length (de_rows d) * (4 * de_dim d + 7) \<le> length bs"
proof -
  note closed = closed_wire.sound [OF closed_payload [OF assms(1)] assms(2)]
  have "list_all (row_fits ml (de_dim d)) (de_rows d)"
    using closed by (simp add: payload_fits_def)
  note rows = rows_bytes_length [OF this]
  have "1 \<le> length (kind_bytes k)" for k by (cases k) simp_all
  then have "26 + length (concat (map (row_bytes ml) (de_rows d))) \<le> length (payload_bytes ml d)"
    by (simp add: payload_bytes_def magic_def)
  with closed rows show ?thesis by linarith
qed

theorem decode_rows_bounded_witness:
  "26 + 2 * 15 \<le> length (payload_bytes btree_meta (payload_of demo_ivf 2 Cosine demo_store))"
  using decode_rows_bounded [OF btree_meta_laws demo_decode [of Ptr64]]
  by (simp add: demo_store_def)

text \<open>
  C35. What was loaded can be saved: re-encoding any accepted payload succeeds, and the new
  bytes decode to the same database with nothing left over, even when the bytes read were
  not the canonical ones (a boolean byte above one, entries out of order, trailing data).
\<close>

theorem decode_normalises:
  assumes "meta_laws ml" and "decode ml t bs = Inr (d, r)" and "st_rows s = de_rows d"
  shows "\<exists>cs. encode ml (de_kind d) (de_dim d) (de_metric d) s buffer
      = (Inr (), \<lparr>wr_out = cs, wr_room = None\<rparr>) \<and> decode ml t cs = Inr (d, [])"
proof -
  have d: "payload_of (de_kind d) (de_dim d) (de_metric d) s = d"
    using assms(3) by (simp add: payload_of_def)
  have fits: "payload_fits ml t (payload_of (de_kind d) (de_dim d) (de_metric d) s)"
    using closed_wire.sound [OF closed_payload [OF assms(1)] assms(2)] by (simp add: d)
  show ?thesis
    using encode_fits [OF fits] w_payload.round_trip_exact [OF fits] by (simp add: d)
qed

theorem decode_normalises_witness:
  "\<exists>cs. encode btree_meta demo_ivf 2 Cosine demo_store buffer
      = (Inr (), \<lparr>wr_out = cs, wr_room = None\<rparr>)
    \<and> decode btree_meta Ptr64 cs = Inr (payload_of demo_ivf 2 Cosine demo_store, [])"
proof -
  have "decode btree_meta Ptr64
      (payload_bytes btree_meta (payload_of demo_ivf 2 Cosine demo_store) @ [1, 2, 3])
      = Inr (payload_of demo_ivf 2 Cosine demo_store, [1, 2, 3])"
    by (rule w_payload.round_trip [OF demo_fits])
  from decode_normalises [OF btree_meta_laws this, of demo_store] show ?thesis by simp
qed

section \<open>Platforms\<close>

text \<open>
  C29. The format is the same on every platform: what a 32-bit target decodes, every target
  decodes with the same result; a length that does not fit a \<open>usize\<close> is an error there, never
  a truncated value.
\<close>

theorem decode_portable: "decode ml Ptr32 bs = Inr x \<Longrightarrow> decode ml t bs = Inr x"
  using widens_decode [of ml t] unfolding widens_def by blast

theorem decode_portable_witness:
  "decode btree_meta Ptr64 (payload_bytes btree_meta (payload_of demo_ivf 2 Cosine demo_store))
     = Inr (payload_of demo_ivf 2 Cosine demo_store, [])"
  by (rule decode_portable) (rule demo_decode)

section \<open>Errors of the encoder\<close>

text \<open>
  C34. Encoding into a buffer fails exactly when the metric has no tag or a key, a string or
  the number of metadata entries of some row does not fit 32 bits, and reports the first of
  these in the order of the layout.
\<close>

theorem encode_outcome:
  assumes "kind_fits t k" and "d \<le> usize_max t" and "store_len s \<le> usize_max t"
  shows "fst (encode ml k d mt s buffer)
    = (case payload_err ml mt (st_rows s) of None \<Rightarrow> Inr () | Some e \<Rightarrow> Inl e)"
  using outcome_encode [OF assms] by (simp add: outcome_def result_of_def buffer_def)

theorem encode_outcome_witness:
  "fst (encode btree_meta demo_ivf 2 OtherMetric demo_store buffer) = Inl (UnsupportedMetric OtherMetric)"
  by (subst encode_outcome [of Ptr64])
    (simp_all add: demo_ivf_def store_len_def demo_store_def payload_err_def metric_err_def)

text \<open>
  C37. The encoder accepts an empty byte key that the decoder refuses: one row with the key
  \<open>VectorId::Bytes([])\<close> (an enum value the types allow, though the conversion from a byte
  vector rejects it) and the snapshot is written without an error but never decodes again.
\<close>

theorem empty_key_unreadable:
  assumes "kind_fits t k" and "d \<le> usize_max t" and "mt \<noteq> OtherMetric"
    and "store_len s \<le> usize_max t"
    and "st_rows s = before @ Row (Bytes []) v m # after"
    and "list_all (row_fits ml d) (before @ after)" and "length v = d" and "meta_fits ml m"
  shows "\<exists>bs. encode ml k d mt s buffer = (Inr (), \<lparr>wr_out = bs, wr_room = None\<rparr>)
    \<and> decode ml t bs = Inl (InvalidPayload ''VectorId::Bytes key must not be empty'')"
proof -
  let ?bad = "Row (Bytes []) v m"
  let ?tail = "row_bytes ml ?bad @ concat (map (row_bytes ml) after)"
  have rows: "\<forall>r \<in> set before \<union> set after. row_fits ml d r"
    using assms(6) by (auto simp: list_all_iff)
  have bad: "encode_row ml ?bad = write_all (row_bytes ml ?bad)"
    using assms(8) by (simp add: encode_row_def row_bytes_def w_meta.emits emit)
  have "map (encode_row ml) (st_rows s) = map write_all (map (row_bytes ml) (st_rows s))"
    using rows bad w_row.emits [of ml d] by (auto simp: assms(5))
  then have "wseq (map (encode_row ml) (st_rows s))
      = write_all (concat (map (row_bytes ml) (st_rows s)))"
    by (simp only: wseq_write_all)
  then have enc: "encode ml k d mt s = write_all (magic @ to_le_bytes version @ kind_bytes k
      @ usize_bytes d @ [metric_byte mt] @ usize_bytes (store_len s)
      @ concat (map (row_bytes ml) before) @ ?tail)"
    unfolding encode_def using assms(1-4)
    by (simp add: encode_kind_emit put_usize_emit emit) (simp add: assms(5))
  have fail: "decode_row ml d (?tail @ r) = Inl (InvalidPayload ''VectorId::Bytes key must not be empty'')"
    for r by (simp add: decode_row_def row_bytes_def decode_id_def rbind_def)
  have "read_times (length before + Suc n) (decode_row ml d)
      (concat (map (row_bytes ml) before) @ ?tail)
      = Inl (InvalidPayload ''VectorId::Bytes key must not be empty'')" for n
    using rows fail [of "[]"] by (induction before) (simp_all add: rbind_def w_row.round_trip)
  then have "read_times (store_len s) (decode_row ml d) (concat (map (row_bytes ml) before) @ ?tail)
      = Inl (InvalidPayload ''VectorId::Bytes key must not be empty'')"
    by (simp add: store_len_def assms(5))
  moreover have "length magic = 4" by (simp add: magic_def)
  ultimately show ?thesis
    unfolding enc decode_def using assms(1-4)
    by (simp add: rbind_def read_exact_append_eq decode_kind_bytes)
qed

theorem empty_key_unreadable_witness:
  "\<exists>bs. encode btree_meta Flat 1 Cosine \<lparr>st_rows = [Row (Bytes []) [0] None], st_index = [Bytes [] \<mapsto> 0]\<rparr> buffer
      = (Inr (), \<lparr>wr_out = bs, wr_room = None\<rparr>)
    \<and> decode btree_meta Ptr64 bs = Inl (InvalidPayload ''VectorId::Bytes key must not be empty'')"
  by (rule empty_key_unreadable [where before = "[]" and after = "[]" and v = "[0]" and m = None])
    (simp_all add: store_len_def)

end
