(* ===== verification/Iqdb_Index.thy ===== *)
theory Iqdb_Index
  imports Iqdb_Config
begin

text \<open>
  The derived index (src/engine/index.rs) and the optional cache around it (the
  \<open>CacheLayer\<close> of src/engine/mod.rs). The three index families, the bulk builder and the
  result cache are crates of their own: they enter as the dictionaries \<open>index_lib\<close> and
  \<open>cache_lib\<close>, whose functions the definitions here call where the code calls them.
  \<open>search\<close> takes a shared reference, but a cache counts hits behind it, so the model returns
  the index it leaves.
\<close>

section \<open>The IndexCore interface\<close>

text \<open>
  \<open>IndexStats\<close> and \<open>SearchParams\<close> are structs of other crates of which the code names one
  field each; the record extension stands for the others.
\<close>

record index_stats =
  n_vectors :: usize

record ('s, 'm, 'p, 'h, 'z) index_core =
  ix_insert :: "vector_id \<Rightarrow> vec \<Rightarrow> 'm option \<Rightarrow> 's \<Rightarrow> (iqdb_error + unit) \<times> 's"
  ix_delete :: "vector_id \<Rightarrow> 's \<Rightarrow> (iqdb_error + unit) \<times> 's"
  ix_search :: "vec \<Rightarrow> 'p \<Rightarrow> 's \<Rightarrow> (iqdb_error + 'h list) \<times> 's"
  ix_len :: "'s \<Rightarrow> usize"
  ix_dim :: "'s \<Rightarrow> usize"
  ix_metric :: "'s \<Rightarrow> metric"
  ix_flush :: "'s \<Rightarrow> (iqdb_error + unit) \<times> 's"
  ix_stats :: "'s \<Rightarrow> 'z index_stats_scheme"

section \<open>AnyIndex\<close>

datatype ('fl, 'hn, 'iv) any_index = AnyFlat 'fl | AnyHnsw 'hn | AnyIvf 'iv

record ('fl, 'hn, 'iv, 'm, 'p, 'h, 'z) index_lib =
  flat_new :: "usize \<Rightarrow> metric \<Rightarrow> iqdb_error + 'fl"
  flat_core :: "('fl, 'm, 'p, 'h, 'z) index_core"
  hnsw_new :: "usize \<Rightarrow> metric \<Rightarrow> hnsw_config \<Rightarrow> iqdb_error + 'hn"
  hnsw_core :: "('hn, 'm, 'p, 'h, 'z) index_core"
  ivf_new :: "usize \<Rightarrow> metric \<Rightarrow> ivf_config \<Rightarrow> iqdb_error + 'iv"
  ivf_core :: "('iv, 'm, 'p, 'h, 'z) index_core"
  ivf_is_trained :: "'iv \<Rightarrow> bool"
  ivf_train :: "vec list \<Rightarrow> 'iv \<Rightarrow> (iqdb_error + unit) \<times> 'iv"
  build_into :: "(vector_id \<times> vec \<times> 'm option) list \<Rightarrow> ('fl, 'hn, 'iv) any_index
    \<Rightarrow> (iqdb_error + usize) \<times> ('fl, 'hn, 'iv) any_index"

definition any_new ::
    "('fl, 'hn, 'iv, 'm, 'p, 'h, 'z) index_lib \<Rightarrow> index_kind \<Rightarrow> usize \<Rightarrow> metric
      \<Rightarrow> iqdb_error + ('fl, 'hn, 'iv) any_index" where
  "any_new L k d mt =
     (case k of
        Flat \<Rightarrow> and_then (flat_new L d mt) (\<lambda>i. Inr (AnyFlat i))
      | Hnsw cfg \<Rightarrow> and_then (hnsw_new L d mt cfg) (\<lambda>i. Inr (AnyHnsw i))
      | Ivf cfg \<Rightarrow> and_then (ivf_new L d mt cfg) (\<lambda>i. Inr (AnyIvf i)))"

fun any_needs_training ::
    "('fl, 'hn, 'iv, 'm, 'p, 'h, 'z) index_lib \<Rightarrow> ('fl, 'hn, 'iv) any_index \<Rightarrow> bool" where
  "any_needs_training L (AnyIvf i) = (\<not> ivf_is_trained L i)"
| "any_needs_training L (AnyFlat i) = False"
| "any_needs_training L (AnyHnsw i) = False"

fun any_train ::
    "('fl, 'hn, 'iv, 'm, 'p, 'h, 'z) index_lib \<Rightarrow> vec list \<Rightarrow> ('fl, 'hn, 'iv) any_index
      \<Rightarrow> (iqdb_error + unit) \<times> ('fl, 'hn, 'iv) any_index" where
  "any_train L sample (AnyIvf i) = apsnd AnyIvf (ivf_train L sample i)"
| "any_train L sample (AnyFlat i) = (Inr (), AnyFlat i)"
| "any_train L sample (AnyHnsw i) = (Inr (), AnyHnsw i)"

fun any_insert ::
    "('fl, 'hn, 'iv, 'm, 'p, 'h, 'z) index_lib \<Rightarrow> vector_id \<Rightarrow> vec \<Rightarrow> 'm option
      \<Rightarrow> ('fl, 'hn, 'iv) any_index \<Rightarrow> (iqdb_error + unit) \<times> ('fl, 'hn, 'iv) any_index" where
  "any_insert L i v m (AnyFlat x) = apsnd AnyFlat (ix_insert (flat_core L) i v m x)"
| "any_insert L i v m (AnyHnsw x) = apsnd AnyHnsw (ix_insert (hnsw_core L) i v m x)"
| "any_insert L i v m (AnyIvf x) = apsnd AnyIvf (ix_insert (ivf_core L) i v m x)"

fun any_delete ::
    "('fl, 'hn, 'iv, 'm, 'p, 'h, 'z) index_lib \<Rightarrow> vector_id
      \<Rightarrow> ('fl, 'hn, 'iv) any_index \<Rightarrow> (iqdb_error + unit) \<times> ('fl, 'hn, 'iv) any_index" where
  "any_delete L i (AnyFlat x) = apsnd AnyFlat (ix_delete (flat_core L) i x)"
| "any_delete L i (AnyHnsw x) = apsnd AnyHnsw (ix_delete (hnsw_core L) i x)"
| "any_delete L i (AnyIvf x) = apsnd AnyIvf (ix_delete (ivf_core L) i x)"

fun any_search ::
    "('fl, 'hn, 'iv, 'm, 'p, 'h, 'z) index_lib \<Rightarrow> vec \<Rightarrow> 'p
      \<Rightarrow> ('fl, 'hn, 'iv) any_index \<Rightarrow> (iqdb_error + 'h list) \<times> ('fl, 'hn, 'iv) any_index" where
  "any_search L q p (AnyFlat x) = apsnd AnyFlat (ix_search (flat_core L) q p x)"
| "any_search L q p (AnyHnsw x) = apsnd AnyHnsw (ix_search (hnsw_core L) q p x)"
| "any_search L q p (AnyIvf x) = apsnd AnyIvf (ix_search (ivf_core L) q p x)"

fun any_len ::
    "('fl, 'hn, 'iv, 'm, 'p, 'h, 'z) index_lib \<Rightarrow> ('fl, 'hn, 'iv) any_index \<Rightarrow> usize" where
  "any_len L (AnyFlat x) = ix_len (flat_core L) x"
| "any_len L (AnyHnsw x) = ix_len (hnsw_core L) x"
| "any_len L (AnyIvf x) = ix_len (ivf_core L) x"

fun any_dim ::
    "('fl, 'hn, 'iv, 'm, 'p, 'h, 'z) index_lib \<Rightarrow> ('fl, 'hn, 'iv) any_index \<Rightarrow> usize" where
  "any_dim L (AnyFlat x) = ix_dim (flat_core L) x"
| "any_dim L (AnyHnsw x) = ix_dim (hnsw_core L) x"
| "any_dim L (AnyIvf x) = ix_dim (ivf_core L) x"

fun any_metric ::
    "('fl, 'hn, 'iv, 'm, 'p, 'h, 'z) index_lib \<Rightarrow> ('fl, 'hn, 'iv) any_index \<Rightarrow> metric" where
  "any_metric L (AnyFlat x) = ix_metric (flat_core L) x"
| "any_metric L (AnyHnsw x) = ix_metric (hnsw_core L) x"
| "any_metric L (AnyIvf x) = ix_metric (ivf_core L) x"

fun any_flush ::
    "('fl, 'hn, 'iv, 'm, 'p, 'h, 'z) index_lib
      \<Rightarrow> ('fl, 'hn, 'iv) any_index \<Rightarrow> (iqdb_error + unit) \<times> ('fl, 'hn, 'iv) any_index" where
  "any_flush L (AnyFlat x) = apsnd AnyFlat (ix_flush (flat_core L) x)"
| "any_flush L (AnyHnsw x) = apsnd AnyHnsw (ix_flush (hnsw_core L) x)"
| "any_flush L (AnyIvf x) = apsnd AnyIvf (ix_flush (ivf_core L) x)"

fun any_stats ::
    "('fl, 'hn, 'iv, 'm, 'p, 'h, 'z) index_lib \<Rightarrow> ('fl, 'hn, 'iv) any_index
      \<Rightarrow> 'z index_stats_scheme" where
  "any_stats L (AnyFlat x) = ix_stats (flat_core L) x"
| "any_stats L (AnyHnsw x) = ix_stats (hnsw_core L) x"
| "any_stats L (AnyIvf x) = ix_stats (ivf_core L) x"

text \<open>\<open>impl IndexCore for AnyIndex\<close>: the dictionary of the dispatching methods.\<close>

definition any_core ::
    "('fl, 'hn, 'iv, 'm, 'p, 'h, 'z) index_lib
      \<Rightarrow> (('fl, 'hn, 'iv) any_index, 'm, 'p, 'h, 'z) index_core" where
  "any_core L =
     \<lparr>ix_insert = any_insert L, ix_delete = any_delete L, ix_search = any_search L,
      ix_len = any_len L, ix_dim = any_dim L, ix_metric = any_metric L,
      ix_flush = any_flush L, ix_stats = any_stats L\<rparr>"

section \<open>CacheLayer\<close>

text \<open>\<open>CachedIndex<AnyIndex>\<close> of \<open>iqdb_cache\<close>.\<close>

record ('i, 'cx, 'cc, 'cs, 'm, 'p, 'h, 'z) cache_lib =
  cx_with_config :: "'i \<Rightarrow> 'cc \<Rightarrow> 'cx"
  cx_into_inner :: "'cx \<Rightarrow> 'i"
  cx_get_ref :: "'cx \<Rightarrow> 'i"
  cx_stats :: "'cx \<Rightarrow> 'cs"
  cx_core :: "('cx, 'm, 'p, 'h, 'z) index_core"

datatype ('i, 'cx) cache_layer = Plain 'i | Cached 'cx

definition cl_wrap ::
    "('i, 'cx, 'cc, 'cs, 'm, 'p, 'h, 'z) cache_lib \<Rightarrow> 'i \<Rightarrow> 'cc option \<Rightarrow> ('i, 'cx) cache_layer" where
  "cl_wrap C idx cache =
     (case cache of Some cfg \<Rightarrow> Cached (cx_with_config C idx cfg) | None \<Rightarrow> Plain idx)"

fun cl_into_inner ::
    "('i, 'cx, 'cc, 'cs, 'm, 'p, 'h, 'z) cache_lib \<Rightarrow> ('i, 'cx) cache_layer \<Rightarrow> 'i" where
  "cl_into_inner C (Plain idx) = idx"
| "cl_into_inner C (Cached c) = cx_into_inner C c"

fun cl_needs_training ::
    "('i, 'cx, 'cc, 'cs, 'm, 'p, 'h, 'z) cache_lib \<Rightarrow> ('i \<Rightarrow> bool) \<Rightarrow> ('i, 'cx) cache_layer \<Rightarrow> bool" where
  "cl_needs_training C needs_training (Plain idx) = needs_training idx"
| "cl_needs_training C needs_training (Cached c) = needs_training (cx_get_ref C c)"

fun cl_cache_stats ::
    "('i, 'cx, 'cc, 'cs, 'm, 'p, 'h, 'z) cache_lib \<Rightarrow> ('i, 'cx) cache_layer \<Rightarrow> 'cs option" where
  "cl_cache_stats C (Plain idx) = None"
| "cl_cache_stats C (Cached c) = Some (cx_stats C c)"

fun cl_insert where
  "cl_insert I C i v m (Plain x) = apsnd Plain (ix_insert I i v m x)"
| "cl_insert I C i v m (Cached c) = apsnd Cached (ix_insert (cx_core C) i v m c)"

fun cl_delete where
  "cl_delete I C i (Plain x) = apsnd Plain (ix_delete I i x)"
| "cl_delete I C i (Cached c) = apsnd Cached (ix_delete (cx_core C) i c)"

fun cl_search where
  "cl_search I C q p (Plain x) = apsnd Plain (ix_search I q p x)"
| "cl_search I C q p (Cached c) = apsnd Cached (ix_search (cx_core C) q p c)"

fun cl_len where
  "cl_len I C (Plain x) = ix_len I x"
| "cl_len I C (Cached c) = ix_len (cx_core C) c"

fun cl_dim where
  "cl_dim I C (Plain x) = ix_dim I x"
| "cl_dim I C (Cached c) = ix_dim (cx_core C) c"

fun cl_metric where
  "cl_metric I C (Plain x) = ix_metric I x"
| "cl_metric I C (Cached c) = ix_metric (cx_core C) c"

fun cl_flush where
  "cl_flush I C (Plain x) = apsnd Plain (ix_flush I x)"
| "cl_flush I C (Cached c) = apsnd Cached (ix_flush (cx_core C) c)"

fun cl_stats where
  "cl_stats I C (Plain x) = ix_stats I x"
| "cl_stats I C (Cached c) = ix_stats (cx_core C) c"

text \<open>\<open>impl IndexCore for CacheLayer\<close>, over the inner index's dictionary \<open>I\<close>.\<close>

definition cl_core ::
    "('i, 'm, 'p, 'h, 'z) index_core \<Rightarrow> ('i, 'cx, 'cc, 'cs, 'm, 'p, 'h, 'z) cache_lib
      \<Rightarrow> (('i, 'cx) cache_layer, 'm, 'p, 'h, 'z) index_core" where
  "cl_core I C =
     \<lparr>ix_insert = cl_insert I C, ix_delete = cl_delete I C, ix_search = cl_search I C,
      ix_len = cl_len I C, ix_dim = cl_dim I C, ix_metric = cl_metric I C,
      ix_flush = cl_flush I C, ix_stats = cl_stats I C\<rparr>"

lemma cl_core_sel [simp]:
  "ix_insert (cl_core I C) = cl_insert I C" "ix_delete (cl_core I C) = cl_delete I C"
  "ix_search (cl_core I C) = cl_search I C" "ix_len (cl_core I C) = cl_len I C"
  "ix_dim (cl_core I C) = cl_dim I C" "ix_metric (cl_core I C) = cl_metric I C"
  "ix_flush (cl_core I C) = cl_flush I C" "ix_stats (cl_core I C) = cl_stats I C"
  by (simp_all add: cl_core_def)

lemma any_core_sel [simp]:
  "ix_insert (any_core L) = any_insert L" "ix_delete (any_core L) = any_delete L"
  "ix_search (any_core L) = any_search L" "ix_len (any_core L) = any_len L"
  "ix_dim (any_core L) = any_dim L" "ix_metric (any_core L) = any_metric L"
  "ix_flush (any_core L) = any_flush L" "ix_stats (any_core L) = any_stats L"
  by (simp_all add: any_core_def)

end
