(* ===== verification/Iqdb_Core.thy ===== *)
theory Iqdb_Core
  imports Iqdb_Index Iqdb_Codec
begin

text \<open>
  The durable core engine (\<open>IqdbCore\<close>, src/engine/mod.rs): the authoritative store, the
  derived index behind its optional cache, and the flag that an IVF index must be rebuilt
  before the next search. An operation that can panic returns an \<open>option\<close>; an error of the
  index is a value of the result, next to the state the failed call leaves.
\<close>

section \<open>State\<close>

record ('fl, 'hn, 'iv, 'cx, 'cc, 'm) iqdb_core =
  co_dim :: usize
  co_metric :: metric
  co_kind :: index_kind
  co_store :: "'m row_store"
  co_index :: "(('fl, 'hn, 'iv) any_index, 'cx) cache_layer"
  co_cache_cfg :: "'cc option"
  co_ivf_dirty :: bool

text \<open>The crates the engine is composed from.\<close>

record ('fl, 'hn, 'iv, 'cx, 'cc, 'cs, 'm, 'p, 'h, 'z) core_lib =
  lib_index :: "('fl, 'hn, 'iv, 'm, 'p, 'h, 'z) index_lib"
  lib_cache :: "(('fl, 'hn, 'iv) any_index, 'cx, 'cc, 'cs, 'm, 'p, 'h, 'z) cache_lib"
  lib_meta :: "'m meta_lib"
  lib_persist_of :: "iqdb_error \<Rightarrow> persist_error"

abbreviation layer ::
    "('fl, 'hn, 'iv, 'cx, 'cc, 'cs, 'm, 'p, 'h, 'z) core_lib
      \<Rightarrow> ((('fl, 'hn, 'iv) any_index, 'cx) cache_layer, 'm, 'p, 'h, 'z) index_core" where
  "layer L \<equiv> cl_core (any_core (lib_index L)) (lib_cache L)"

section \<open>Accessors\<close>

definition core_dim :: "('fl, 'hn, 'iv, 'cx, 'cc, 'm) iqdb_core \<Rightarrow> usize" where
  [simp]: "core_dim c = co_dim c"

definition core_metric :: "('fl, 'hn, 'iv, 'cx, 'cc, 'm) iqdb_core \<Rightarrow> metric" where
  [simp]: "core_metric c = co_metric c"

definition core_len :: "('fl, 'hn, 'iv, 'cx, 'cc, 'm) iqdb_core \<Rightarrow> usize" where
  "core_len c = store_len (co_store c)"

definition core_is_empty :: "('fl, 'hn, 'iv, 'cx, 'cc, 'm) iqdb_core \<Rightarrow> bool" where
  "core_is_empty c \<longleftrightarrow> store_is_empty (co_store c)"

definition core_needs_materialization :: "('fl, 'hn, 'iv, 'cx, 'cc, 'm) iqdb_core \<Rightarrow> bool" where
  "core_needs_materialization c \<longleftrightarrow> co_ivf_dirty c"

definition core_contains :: "('fl, 'hn, 'iv, 'cx, 'cc, 'm) iqdb_core \<Rightarrow> vector_id \<Rightarrow> bool" where
  "core_contains c i \<longleftrightarrow> store_contains (co_store c) i"

definition core_get_row ::
    "('fl, 'hn, 'iv, 'cx, 'cc, 'm) iqdb_core \<Rightarrow> vector_id \<Rightarrow> (vec \<times> 'm option) option option" where
  "core_get_row c i =
     map_option (map_option (\<lambda>row. (row_vector row, row_meta row))) (store_get (co_store c) i)"

definition core_cache_stats ::
    "('fl, 'hn, 'iv, 'cx, 'cc, 'cs, 'm, 'p, 'h, 'z) core_lib
      \<Rightarrow> ('fl, 'hn, 'iv, 'cx, 'cc, 'm) iqdb_core \<Rightarrow> 'cs option" where
  "core_cache_stats L c = cl_cache_stats (lib_cache L) (co_index c)"

definition core_untrained ::
    "('fl, 'hn, 'iv, 'cx, 'cc, 'cs, 'm, 'p, 'h, 'z) core_lib
      \<Rightarrow> ('fl, 'hn, 'iv, 'cx, 'cc, 'm) iqdb_core \<Rightarrow> bool" where
  "core_untrained L c \<longleftrightarrow>
     cl_needs_training (lib_cache L) (any_needs_training (lib_index L)) (co_index c)"

section \<open>Construction and maintenance\<close>

definition core_new ::
    "('fl, 'hn, 'iv, 'cx, 'cc, 'cs, 'm, 'p, 'h, 'z) core_lib \<Rightarrow> usize \<Rightarrow> metric \<Rightarrow> 'cc core_config
      \<Rightarrow> iqdb_error + ('fl, 'hn, 'iv, 'cx, 'cc, 'm) iqdb_core" where
  "core_new L d mt config =
     and_then (any_new (lib_index L) (cc_index config) d mt) (\<lambda>idx.
       Inr \<lparr>co_dim = d, co_metric = mt, co_kind = cc_index config, co_store = store_new,
            co_index = cl_wrap (lib_cache L) idx (cc_cache config),
            co_cache_cfg = cc_cache config,
            co_ivf_dirty = any_needs_training (lib_index L) idx\<rparr>)"

definition core_set_cache ::
    "('fl, 'hn, 'iv, 'cx, 'cc, 'cs, 'm, 'p, 'h, 'z) core_lib \<Rightarrow> 'cc option
      \<Rightarrow> ('fl, 'hn, 'iv, 'cx, 'cc, 'm) iqdb_core
      \<Rightarrow> (iqdb_error + unit) \<times> ('fl, 'hn, 'iv, 'cx, 'cc, 'm) iqdb_core" where
  "core_set_cache L cache c =
     (case any_new (lib_index L) Flat (co_dim c) (co_metric c) of
        Inl e \<Rightarrow> (Inl e, c)
      | Inr placeholder \<Rightarrow>
          (let current = co_index c in
           (Inr (), c\<lparr>co_cache_cfg := cache,
                      co_index := cl_wrap (lib_cache L) (cl_into_inner (lib_cache L) current) cache\<rparr>)))"

definition store_items :: "'m row_store \<Rightarrow> (vector_id \<times> vec \<times> 'm option) list" where
  "store_items s = map row_entry (store_iter s)"

definition core_ensure_ready ::
    "('fl, 'hn, 'iv, 'cx, 'cc, 'cs, 'm, 'p, 'h, 'z) core_lib
      \<Rightarrow> ('fl, 'hn, 'iv, 'cx, 'cc, 'm) iqdb_core
      \<Rightarrow> (iqdb_error + unit) \<times> ('fl, 'hn, 'iv, 'cx, 'cc, 'm) iqdb_core" where
  "core_ensure_ready L c =
     (if \<not> co_ivf_dirty c \<or> store_is_empty (co_store c) then (Inr (), c)
      else case any_new (lib_index L) (co_kind c) (co_dim c) (co_metric c) of
        Inl e \<Rightarrow> (Inl e, c)
      | Inr idx \<Rightarrow>
          (case (if any_needs_training (lib_index L) idx
                 then any_train (lib_index L) (map row_vector (store_iter (co_store c))) idx
                 else (Inr (), idx)) of
             (Inl e, _) \<Rightarrow> (Inl e, c)
           | (Inr _, idx1) \<Rightarrow>
               (case build_into (lib_index L) (store_items (co_store c)) idx1 of
                  (Inl e, _) \<Rightarrow> (Inl e, c)
                | (Inr _, idx2) \<Rightarrow>
                    (Inr (), c\<lparr>co_index := cl_wrap (lib_cache L) idx2 (co_cache_cfg c),
                               co_ivf_dirty := False\<rparr>))))"

definition core_optimize ::
    "('fl, 'hn, 'iv, 'cx, 'cc, 'cs, 'm, 'p, 'h, 'z) core_lib
      \<Rightarrow> ('fl, 'hn, 'iv, 'cx, 'cc, 'm) iqdb_core
      \<Rightarrow> (iqdb_error + unit) \<times> ('fl, 'hn, 'iv, 'cx, 'cc, 'm) iqdb_core" where
  "core_optimize L c =
     core_ensure_ready L
       (case co_kind c of Ivf _ \<Rightarrow> c\<lparr>co_ivf_dirty := True\<rparr> | Flat \<Rightarrow> c | Hnsw _ \<Rightarrow> c)"

section \<open>Reads and writes\<close>

definition core_search ::
    "('fl, 'hn, 'iv, 'cx, 'cc, 'cs, 'm, 'p, 'h, 'z) core_lib \<Rightarrow> vec \<Rightarrow> 'p
      \<Rightarrow> ('fl, 'hn, 'iv, 'cx, 'cc, 'm) iqdb_core
      \<Rightarrow> (iqdb_error + 'h list) \<times> ('fl, 'hn, 'iv, 'cx, 'cc, 'm) iqdb_core" where
  "core_search L q p c =
     apsnd (\<lambda>ix. c\<lparr>co_index := ix\<rparr>) (ix_search (layer L) q p (co_index c))"

definition core_index_delete ::
    "('fl, 'hn, 'iv, 'cx, 'cc, 'cs, 'm, 'p, 'h, 'z) core_lib \<Rightarrow> vector_id
      \<Rightarrow> ('fl, 'hn, 'iv, 'cx, 'cc, 'm) iqdb_core
      \<Rightarrow> (iqdb_error + unit) \<times> ('fl, 'hn, 'iv, 'cx, 'cc, 'm) iqdb_core" where
  "core_index_delete L i c =
     (case ix_delete (layer L) i (co_index c) of
        (res, ix) \<Rightarrow>
          ((case res of Inr _ \<Rightarrow> Inr () | Inl NotFound \<Rightarrow> Inr () | Inl other \<Rightarrow> Inl other),
           c\<lparr>co_index := ix\<rparr>))"

definition core_index_insert ::
    "('fl, 'hn, 'iv, 'cx, 'cc, 'cs, 'm, 'p, 'h, 'z) core_lib \<Rightarrow> vector_id \<Rightarrow> vec \<Rightarrow> 'm option
      \<Rightarrow> ('fl, 'hn, 'iv, 'cx, 'cc, 'm) iqdb_core
      \<Rightarrow> (iqdb_error + unit) \<times> ('fl, 'hn, 'iv, 'cx, 'cc, 'm) iqdb_core" where
  "core_index_insert L i v m c =
     apsnd (\<lambda>ix. c\<lparr>co_index := ix\<rparr>) (ix_insert (layer L) i v m (co_index c))"

definition core_insert ::
    "('fl, 'hn, 'iv, 'cx, 'cc, 'cs, 'm, 'p, 'h, 'z) core_lib \<Rightarrow> vector_id \<Rightarrow> vec \<Rightarrow> 'm option
      \<Rightarrow> ('fl, 'hn, 'iv, 'cx, 'cc, 'm) iqdb_core
      \<Rightarrow> ((iqdb_error + unit) \<times> ('fl, 'hn, 'iv, 'cx, 'cc, 'm) iqdb_core) option" where
  "core_insert L i v m c =
     (case store_upsert (co_store c) i v m of
        None \<Rightarrow> None
      | Some (newly, st) \<Rightarrow>
          (let c1 = c\<lparr>co_store := st\<rparr> in
           if core_untrained L c1 then Some (Inr (), c1\<lparr>co_ivf_dirty := True\<rparr>)
           else if newly then Some (core_index_insert L i v m c1)
           else case core_index_delete L i c1 of
             (Inl e, c2) \<Rightarrow> Some (Inl e, c2)
           | (Inr _, c2) \<Rightarrow> Some (core_index_insert L i v m c2)))"

definition core_delete ::
    "('fl, 'hn, 'iv, 'cx, 'cc, 'cs, 'm, 'p, 'h, 'z) core_lib \<Rightarrow> vector_id
      \<Rightarrow> ('fl, 'hn, 'iv, 'cx, 'cc, 'm) iqdb_core
      \<Rightarrow> ((iqdb_error + unit) \<times> ('fl, 'hn, 'iv, 'cx, 'cc, 'm) iqdb_core) option" where
  "core_delete L i c =
     (case store_remove (co_store c) i of
        None \<Rightarrow> None
      | Some (existed, st) \<Rightarrow>
          (let c1 = c\<lparr>co_store := st\<rparr> in
           if core_untrained L c1 then Some (Inr (), c1\<lparr>co_ivf_dirty := True\<rparr>)
           else Some (core_index_delete L i c1)))"

definition core_flush ::
    "('fl, 'hn, 'iv, 'cx, 'cc, 'cs, 'm, 'p, 'h, 'z) core_lib
      \<Rightarrow> ('fl, 'hn, 'iv, 'cx, 'cc, 'm) iqdb_core
      \<Rightarrow> (iqdb_error + unit) \<times> ('fl, 'hn, 'iv, 'cx, 'cc, 'm) iqdb_core" where
  "core_flush L c = apsnd (\<lambda>ix. c\<lparr>co_index := ix\<rparr>) (ix_flush (layer L) (co_index c))"

definition core_stats ::
    "('fl, 'hn, 'iv, 'cx, 'cc, 'cs, 'm, 'p, 'h, 'z) core_lib
      \<Rightarrow> ('fl, 'hn, 'iv, 'cx, 'cc, 'm) iqdb_core \<Rightarrow> 'z index_stats_scheme" where
  "core_stats L c = (ix_stats (layer L) (co_index c))\<lparr>n_vectors := store_len (co_store c)\<rparr>"

section \<open>Persistence\<close>

definition core_save ::
    "('fl, 'hn, 'iv, 'cx, 'cc, 'cs, 'm, 'p, 'h, 'z) core_lib
      \<Rightarrow> ('fl, 'hn, 'iv, 'cx, 'cc, 'm) iqdb_core \<Rightarrow> write_op" where
  "core_save L c = encode (lib_meta L) (co_kind c) (co_dim c) (co_metric c) (co_store c)"

primrec upsert_rows :: "'m row list \<Rightarrow> 'm row_store \<Rightarrow> 'm row_store option" where
  "upsert_rows [] s = Some s"
| "upsert_rows (r # rs) s =
     Option.bind (store_upsert s (row_id r) (row_vector r) (row_meta r)) (\<lambda>(_, s'). upsert_rows rs s')"

definition core_load ::
    "('fl, 'hn, 'iv, 'cx, 'cc, 'cs, 'm, 'p, 'h, 'z) core_lib \<Rightarrow> target \<Rightarrow> u8 list
      \<Rightarrow> (persist_error + ('fl, 'hn, 'iv, 'cx, 'cc, 'm) iqdb_core) option" where
  "core_load L t bs =
     (case decode (lib_meta L) t bs of
        Inl e \<Rightarrow> Some (Inl e)
      | Inr (d, _) \<Rightarrow>
          (case upsert_rows (de_rows d) (store_with_capacity (length (de_rows d))) of
             None \<Rightarrow> None
           | Some store \<Rightarrow>
               Some (and_then (map_err (lib_persist_of L)
                   (any_new (lib_index L) (de_kind d) (de_dim d) (de_metric d))) (\<lambda>idx.
                 and_then
                   (if any_needs_training (lib_index L) idx then Inr (idx, True)
                    else map_err (lib_persist_of L)
                      (case build_into (lib_index L) (store_items store) idx of
                         (Inl e, _) \<Rightarrow> Inl e
                       | (Inr _, idx') \<Rightarrow> Inr (idx', False))) (\<lambda>(idx', dirty).
                 Inr \<lparr>co_dim = de_dim d, co_metric = de_metric d, co_kind = de_kind d,
                      co_store = store, co_index = cl_wrap (lib_cache L) idx' None,
                      co_cache_cfg = None, co_ivf_dirty = dirty\<rparr>)))))"

end
