(* ===== verification/Iqdb_Index_Laws.thy ===== *)
theory Iqdb_Index_Laws
  imports Iqdb_Index
begin

text \<open>
  What the engine relies on from the index families and the cache, as predicates on the
  dictionaries, and the proof that the dispatching layers of the crate pass it on: if each
  family keeps its contract, so do \<open>AnyIndex\<close> and \<open>CacheLayer\<close>.
\<close>

type_synonym 'm index_contents = "vector_id \<rightharpoonup> vec \<times> 'm option"

section \<open>The contract of an index\<close>

text \<open>
  \<open>\<alpha>\<close> reads off an index which vectors it holds. A fresh insert adds the vector or, failing,
  changes nothing; a delete removes a vector that is there, and answers \<open>NotFound\<close> only when
  it is not; searching and flushing change no contents.
\<close>

definition insert_law where
  "insert_law I \<alpha> \<longleftrightarrow>
     (\<forall>i v m s res s'. \<alpha> s i = None \<longrightarrow> ix_insert I i v m s = (res, s') \<longrightarrow>
        \<alpha> s' = (if is_ok res then (\<alpha> s)(i \<mapsto> (v, m)) else \<alpha> s))"

definition delete_law where
  "delete_law I \<alpha> \<longleftrightarrow>
     (\<forall>i s res s'. ix_delete I i s = (res, s') \<longrightarrow>
        (is_ok res \<longrightarrow> i \<in> dom (\<alpha> s)) \<and> (res = Inl NotFound \<longrightarrow> \<alpha> s i = None)
        \<and> \<alpha> s' = (if is_ok res then (\<alpha> s)(i := None) else \<alpha> s))"

definition read_law where
  "read_law I \<alpha> \<longleftrightarrow>
     (\<forall>q p s. \<alpha> (snd (ix_search I q p s)) = \<alpha> s) \<and> (\<forall>s. \<alpha> (snd (ix_flush I s)) = \<alpha> s)"

definition index_laws ::
    "('s, 'm, 'p, 'h, 'z) index_core \<Rightarrow> ('s \<Rightarrow> 'm index_contents) \<Rightarrow> bool" where
  "index_laws I \<alpha> \<longleftrightarrow> insert_law I \<alpha> \<and> delete_law I \<alpha> \<and> read_law I \<alpha>"

lemma index_laws_insert:
  "index_laws I \<alpha> \<Longrightarrow> ix_insert I i v m s = (res, s') \<Longrightarrow> \<alpha> s i = None
    \<Longrightarrow> \<alpha> s' = (if is_ok res then (\<alpha> s)(i \<mapsto> (v, m)) else \<alpha> s)"
  by (simp add: index_laws_def insert_law_def)

lemma index_laws_delete:
  assumes "index_laws I \<alpha>" and "ix_delete I i s = (res, s')"
  shows "is_ok res \<Longrightarrow> i \<in> dom (\<alpha> s)" and "res = Inl NotFound \<Longrightarrow> \<alpha> s i = None"
    and "\<alpha> s' = (if is_ok res then (\<alpha> s)(i := None) else \<alpha> s)"
  using assms unfolding index_laws_def delete_law_def by blast+

lemma index_laws_read:
  assumes "index_laws I \<alpha>"
  shows "\<alpha> (snd (ix_search I q p s)) = \<alpha> s" and "\<alpha> (snd (ix_flush I s)) = \<alpha> s"
  using assms by (simp_all add: index_laws_def read_law_def)

section \<open>The index families\<close>

fun any_contents ::
    "('fl \<Rightarrow> 'm index_contents) \<Rightarrow> ('hn \<Rightarrow> 'm index_contents) \<Rightarrow> ('iv \<Rightarrow> 'm index_contents)
      \<Rightarrow> ('fl, 'hn, 'iv) any_index \<Rightarrow> 'm index_contents" where
  "any_contents \<alpha>f \<alpha>h \<alpha>i (AnyFlat x) = \<alpha>f x"
| "any_contents \<alpha>f \<alpha>h \<alpha>i (AnyHnsw x) = \<alpha>h x"
| "any_contents \<alpha>f \<alpha>h \<alpha>i (AnyIvf x) = \<alpha>i x"

lemma apsnd_eq: "apsnd f x = (a, b) \<longleftrightarrow> (\<exists>y. x = (a, y) \<and> b = f y)"
  by (cases x) auto

lemma any_index_laws:
  assumes laws: "index_laws (flat_core L) \<alpha>f" "index_laws (hnsw_core L) \<alpha>h"
    "index_laws (ivf_core L) \<alpha>i"
  shows "index_laws (any_core L) (any_contents \<alpha>f \<alpha>h \<alpha>i)"
  unfolding index_laws_def
proof (intro conjI)
  show "insert_law (any_core L) (any_contents \<alpha>f \<alpha>h \<alpha>i)"
    unfolding insert_law_def
  proof (intro allI impI)
    fix i v m s res s'
    assume "any_contents \<alpha>f \<alpha>h \<alpha>i s i = None" and "ix_insert (any_core L) i v m s = (res, s')"
    with laws show "any_contents \<alpha>f \<alpha>h \<alpha>i s' =
        (if is_ok res then (any_contents \<alpha>f \<alpha>h \<alpha>i s)(i \<mapsto> (v, m)) else any_contents \<alpha>f \<alpha>h \<alpha>i s)"
      by (cases s) (auto simp: apsnd_eq index_laws_insert)
  qed
  show "delete_law (any_core L) (any_contents \<alpha>f \<alpha>h \<alpha>i)"
    unfolding delete_law_def
  proof (intro allI impI)
    fix i s res s'
    assume "ix_delete (any_core L) i s = (res, s')"
    with laws show "(is_ok res \<longrightarrow> i \<in> dom (any_contents \<alpha>f \<alpha>h \<alpha>i s))
        \<and> (res = Inl NotFound \<longrightarrow> any_contents \<alpha>f \<alpha>h \<alpha>i s i = None)
        \<and> any_contents \<alpha>f \<alpha>h \<alpha>i s' =
            (if is_ok res then (any_contents \<alpha>f \<alpha>h \<alpha>i s)(i := None) else any_contents \<alpha>f \<alpha>h \<alpha>i s)"
      by (cases s) (auto simp: apsnd_eq index_laws_delete(2,3) dest: index_laws_delete(1))
  qed
  show "read_law (any_core L) (any_contents \<alpha>f \<alpha>h \<alpha>i)"
    unfolding read_law_def
  proof (intro conjI allI)
    show "any_contents \<alpha>f \<alpha>h \<alpha>i (snd (ix_search (any_core L) q p s)) = any_contents \<alpha>f \<alpha>h \<alpha>i s" for q p s
      using laws by (cases s) (simp_all add: index_laws_read)
    show "any_contents \<alpha>f \<alpha>h \<alpha>i (snd (ix_flush (any_core L) s)) = any_contents \<alpha>f \<alpha>h \<alpha>i s" for s
      using laws by (cases s) (simp_all add: index_laws_read)
  qed
qed

text \<open>An index keeps the kind it was made of, whatever is done to it.\<close>

fun kind_matches :: "index_kind \<Rightarrow> ('fl, 'hn, 'iv) any_index \<Rightarrow> bool" where
  "kind_matches Flat (AnyFlat _) = True"
| "kind_matches (Hnsw _) (AnyHnsw _) = True"
| "kind_matches (Ivf _) (AnyIvf _) = True"
| "kind_matches _ _ = False"

definition is_ivf :: "index_kind \<Rightarrow> bool" where
  "is_ivf k = (case k of Ivf _ \<Rightarrow> True | Flat \<Rightarrow> False | Hnsw _ \<Rightarrow> False)"

lemma any_new_matches: "any_new L k d mt = Inr idx \<Longrightarrow> kind_matches k idx"
  by (cases k) (auto simp: any_new_def ok_iff)

lemma any_train_matches: "any_train L sample idx = (r, idx') \<Longrightarrow> kind_matches k idx' = kind_matches k idx"
  by (cases idx; cases k) (auto simp: apsnd_def map_prod_def split: prod.splits)

lemma any_insert_matches: "kind_matches k (snd (any_insert L i v m idx)) = kind_matches k idx"
  by (cases idx; cases k) simp_all

lemma any_delete_matches: "kind_matches k (snd (any_delete L i idx)) = kind_matches k idx"
  by (cases idx; cases k) simp_all

lemma any_search_matches: "kind_matches k (snd (any_search L q p idx)) = kind_matches k idx"
  by (cases idx; cases k) simp_all

lemma any_flush_matches: "kind_matches k (snd (any_flush L idx)) = kind_matches k idx"
  by (cases idx; cases k) simp_all

lemma needs_training_ivf: "kind_matches k idx \<Longrightarrow> any_needs_training L idx \<Longrightarrow> is_ivf k"
  by (cases idx; cases k) (simp_all add: is_ivf_def)

text \<open>
  The laws of the whole index library: a new index is empty, training makes an IVF index
  ready and nothing later undoes it, and the bulk builder inserts the items.
\<close>

definition ivf_laws :: "('fl, 'hn, 'iv, 'm, 'p, 'h, 'z) index_lib \<Rightarrow> bool" where
  "ivf_laws L \<longleftrightarrow>
     (\<forall>d mt cfg x. ivf_new L d mt cfg = Inr x \<longrightarrow> \<not> ivf_is_trained L x)
     \<and> (\<forall>sample x x'. ivf_train L sample x = (Inr (), x') \<longrightarrow> ivf_is_trained L x')
     \<and> (\<forall>i v m x. ivf_is_trained L x \<longrightarrow> ivf_is_trained L (snd (ix_insert (ivf_core L) i v m x)))
     \<and> (\<forall>i x. ivf_is_trained L x \<longrightarrow> ivf_is_trained L (snd (ix_delete (ivf_core L) i x)))
     \<and> (\<forall>q p x. ivf_is_trained L x \<longrightarrow> ivf_is_trained L (snd (ix_search (ivf_core L) q p x)))
     \<and> (\<forall>x. ivf_is_trained L x \<longrightarrow> ivf_is_trained L (snd (ix_flush (ivf_core L) x)))"

definition build_laws ::
    "('fl, 'hn, 'iv, 'm, 'p, 'h, 'z) index_lib
      \<Rightarrow> (('fl, 'hn, 'iv) any_index \<Rightarrow> 'm index_contents) \<Rightarrow> bool" where
  "build_laws L \<alpha> \<longleftrightarrow>
     (\<forall>items idx n idx'. build_into L items idx = (Inr n, idx') \<longrightarrow>
        (\<forall>k. kind_matches k idx' = kind_matches k idx)
        \<and> (any_needs_training L idx' \<longrightarrow> any_needs_training L idx)
        \<and> (distinct (map fst items) \<longrightarrow> \<alpha> idx = Map.empty \<longrightarrow> \<alpha> idx' = map_of items))"

definition new_laws ::
    "('fl, 'hn, 'iv, 'm, 'p, 'h, 'z) index_lib
      \<Rightarrow> (('fl, 'hn, 'iv) any_index \<Rightarrow> 'm index_contents) \<Rightarrow> bool" where
  "new_laws L \<alpha> \<longleftrightarrow>
     (\<forall>k d mt idx. any_new L k d mt = Inr idx \<longrightarrow> \<alpha> idx = Map.empty)
     \<and> (\<forall>sample idx idx'. any_train L sample idx = (Inr (), idx') \<longrightarrow> \<alpha> idx' = \<alpha> idx)"

definition library_laws ::
    "('fl, 'hn, 'iv, 'm, 'p, 'h, 'z) index_lib
      \<Rightarrow> (('fl, 'hn, 'iv) any_index \<Rightarrow> 'm index_contents) \<Rightarrow> bool" where
  "library_laws L \<alpha> \<longleftrightarrow>
     index_laws (any_core L) \<alpha> \<and> ivf_laws L \<and> build_laws L \<alpha> \<and> new_laws L \<alpha>"

text \<open>A trained index stays trained.\<close>

lemma stays_trained:
  assumes "ivf_laws L" and "\<not> any_needs_training L idx"
  shows "\<not> any_needs_training L (snd (any_insert L i v m idx))"
    and "\<not> any_needs_training L (snd (any_delete L i idx))"
    and "\<not> any_needs_training L (snd (any_search L q p idx))"
    and "\<not> any_needs_training L (snd (any_flush L idx))"
  using assms by (cases idx; simp add: ivf_laws_def)+

section \<open>The cache\<close>

text \<open>
  A cache over an index \<open>I\<close> is transparent: with \<open>ok\<close> for the caches that hold no stale
  entry, every operation answers what the index inside would answer and leaves the index as
  the index's own operation would.
\<close>

definition cache_op_law where
  "cache_op_law C ok cop iop \<longleftrightarrow>
     (\<forall>c. ok c \<longrightarrow>
        fst (cop c) = fst (iop (cx_get_ref C c))
        \<and> cx_get_ref C (snd (cop c)) = snd (iop (cx_get_ref C c)) \<and> ok (snd (cop c)))"

definition cache_laws ::
    "('i, 'm, 'p, 'h, 'z) index_core \<Rightarrow> ('i, 'cx, 'cc, 'cs, 'm, 'p, 'h, 'z) cache_lib
      \<Rightarrow> ('cx \<Rightarrow> bool) \<Rightarrow> bool" where
  "cache_laws I C ok \<longleftrightarrow>
     (\<forall>x cfg. ok (cx_with_config C x cfg) \<and> cx_get_ref C (cx_with_config C x cfg) = x)
     \<and> (\<forall>c. ok c \<longrightarrow> cx_into_inner C c = cx_get_ref C c)
     \<and> (\<forall>i v m. cache_op_law C ok (ix_insert (cx_core C) i v m) (ix_insert I i v m))
     \<and> (\<forall>i. cache_op_law C ok (ix_delete (cx_core C) i) (ix_delete I i))
     \<and> (\<forall>q p. cache_op_law C ok (ix_search (cx_core C) q p) (ix_search I q p))
     \<and> cache_op_law C ok (ix_flush (cx_core C)) (ix_flush I)"

text \<open>The index behind a layer, and the layers whose cache is not stale.\<close>

fun cl_inner ::
    "('i, 'cx, 'cc, 'cs, 'm, 'p, 'h, 'z) cache_lib \<Rightarrow> ('i, 'cx) cache_layer \<Rightarrow> 'i" where
  "cl_inner C (Plain x) = x"
| "cl_inner C (Cached c) = cx_get_ref C c"

fun cl_ok :: "('cx \<Rightarrow> bool) \<Rightarrow> ('i, 'cx) cache_layer \<Rightarrow> bool" where
  "cl_ok ok (Plain x) = True"
| "cl_ok ok (Cached c) = ok c"

lemma cl_needs_training_inner: "cl_needs_training C nt l = nt (cl_inner C l)"
  by (cases l) simp_all

lemma cl_wrap_inner:
  "cache_laws I C ok \<Longrightarrow> cl_inner C (cl_wrap C x cache) = x \<and> cl_ok ok (cl_wrap C x cache)"
  by (cases cache) (simp_all add: cl_wrap_def cache_laws_def)

lemma cl_into_inner_eq: "cache_laws I C ok \<Longrightarrow> cl_ok ok l \<Longrightarrow> cl_into_inner C l = cl_inner C l"
  by (cases l) (simp_all add: cache_laws_def)

text \<open>Every operation of the layer is the operation of the index behind it.\<close>

lemma cl_op:
  assumes "cache_laws I C ok" and "cl_ok ok l"
  shows cl_insert_inner: "fst (cl_insert I C i v m l) = fst (ix_insert I i v m (cl_inner C l))
      \<and> cl_inner C (snd (cl_insert I C i v m l)) = snd (ix_insert I i v m (cl_inner C l))
      \<and> cl_ok ok (snd (cl_insert I C i v m l))"
    and cl_delete_inner: "fst (cl_delete I C i l) = fst (ix_delete I i (cl_inner C l))
      \<and> cl_inner C (snd (cl_delete I C i l)) = snd (ix_delete I i (cl_inner C l))
      \<and> cl_ok ok (snd (cl_delete I C i l))"
    and cl_search_inner: "fst (cl_search I C q p l) = fst (ix_search I q p (cl_inner C l))
      \<and> cl_inner C (snd (cl_search I C q p l)) = snd (ix_search I q p (cl_inner C l))
      \<and> cl_ok ok (snd (cl_search I C q p l))"
    and cl_flush_inner: "fst (cl_flush I C l) = fst (ix_flush I (cl_inner C l))
      \<and> cl_inner C (snd (cl_flush I C l)) = snd (ix_flush I (cl_inner C l))
      \<and> cl_ok ok (snd (cl_flush I C l))"
  using assms by (cases l; simp add: cache_laws_def cache_op_law_def)+

end
