(* ===== verification/Iqdb_Core_Laws.thy ===== *)
theory Iqdb_Core_Laws
  imports Iqdb_Core Iqdb_Index_Laws
begin

text \<open>
  The core engine as a state machine: its well-formedness, the invariant that ties the
  derived index to the authoritative store, and what each operation does to both.
\<close>

abbreviation core_index ::
    "('fl, 'hn, 'iv, 'cx, 'cc, 'cs, 'm, 'p, 'h, 'z) core_lib
      \<Rightarrow> ('fl, 'hn, 'iv, 'cx, 'cc, 'm) iqdb_core \<Rightarrow> ('fl, 'hn, 'iv) any_index" where
  "core_index L c \<equiv> cl_inner (lib_cache L) (co_index c)"

abbreviation core_contents ::
    "('fl, 'hn, 'iv, 'cx, 'cc, 'm) iqdb_core \<Rightarrow> 'm index_contents" where
  "core_contents c \<equiv> store_contents (co_store c)"

text \<open>What the engine asks of the crates it is composed from.\<close>

definition engine_laws ::
    "('fl, 'hn, 'iv, 'cx, 'cc, 'cs, 'm, 'p, 'h, 'z) core_lib
      \<Rightarrow> (('fl, 'hn, 'iv) any_index \<Rightarrow> 'm index_contents) \<Rightarrow> ('cx \<Rightarrow> bool) \<Rightarrow> bool" where
  "engine_laws L \<alpha> ok \<longleftrightarrow>
     library_laws (lib_index L) \<alpha> \<and> cache_laws (any_core (lib_index L)) (lib_cache L) ok"

lemma engine_lawsD:
  assumes "engine_laws L \<alpha> ok"
  shows "index_laws (any_core (lib_index L)) \<alpha>" and "ivf_laws (lib_index L)"
    and "build_laws (lib_index L) \<alpha>" and "new_laws (lib_index L) \<alpha>"
    and "cache_laws (any_core (lib_index L)) (lib_cache L) ok"
  using assms by (simp_all add: engine_laws_def library_laws_def)

section \<open>The invariants\<close>

text \<open>
  The store's hash index is exact, no cache entry is stale, the index is of the kind the
  core was opened with, an untrained index is marked for a rebuild, and only an IVF core
  is ever marked.
\<close>

definition core_wf ::
    "('fl, 'hn, 'iv, 'cx, 'cc, 'cs, 'm, 'p, 'h, 'z) core_lib \<Rightarrow> ('cx \<Rightarrow> bool)
      \<Rightarrow> ('fl, 'hn, 'iv, 'cx, 'cc, 'm) iqdb_core \<Rightarrow> bool" where
  "core_wf L ok c \<longleftrightarrow>
     store_inv (co_store c) \<and> cl_ok ok (co_index c) \<and> kind_matches (co_kind c) (core_index L c)
     \<and> (core_untrained L c \<longrightarrow> co_ivf_dirty c) \<and> (co_ivf_dirty c \<longrightarrow> is_ivf (co_kind c))"

text \<open>Unless a rebuild is due, the index holds the vectors of the store.\<close>

definition core_synced ::
    "('fl, 'hn, 'iv, 'cx, 'cc, 'cs, 'm, 'p, 'h, 'z) core_lib
      \<Rightarrow> (('fl, 'hn, 'iv) any_index \<Rightarrow> 'm index_contents)
      \<Rightarrow> ('fl, 'hn, 'iv, 'cx, 'cc, 'm) iqdb_core \<Rightarrow> bool" where
  "core_synced L \<alpha> c \<longleftrightarrow> (\<not> co_ivf_dirty c \<longrightarrow> \<alpha> (core_index L c) = core_contents c)"

lemma core_untrained_eq: "core_untrained L c = any_needs_training (lib_index L) (core_index L c)"
  by (simp add: core_untrained_def cl_needs_training_inner)

section \<open>The index behind the layer\<close>

text \<open>
  Two cores are equal up to the cache when they differ only in whether, and how, the index
  is cached. Every operation respects this.
\<close>

definition core_sim ::
    "('fl, 'hn, 'iv, 'cx, 'cc, 'cs, 'm, 'p, 'h, 'z) core_lib \<Rightarrow> ('cx \<Rightarrow> bool)
      \<Rightarrow> ('fl, 'hn, 'iv, 'cx, 'cc, 'm) iqdb_core \<Rightarrow> ('fl, 'hn, 'iv, 'cx, 'cc, 'm) iqdb_core \<Rightarrow> bool" where
  "core_sim L ok a b \<longleftrightarrow>
     co_dim a = co_dim b \<and> co_metric a = co_metric b \<and> co_kind a = co_kind b
     \<and> co_store a = co_store b \<and> co_ivf_dirty a = co_ivf_dirty b
     \<and> core_index L a = core_index L b \<and> cl_ok ok (co_index a) \<and> cl_ok ok (co_index b)"

definition outcome_sim ::
    "('fl, 'hn, 'iv, 'cx, 'cc, 'cs, 'm, 'p, 'h, 'z) core_lib \<Rightarrow> ('cx \<Rightarrow> bool)
      \<Rightarrow> 'r \<times> ('fl, 'hn, 'iv, 'cx, 'cc, 'm) iqdb_core \<Rightarrow> 'r \<times> ('fl, 'hn, 'iv, 'cx, 'cc, 'm) iqdb_core \<Rightarrow> bool" where
  "outcome_sim L ok x y \<longleftrightarrow> fst x = fst y \<and> core_sim L ok (snd x) (snd y)"

lemma core_sim_sym: "core_sim L ok a b \<Longrightarrow> core_sim L ok b a"
  by (simp add: core_sim_def)

lemma core_sim_untrained: "core_sim L ok a b \<Longrightarrow> core_untrained L a = core_untrained L b"
  by (simp add: core_sim_def core_untrained_eq)

text \<open>The four calls the engine makes on its index, as the index behind the cache sees them.\<close>

lemma index_insert_spec:
  assumes "cache_laws (any_core (lib_index L)) (lib_cache L) ok" and "cl_ok ok (co_index c)"
    and "core_index_insert L i v m c = (res, c')"
  shows "any_insert (lib_index L) i v m (core_index L c) = (res, core_index L c')
    \<and> cl_ok ok (co_index c') \<and> c' = c\<lparr>co_index := co_index c'\<rparr>"
  using cl_insert_inner [OF assms(1,2), of i v m] assms(3)
  by (auto simp: core_index_insert_def apsnd_eq prod_eq_iff)

lemma index_delete_spec:
  assumes "cache_laws (any_core (lib_index L)) (lib_cache L) ok" and "cl_ok ok (co_index c)"
    and "core_index_delete L i c = (res, c')"
  shows "\<exists>r. any_delete (lib_index L) i (core_index L c) = (r, core_index L c')
    \<and> res = (if r = Inl NotFound then Inr () else r)
    \<and> cl_ok ok (co_index c') \<and> c' = c\<lparr>co_index := co_index c'\<rparr>"
  using cl_delete_inner [OF assms(1,2), of i] assms(3)
  by (auto simp: core_index_delete_def prod_eq_iff split: prod.splits sum.splits iqdb_error.splits)

lemma core_search_spec:
  assumes "cache_laws (any_core (lib_index L)) (lib_cache L) ok" and "cl_ok ok (co_index c)"
    and "core_search L q p c = (res, c')"
  shows "any_search (lib_index L) q p (core_index L c) = (res, core_index L c')
    \<and> cl_ok ok (co_index c') \<and> c' = c\<lparr>co_index := co_index c'\<rparr>"
  using cl_search_inner [OF assms(1,2), of q p] assms(3)
  by (auto simp: core_search_def apsnd_eq prod_eq_iff)

lemma core_flush_spec:
  assumes "cache_laws (any_core (lib_index L)) (lib_cache L) ok" and "cl_ok ok (co_index c)"
    and "core_flush L c = (res, c')"
  shows "any_flush (lib_index L) (core_index L c) = (res, core_index L c')
    \<and> cl_ok ok (co_index c') \<and> c' = c\<lparr>co_index := co_index c'\<rparr>"
  using cl_flush_inner [OF assms(1,2)] assms(3)
  by (auto simp: core_flush_def apsnd_eq prod_eq_iff)


section \<open>Each operation on the store, the flag and the index\<close>

lemma core_insert_cases:
  assumes "core_insert L i v m c = Some (res, c')"
  obtains (deferred) newly st where "store_upsert (co_store c) i v m = Some (newly, st)"
      "core_untrained L c" "res = Inr ()" "c' = c\<lparr>co_store := st, co_ivf_dirty := True\<rparr>"
    | (fresh) st where "store_upsert (co_store c) i v m = Some (True, st)" "\<not> core_untrained L c"
      "core_index_insert L i v m (c\<lparr>co_store := st\<rparr>) = (res, c')"
    | (stuck) st e where "store_upsert (co_store c) i v m = Some (False, st)" "\<not> core_untrained L c"
      "core_index_delete L i (c\<lparr>co_store := st\<rparr>) = (Inl e, c')" "res = Inl e"
    | (replaced) st c1 where "store_upsert (co_store c) i v m = Some (False, st)"
      "\<not> core_untrained L c" "core_index_delete L i (c\<lparr>co_store := st\<rparr>) = (Inr (), c1)"
      "core_index_insert L i v m c1 = (res, c')"
  using assms
  by (auto simp: core_insert_def core_untrained_def Let_def
      split: option.splits prod.splits if_splits sum.splits)

lemma core_delete_cases:
  assumes "core_delete L i c = Some (res, c')"
  obtains (deferred) existed st where "store_remove (co_store c) i = Some (existed, st)"
      "core_untrained L c" "res = Inr ()" "c' = c\<lparr>co_store := st, co_ivf_dirty := True\<rparr>"
    | (direct) existed st where "store_remove (co_store c) i = Some (existed, st)"
      "\<not> core_untrained L c" "core_index_delete L i (c\<lparr>co_store := st\<rparr>) = (res, c')"
  using assms
  by (auto simp: core_delete_def core_untrained_def Let_def
      split: option.splits prod.splits if_splits)

lemma core_ensure_ready_cases:
  assumes "core_ensure_ready L c = (res, c')"
  obtains (idle) "\<not> co_ivf_dirty c \<or> store_is_empty (co_store c)" "res = Inr ()" "c' = c"
    | (failed) e where "res = Inl e" "c' = c"
    | (built) idx idx1 n idx2 where
      "any_new (lib_index L) (co_kind c) (co_dim c) (co_metric c) = Inr idx"
      "(if any_needs_training (lib_index L) idx
        then any_train (lib_index L) (map row_vector (store_iter (co_store c))) idx
        else (Inr (), idx)) = (Inr (), idx1)"
      "build_into (lib_index L) (store_items (co_store c)) idx1 = (Inr n, idx2)" "res = Inr ()"
      "c' = c\<lparr>co_index := cl_wrap (lib_cache L) idx2 (co_cache_cfg c), co_ivf_dirty := False\<rparr>"
proof (cases "\<not> co_ivf_dirty c \<or> store_is_empty (co_store c)")
  case True
  from assms have "res = Inr ()" and "c' = c"
    unfolding core_ensure_ready_def if_P [OF True] by simp_all
  with True show ?thesis by (rule idle)
next
  case False
  note run = assms [unfolded core_ensure_ready_def if_not_P [OF False]]
  show ?thesis
  proof (cases "any_new (lib_index L) (co_kind c) (co_dim c) (co_metric c)")
    case (Inl e)
    with run have "res = Inl e" and "c' = c" by simp_all
    then show ?thesis by (rule failed)
  next
    case (Inr idx)
    let ?tr = "if any_needs_training (lib_index L) idx
      then any_train (lib_index L) (map row_vector (store_iter (co_store c))) idx
      else (Inr (), idx)"
    obtain r1 idx1 where tr: "?tr = (r1, idx1)" by fastforce
    obtain r2 idx2 where bld: "build_into (lib_index L) (store_items (co_store c)) idx1 = (r2, idx2)"
      by fastforce
    note run = run [unfolded Inr sum.case tr prod.case bld]
    show ?thesis
    proof (cases r1)
      case (Inl e)
      with run have "res = Inl e" and "c' = c" by simp_all
      then show ?thesis by (rule failed)
    next
      case r1: (Inr u)
      show ?thesis
      proof (cases r2)
        case (Inl e)
        with run [unfolded r1 sum.case] have "res = Inl e" and "c' = c" by simp_all
        then show ?thesis by (rule failed)
      next
        case (Inr n)
        from run [unfolded r1 Inr sum.case]
        have "res = Inr ()" "c' = c\<lparr>co_index := cl_wrap (lib_cache L) idx2 (co_cache_cfg c),
          co_ivf_dirty := False\<rparr>" by simp_all
        with \<open>any_new _ _ _ _ = Inr idx\<close> tr [unfolded r1] bld [unfolded Inr] show ?thesis
          by (intro built) simp_all
      qed
    qed
  qed
qed

lemma index_call_store:
  "core_index_insert L i v m k = (r, k') \<Longrightarrow> co_store k' = co_store k"
  "core_index_delete L i k = (r', k') \<Longrightarrow> co_store k' = co_store k"
  by (auto simp: core_index_insert_def core_index_delete_def apsnd_eq split: prod.splits)

text \<open>The writes change the store as a map is changed, whatever the index answers.\<close>

lemma core_insert_store:
  assumes "store_inv (co_store c)"
  shows "\<exists>res c'. core_insert L i v m c = Some (res, c') \<and> store_inv (co_store c')
    \<and> core_contents c' = (core_contents c)(i \<mapsto> (v, m))"
proof -
  from store_upsert_spec [OF assms, of i v m] obtain st where
    st: "store_upsert (co_store c) i v m = Some (core_contents c i = None, st)" "store_inv st"
      "store_contents st = (core_contents c)(i \<mapsto> (v, m))" by blast
  have "core_insert L i v m c \<noteq> None"
    using st(1) by (auto simp: core_insert_def Let_def split: prod.splits sum.splits)
  then obtain res c' where run: "core_insert L i v m c = Some (res, c')" by fastforce
  then have "co_store c' = st"
    by (cases rule: core_insert_cases) (use st(1) in \<open>auto dest!: index_call_store\<close>)
  with run st show ?thesis by blast
qed

lemma core_delete_store:
  assumes "store_inv (co_store c)"
  shows "\<exists>res c'. core_delete L i c = Some (res, c') \<and> store_inv (co_store c')
    \<and> core_contents c' = (core_contents c)(i := None)"
proof -
  from store_remove_spec [OF assms, of i] obtain st where
    st: "store_remove (co_store c) i = Some (core_contents c i \<noteq> None, st)" "store_inv st"
      "store_contents st = (core_contents c)(i := None)" by blast
  have "core_delete L i c \<noteq> None"
    using st(1) by (auto simp: core_delete_def Let_def split: prod.splits)
  then obtain res c' where run: "core_delete L i c = Some (res, c')" by fastforce
  then have "co_store c' = st"
    by (cases rule: core_delete_cases) (use st(1) in \<open>auto dest!: index_call_store\<close>)
  with run st show ?thesis by blast
qed

end
