(* ===== verification/Iqdb_Core_Inv.thy ===== *)
theory Iqdb_Core_Inv
  imports Iqdb_Core_Laws
begin

text \<open>
  Preservation: every operation of the core engine keeps it well-formed, and every operation
  that reports success keeps the index in step with the store.
\<close>

section \<open>Well-formedness\<close>

lemma core_wf_store: "core_wf L ok c \<Longrightarrow> store_inv st \<Longrightarrow> core_wf L ok (c\<lparr>co_store := st\<rparr>)"
  by (simp add: core_wf_def core_untrained_def)

lemma core_wf_dirty:
  "core_wf L ok c \<Longrightarrow> is_ivf (co_kind c) \<Longrightarrow> core_wf L ok (c\<lparr>co_ivf_dirty := True\<rparr>)"
  by (simp add: core_wf_def core_untrained_def)

lemma core_wf_untrained_ivf: "core_wf L ok c \<Longrightarrow> core_untrained L c \<Longrightarrow> is_ivf (co_kind c)"
  by (simp add: core_wf_def)

lemma core_wf_index:
  assumes "core_wf L ok k" and "cl_ok ok (co_index k')" and "k' = k\<lparr>co_index := co_index k'\<rparr>"
    and "\<And>K. kind_matches K (core_index L k') = kind_matches K (core_index L k)"
    and "core_untrained L k' \<Longrightarrow> core_untrained L k"
  shows "core_wf L ok k'"
proof -
  from assms(3) have "co_store k' = co_store k" "co_kind k' = co_kind k"
    "co_ivf_dirty k' = co_ivf_dirty k"
    by (metis iqdb_core.simps iqdb_core.surjective iqdb_core.update_convs(5))+
  with assms show ?thesis by (auto simp: core_wf_def)
qed

lemma snd_eqI: "f = (r, y) \<Longrightarrow> y = snd f"
  by simp

lemma index_insert_wf:
  assumes "engine_laws L \<alpha> ok" and "core_wf L ok k" and "core_index_insert L i v m k = (res, k')"
  shows "core_wf L ok k'"
proof -
  note laws = engine_lawsD [OF assms(1)]
  from index_insert_spec [OF laws(5) _ assms(3)] assms(2)
  have ix: "any_insert (lib_index L) i v m (core_index L k) = (res, core_index L k')"
    "cl_ok ok (co_index k')" "k' = k\<lparr>co_index := co_index k'\<rparr>" by (auto simp: core_wf_def)
  show ?thesis
    by (rule core_wf_index [OF assms(2) ix(2,3)])
      (use snd_eqI [OF ix(1)] stays_trained(1) [OF laws(2)] in
        \<open>auto simp: any_insert_matches core_untrained_eq\<close>)
qed

lemma index_delete_wf:
  assumes "engine_laws L \<alpha> ok" and "core_wf L ok k" and "core_index_delete L i k = (res, k')"
  shows "core_wf L ok k'"
proof -
  note laws = engine_lawsD [OF assms(1)]
  from index_delete_spec [OF laws(5) _ assms(3)] assms(2) obtain r where
    ix: "any_delete (lib_index L) i (core_index L k) = (r, core_index L k')"
    "cl_ok ok (co_index k')" "k' = k\<lparr>co_index := co_index k'\<rparr>" by (auto simp: core_wf_def)
  show ?thesis
    by (rule core_wf_index [OF assms(2) ix(2,3)])
      (use snd_eqI [OF ix(1)] stays_trained(2) [OF laws(2)] in
        \<open>auto simp: any_delete_matches core_untrained_eq\<close>)
qed

lemma core_search_wf:
  assumes "engine_laws L \<alpha> ok" and "core_wf L ok k" and "core_search L q p k = (res, k')"
  shows "core_wf L ok k'"
proof -
  note laws = engine_lawsD [OF assms(1)]
  from core_search_spec [OF laws(5) _ assms(3)] assms(2)
  have ix: "any_search (lib_index L) q p (core_index L k) = (res, core_index L k')"
    "cl_ok ok (co_index k')" "k' = k\<lparr>co_index := co_index k'\<rparr>" by (auto simp: core_wf_def)
  show ?thesis
    by (rule core_wf_index [OF assms(2) ix(2,3)])
      (use snd_eqI [OF ix(1)] stays_trained(3) [OF laws(2)] in
        \<open>auto simp: any_search_matches core_untrained_eq\<close>)
qed

lemma core_flush_wf:
  assumes "engine_laws L \<alpha> ok" and "core_wf L ok k" and "core_flush L k = (res, k')"
  shows "core_wf L ok k'"
proof -
  note laws = engine_lawsD [OF assms(1)]
  from core_flush_spec [OF laws(5) _ assms(3)] assms(2)
  have ix: "any_flush (lib_index L) (core_index L k) = (res, core_index L k')"
    "cl_ok ok (co_index k')" "k' = k\<lparr>co_index := co_index k'\<rparr>" by (auto simp: core_wf_def)
  show ?thesis
    by (rule core_wf_index [OF assms(2) ix(2,3)])
      (use snd_eqI [OF ix(1)] stays_trained(4) [OF laws(2)] in
        \<open>auto simp: any_flush_matches core_untrained_eq\<close>)
qed

lemma core_insert_wf:
  assumes laws: "engine_laws L \<alpha> ok" and wf: "core_wf L ok c"
    and run: "core_insert L i v m c = Some (res, c')"
  shows "core_wf L ok c'"
proof -
  have inv: "store_inv st" if "store_upsert (co_store c) i v m = Some (b, st)" for b st
    using that store_upsert_spec [of "co_store c" i v m] wf by (auto simp: core_wf_def)
  from run show ?thesis
  proof (cases rule: core_insert_cases)
    case (deferred newly st)
    then have "core_wf L ok (c\<lparr>co_store := st\<rparr>\<lparr>co_ivf_dirty := True\<rparr>)"
      using wf inv by (intro core_wf_dirty core_wf_store) (auto simp: core_wf_untrained_ivf)
    with deferred show ?thesis by simp
  next
    case (fresh st)
    then show ?thesis by (blast intro: index_insert_wf [OF laws] core_wf_store [OF wf] inv)
  next
    case (stuck st e)
    then show ?thesis by (blast intro: index_delete_wf [OF laws] core_wf_store [OF wf] inv)
  next
    case (replaced st c1)
    then show ?thesis by (blast intro: index_insert_wf [OF laws] index_delete_wf [OF laws] core_wf_store [OF wf] inv)
  qed
qed

lemma core_delete_wf:
  assumes laws: "engine_laws L \<alpha> ok" and wf: "core_wf L ok c"
    and run: "core_delete L i c = Some (res, c')"
  shows "core_wf L ok c'"
proof -
  have inv: "store_inv st" if "store_remove (co_store c) i = Some (b, st)" for b st
    using that store_remove_spec [of "co_store c" i] wf by (auto simp: core_wf_def)
  from run show ?thesis
  proof (cases rule: core_delete_cases)
    case (deferred existed st)
    then have "core_wf L ok (c\<lparr>co_store := st\<rparr>\<lparr>co_ivf_dirty := True\<rparr>)"
      using wf inv by (intro core_wf_dirty core_wf_store) (auto simp: core_wf_untrained_ivf)
    with deferred show ?thesis by simp
  next
    case (direct existed st)
    then show ?thesis by (blast intro: index_delete_wf [OF laws] core_wf_store [OF wf] inv)
  qed
qed

text \<open>What a rebuild leaves: a trained index of the core's kind, with the given vectors.\<close>

lemma rebuilt_index:
  assumes laws: "engine_laws L \<alpha> ok"
    and new: "any_new (lib_index L) k d mt = Inr idx"
    and train: "(if any_needs_training (lib_index L) idx then any_train (lib_index L) sample idx
      else (Inr (), idx)) = (Inr (), idx1)"
    and build: "build_into (lib_index L) items idx1 = (Inr n, idx2)"
  shows "kind_matches k idx2" and "\<not> any_needs_training (lib_index L) idx2"
    and "distinct (map fst items) \<Longrightarrow> \<alpha> idx2 = map_of items"
proof -
  note lw = engine_lawsD [OF laws]
  have fresh: "\<alpha> idx = Map.empty" "\<And>s i i'. any_train (lib_index L) s i = (Inr (), i') \<Longrightarrow> \<alpha> i' = \<alpha> i"
    using lw(4) new by (auto simp: new_laws_def)
  have trained: "\<not> any_needs_training (lib_index L) i'"
    if "any_train (lib_index L) s i = (Inr (), i')" "any_needs_training (lib_index L) i" for s i i'
    using that lw(2) by (cases i) (auto simp: apsnd_eq ivf_laws_def)
  have idx1: "kind_matches k idx1" "\<not> any_needs_training (lib_index L) idx1" "\<alpha> idx1 = Map.empty"
    using train fresh trained any_new_matches [OF new] any_train_matches [of "lib_index L" sample idx "Inr ()" idx1 k]
    by (auto split: if_splits)
  from lw(3) build have bl: "kind_matches k idx2 = kind_matches k idx1"
    "any_needs_training (lib_index L) idx2 \<longrightarrow> any_needs_training (lib_index L) idx1"
    "distinct (map fst items) \<longrightarrow> \<alpha> idx1 = Map.empty \<longrightarrow> \<alpha> idx2 = map_of items"
    unfolding build_laws_def by blast+
  show "kind_matches k idx2" "\<not> any_needs_training (lib_index L) idx2"
    "distinct (map fst items) \<Longrightarrow> \<alpha> idx2 = map_of items"
    using bl idx1 by auto
qed

lemma core_ensure_ready_wf:
  assumes laws: "engine_laws L \<alpha> ok" and wf: "core_wf L ok c"
    and run: "core_ensure_ready L c = (res, c')"
  shows "core_wf L ok c'"
  using run
proof (cases rule: core_ensure_ready_cases)
  case (built idx idx1 n idx2)
  from rebuilt_index(1,2) [OF laws built(1,2,3)] cl_wrap_inner [OF engine_lawsD(5) [OF laws]] wf
  show ?thesis by (simp add: built(5) core_wf_def core_untrained_eq)
qed (use wf in simp_all)

lemma core_optimize_wf:
  assumes laws: "engine_laws L \<alpha> ok" and wf: "core_wf L ok c"
    and run: "core_optimize L c = (res, c')"
  shows "core_wf L ok c'"
proof -
  have "core_wf L ok (case co_kind c of Ivf _ \<Rightarrow> c\<lparr>co_ivf_dirty := True\<rparr> | Flat \<Rightarrow> c | Hnsw _ \<Rightarrow> c)"
    using wf core_wf_dirty [OF wf] by (auto simp: is_ivf_def split: index_kind.splits)
  with run show ?thesis
    unfolding core_optimize_def by (rule core_ensure_ready_wf [OF laws, rotated])
qed

lemma core_set_cache_spec:
  assumes "cache_laws (any_core (lib_index L)) (lib_cache L) ok" and "cl_ok ok (co_index c)"
    and "core_set_cache L cache c = (res, c')"
  shows "core_index L c' = core_index L c \<and> cl_ok ok (co_index c') \<and> co_store c' = co_store c
    \<and> co_kind c' = co_kind c \<and> co_dim c' = co_dim c \<and> co_metric c' = co_metric c
    \<and> co_ivf_dirty c' = co_ivf_dirty c"
  using assms cl_wrap_inner [OF assms(1)] cl_into_inner_eq [OF assms(1,2)]
  by (auto simp: core_set_cache_def split: sum.splits)

lemma core_set_cache_wf:
  assumes laws: "engine_laws L \<alpha> ok" and wf: "core_wf L ok c"
    and run: "core_set_cache L cache c = (res, c')"
  shows "core_wf L ok c'"
  using core_set_cache_spec [OF engine_lawsD(5) [OF laws] _ run] wf
  by (auto simp: core_wf_def core_untrained_eq)

lemma store_inv_new: "store_inv store_new" "store_inv (store_with_capacity n)"
  by (simp_all add: store_inv_def store_new_def store_with_capacity_def)

lemma store_contents_new:
  "store_contents store_new = Map.empty" "store_contents (store_with_capacity n) = Map.empty"
  by (simp_all add: store_contents_def store_new_def store_with_capacity_def rows_contents_def)

lemma core_new_wf:
  assumes laws: "engine_laws L \<alpha> ok" and run: "core_new L d mt config = Inr c"
  shows "core_wf L ok c" and "core_synced L \<alpha> c" and "core_contents c = Map.empty"
proof -
  note lw = engine_lawsD [OF laws]
  from run obtain idx where idx: "any_new (lib_index L) (cc_index config) d mt = Inr idx"
    and c: "c = \<lparr>co_dim = d, co_metric = mt, co_kind = cc_index config, co_store = store_new,
      co_index = cl_wrap (lib_cache L) idx (cc_cache config), co_cache_cfg = cc_cache config,
      co_ivf_dirty = any_needs_training (lib_index L) idx\<rparr>"
    by (auto simp: core_new_def ok_iff)
  note mt = any_new_matches [OF idx]
  show "core_wf L ok c"
    using cl_wrap_inner [OF lw(5)] mt needs_training_ivf [OF mt]
    by (auto simp: c core_wf_def core_untrained_eq store_inv_new)
  show "core_synced L \<alpha> c"
    using cl_wrap_inner [OF lw(5)] lw(4) idx
    by (auto simp: c core_synced_def store_contents_new new_laws_def)
  show "core_contents c = Map.empty" by (simp add: c store_contents_new)
qed

section \<open>The index follows the store\<close>

lemma core_synced_clean: "core_synced L \<alpha> c \<Longrightarrow> \<not> co_ivf_dirty c \<Longrightarrow> \<alpha> (core_index L c) = core_contents c"
  by (simp add: core_synced_def)

lemma core_synced_dirty: "co_ivf_dirty c \<Longrightarrow> core_synced L \<alpha> c"
  by (simp add: core_synced_def)

lemma index_call_dirty:
  "core_index_insert L i v m k = (r, k') \<Longrightarrow> co_ivf_dirty k' = co_ivf_dirty k"
  "core_index_delete L i k = (r', k') \<Longrightarrow> co_ivf_dirty k' = co_ivf_dirty k"
  by (auto simp: core_index_insert_def core_index_delete_def apsnd_eq split: prod.splits)

lemma index_insert_contents:
  assumes "engine_laws L \<alpha> ok" and "cl_ok ok (co_index k)"
    and "core_index_insert L i v m k = (res, k')" and "\<alpha> (core_index L k) i = None"
  shows "\<alpha> (core_index L k') =
    (if is_ok res then (\<alpha> (core_index L k))(i \<mapsto> (v, m)) else \<alpha> (core_index L k))"
  using index_insert_spec [OF engine_lawsD(5) [OF assms(1)] assms(2,3)]
    index_laws_insert [OF engine_lawsD(1) [OF assms(1)]] assms(4) by auto

lemma index_delete_contents:
  assumes "engine_laws L \<alpha> ok" and "cl_ok ok (co_index k)"
    and "core_index_delete L i k = (res, k')"
  shows "\<alpha> (core_index L k') =
    (if is_ok res then (\<alpha> (core_index L k))(i := None) else \<alpha> (core_index L k))"
    and "cl_ok ok (co_index k')"
proof -
  from index_delete_spec [OF engine_lawsD(5) [OF assms(1)] assms(2,3)] obtain r where
    r: "any_delete (lib_index L) i (core_index L k) = (r, core_index L k')"
      "res = (if r = Inl NotFound then Inr () else r)" "cl_ok ok (co_index k')" by blast
  from index_laws_delete(2,3) [OF engine_lawsD(1) [OF assms(1)], of i "core_index L k" r "core_index L k'"] r
  show "\<alpha> (core_index L k') =
    (if is_ok res then (\<alpha> (core_index L k))(i := None) else \<alpha> (core_index L k))"
    by (auto simp: fun_upd_idem)
  show "cl_ok ok (co_index k')" by (fact r(3))
qed

lemma core_insert_synced:
  assumes laws: "engine_laws L \<alpha> ok" and wf: "core_wf L ok c" and sy: "core_synced L \<alpha> c"
    and run: "core_insert L i v m c = Some (res, c')" and ok: "is_ok res"
  shows "core_synced L \<alpha> c'"
proof (cases "co_ivf_dirty c'")
  case True
  then show ?thesis by (rule core_synced_dirty)
next
  case clean: False
  have inv: "store_inv (co_store c)" and cl: "cl_ok ok (co_index c)"
    using wf by (simp_all add: core_wf_def)
  from store_upsert_spec [OF inv, of i v m] obtain st where
    st: "store_upsert (co_store c) i v m = Some (core_contents c i = None, st)"
      "store_contents st = (core_contents c)(i \<mapsto> (v, m))" by blast
  let ?c = "c\<lparr>co_store := st\<rparr>"
  from core_insert_store [OF inv, of L i v m] run
  have contents: "core_contents c' = (core_contents c)(i \<mapsto> (v, m))" by auto
  from run have "\<alpha> (core_index L c') = (core_contents c)(i \<mapsto> (v, m))"
  proof (cases rule: core_insert_cases)
    case (deferred newly st')
    with clean show ?thesis by simp
  next
    case (fresh st')
    with clean index_call_dirty have "\<not> co_ivf_dirty c" by fastforce
    with sy have "\<alpha> (core_index L ?c) = core_contents c" by (simp add: core_synced_def)
    with index_insert_contents [OF laws _ fresh(3)] fresh(1) st cl ok show ?thesis by auto
  next
    case (stuck st' e)
    with ok show ?thesis by simp
  next
    case (replaced st' c1)
    with clean index_call_dirty have "\<not> co_ivf_dirty c" by fastforce
    with sy have "\<alpha> (core_index L ?c) = core_contents c" by (simp add: core_synced_def)
    with index_delete_contents [OF laws _ replaced(3)] cl replaced(1) st(1)
    have "\<alpha> (core_index L c1) = (core_contents c)(i := None)" "cl_ok ok (co_index c1)" by auto
    with index_insert_contents [OF laws _ replaced(4)] ok show ?thesis by auto
  qed
  with contents show ?thesis by (simp add: core_synced_def)
qed

lemma core_delete_synced:
  assumes laws: "engine_laws L \<alpha> ok" and wf: "core_wf L ok c" and sy: "core_synced L \<alpha> c"
    and run: "core_delete L i c = Some (res, c')" and ok: "is_ok res"
  shows "core_synced L \<alpha> c'"
proof (cases "co_ivf_dirty c'")
  case True
  then show ?thesis by (rule core_synced_dirty)
next
  case clean: False
  have inv: "store_inv (co_store c)" and cl: "cl_ok ok (co_index c)"
    using wf by (simp_all add: core_wf_def)
  from core_delete_store [OF inv, of L i] run
  have contents: "core_contents c' = (core_contents c)(i := None)" by auto
  from run have "\<alpha> (core_index L c') = (core_contents c)(i := None)"
  proof (cases rule: core_delete_cases)
    case (deferred existed st)
    with clean show ?thesis by simp
  next
    case (direct existed st)
    with clean index_call_dirty have "\<not> co_ivf_dirty c" by fastforce
    with sy have "\<alpha> (core_index L (c\<lparr>co_store := st\<rparr>)) = core_contents c"
      by (simp add: core_synced_def)
    with index_delete_contents [OF laws _ direct(3)] cl ok show ?thesis by auto
  qed
  with contents show ?thesis by (simp add: core_synced_def)
qed

lemma core_search_synced:
  assumes "engine_laws L \<alpha> ok" and "core_wf L ok c" and "core_synced L \<alpha> c"
    and "core_search L q p c = (res, c')"
  shows "core_synced L \<alpha> c'" and "co_store c' = co_store c" and "co_ivf_dirty c' = co_ivf_dirty c"
proof -
  from assms(2) have cl: "cl_ok ok (co_index c)" by (simp add: core_wf_def)
  note sp = core_search_spec [OF engine_lawsD(5) [OF assms(1)] cl assms(4)]
  show same: "co_store c' = co_store c" "co_ivf_dirty c' = co_ivf_dirty c"
    using assms(4) by (auto simp: core_search_def apsnd_eq)
  show "core_synced L \<alpha> c'"
    using sp same assms(3) index_laws_read(1) [OF engine_lawsD(1) [OF assms(1)], of q p "core_index L c"]
    by (simp add: core_synced_def)
qed

lemma core_flush_synced:
  assumes "engine_laws L \<alpha> ok" and "core_wf L ok c" and "core_synced L \<alpha> c"
    and "core_flush L c = (res, c')"
  shows "core_synced L \<alpha> c'" and "co_store c' = co_store c" and "co_ivf_dirty c' = co_ivf_dirty c"
proof -
  from assms(2) have cl: "cl_ok ok (co_index c)" by (simp add: core_wf_def)
  note sp = core_flush_spec [OF engine_lawsD(5) [OF assms(1)] cl assms(4)]
  show same: "co_store c' = co_store c" "co_ivf_dirty c' = co_ivf_dirty c"
    using assms(4) by (auto simp: core_flush_def apsnd_eq)
  show "core_synced L \<alpha> c'"
    using sp same assms(3) index_laws_read(2) [OF engine_lawsD(1) [OF assms(1)], of "core_index L c"]
    by (simp add: core_synced_def)
qed

text \<open>A rebuild gives a trained index that holds exactly the store's vectors.\<close>

lemma store_items_distinct: "store_inv st \<Longrightarrow> distinct (map fst (store_items st))"
  using store_inv_distinct by (simp add: store_items_def row_entry_def comp_def)

lemma store_items_contents: "map_of (store_items st) = store_contents st"
  by (simp add: store_items_def store_contents_def rows_contents_def)

lemma core_ensure_ready_spec:
  assumes laws: "engine_laws L \<alpha> ok" and wf: "core_wf L ok c" and sy: "core_synced L \<alpha> c"
    and run: "core_ensure_ready L c = (res, c')"
  shows "core_synced L \<alpha> c'" and "co_store c' = co_store c"
    and "is_ok res \<Longrightarrow> \<not> store_is_empty (co_store c) \<Longrightarrow>
      \<not> co_ivf_dirty c' \<and> \<not> core_untrained L c' \<and> \<alpha> (core_index L c') = core_contents c'"
proof -
  have inv: "store_inv (co_store c)" using wf by (simp add: core_wf_def)
  show same: "co_store c' = co_store c"
    using run by (cases rule: core_ensure_ready_cases) simp_all
  have rebuilt: "\<not> co_ivf_dirty c' \<and> \<not> core_untrained L c' \<and> \<alpha> (core_index L c') = core_contents c'"
    if "c' = c\<lparr>co_index := cl_wrap (lib_cache L) idx2 cfg, co_ivf_dirty := False\<rparr>"
      and "\<not> any_needs_training (lib_index L) idx2"
      and "\<alpha> idx2 = map_of (store_items (co_store c))" for idx2 cfg
    using that cl_wrap_inner [OF engine_lawsD(5) [OF laws]]
    by (simp add: core_untrained_eq store_items_contents)
  show "core_synced L \<alpha> c'"
    using run
  proof (cases rule: core_ensure_ready_cases)
    case (built idx idx1 n idx2)
    with rebuilt_index [OF laws built(1-3)] store_items_distinct [OF inv] rebuilt [OF built(5)]
    show ?thesis by (simp add: core_synced_def)
  qed (use sy in simp_all)
  assume "is_ok res" and nonempty: "\<not> store_is_empty (co_store c)"
  with run show "\<not> co_ivf_dirty c' \<and> \<not> core_untrained L c' \<and> \<alpha> (core_index L c') = core_contents c'"
  proof (cases rule: core_ensure_ready_cases)
    case idle
    with nonempty sy wf show ?thesis by (auto simp: core_synced_def core_wf_def)
  next
    case (built idx idx1 n idx2)
    with rebuilt_index [OF laws built(1-3)] store_items_distinct [OF inv] rebuilt [OF built(5)]
    show ?thesis by simp
  qed simp_all
qed

lemma core_optimize_spec:
  assumes laws: "engine_laws L \<alpha> ok" and wf: "core_wf L ok c" and sy: "core_synced L \<alpha> c"
    and run: "core_optimize L c = (res, c')"
  shows "core_synced L \<alpha> c'" and "co_store c' = co_store c"
    and "is_ok res \<Longrightarrow> \<not> store_is_empty (co_store c) \<Longrightarrow>
      \<not> co_ivf_dirty c' \<and> \<not> core_untrained L c' \<and> \<alpha> (core_index L c') = core_contents c'"
proof -
  let ?c = "case co_kind c of Ivf _ \<Rightarrow> c\<lparr>co_ivf_dirty := True\<rparr> | Flat \<Rightarrow> c | Hnsw _ \<Rightarrow> c"
  have "core_wf L ok ?c"
    using wf core_wf_dirty [OF wf] by (auto simp: is_ivf_def split: index_kind.splits)
  moreover have "core_synced L \<alpha> ?c"
    using sy by (auto simp: core_synced_def split: index_kind.splits)
  moreover have "co_store ?c = co_store c" by (auto split: index_kind.splits)
  moreover have "core_ensure_ready L ?c = (res, c')" using run by (simp add: core_optimize_def)
  ultimately show "core_synced L \<alpha> c'" and "co_store c' = co_store c"
    and "is_ok res \<Longrightarrow> \<not> store_is_empty (co_store c) \<Longrightarrow>
      \<not> co_ivf_dirty c' \<and> \<not> core_untrained L c' \<and> \<alpha> (core_index L c') = core_contents c'"
    using core_ensure_ready_spec [OF laws, of ?c res c'] by simp_all
qed

lemma core_set_cache_synced:
  assumes "engine_laws L \<alpha> ok" and "core_wf L ok c" and "core_synced L \<alpha> c"
    and "core_set_cache L cache c = (res, c')"
  shows "core_synced L \<alpha> c'" and "co_store c' = co_store c" and "co_ivf_dirty c' = co_ivf_dirty c"
  using core_set_cache_spec [OF engine_lawsD(5) [OF assms(1)] _ assms(4)] assms(2,3)
  by (simp_all add: core_wf_def core_synced_def)

section \<open>Loading\<close>

lemma upsert_rows_spec:
  assumes "store_inv s"
  shows "\<exists>s'. upsert_rows rows s = Some s' \<and> store_inv s'
    \<and> store_contents s' = store_contents s ++ map_of (rev (map row_entry rows))"
  using assms
proof (induction rows arbitrary: s)
  case (Cons r rs)
  from store_upsert_spec [OF Cons.prems, of "row_id r" "row_vector r" "row_meta r"] obtain s1 where
    s1: "store_upsert s (row_id r) (row_vector r) (row_meta r) =
        Some (store_contents s (row_id r) = None, s1)" "store_inv s1"
      "store_contents s1 = (store_contents s)(row_id r \<mapsto> (row_vector r, row_meta r))" by blast
  from Cons.IH [OF s1(2)] obtain s' where
    s': "upsert_rows rs s1 = Some s'" "store_inv s'"
      "store_contents s' = store_contents s1 ++ map_of (rev (map row_entry rs))" by blast
  have "store_contents s' = store_contents s ++ map_of (rev (map row_entry (r # rs)))"
    unfolding s'(3) s1(3) by (rule ext) (simp add: row_entry_def map_add_def split: option.split)
  with s' s1(1) show ?case by simp
qed simp

text \<open>Rows with distinct identifiers are stored as they are, in their order.\<close>

lemma upsert_rows_append:
  assumes "store_inv s" and "distinct (map row_id (st_rows s @ rows))"
  shows "\<exists>s'. upsert_rows rows s = Some s' \<and> store_inv s' \<and> st_rows s' = st_rows s @ rows"
  using assms
proof (induction rows arbitrary: s)
  case (Cons r rs)
  have "row_id r \<notin> row_id ` set (st_rows s)" using Cons.prems(2) by auto
  then have "st_index s (row_id r) = None"
    using store_inv_dom [OF Cons.prems(1)] by blast
  from store_upsert_new [OF Cons.prems(1) this, of "row_vector r" "row_meta r"] obtain s1
    where s1: "store_upsert s (row_id r) (row_vector r) (row_meta r) = Some (True, s1)"
      "store_inv s1" "st_rows s1 = st_rows s @ [Row (row_id r) (row_vector r) (row_meta r)]" by auto
  have "Row (row_id r) (row_vector r) (row_meta r) = r" by simp
  with s1 have "st_rows s1 = st_rows s @ [r]" by simp
  with Cons.prems(2) Cons.IH [OF s1(2)] s1(1) show ?case by auto
qed simp

text \<open>
  What \<open>load_from\<close> builds from a decoded payload: a store with the payload's rows (the last
  of several with one identifier), no cache, and either a bulk-loaded index or the mark that
  the first search has to train one.
\<close>

lemma core_load_cases:
  assumes "core_load L t bs = Some (Inr c)"
  obtains d rest store idx idx' where "decode (lib_meta L) t bs = Inr (d, rest)"
    "upsert_rows (de_rows d) (store_with_capacity (length (de_rows d))) = Some store"
    "any_new (lib_index L) (de_kind d) (de_dim d) (de_metric d) = Inr idx"
    "if any_needs_training (lib_index L) idx then idx' = idx
     else \<exists>n. build_into (lib_index L) (store_items store) idx = (Inr n, idx')"
    "c = \<lparr>co_dim = de_dim d, co_metric = de_metric d, co_kind = de_kind d, co_store = store,
      co_index = cl_wrap (lib_cache L) idx' None, co_cache_cfg = None,
      co_ivf_dirty = any_needs_training (lib_index L) idx\<rparr>"
proof -
  from assms obtain d rest where dec: "decode (lib_meta L) t bs = Inr (d, rest)"
    by (auto simp: core_load_def split: sum.splits)
  from assms obtain store where
    up: "upsert_rows (de_rows d) (store_with_capacity (length (de_rows d))) = Some store"
    by (auto simp: core_load_def dec split: option.splits)
  from assms obtain idx where
    new: "any_new (lib_index L) (de_kind d) (de_dim d) (de_metric d) = Inr idx"
    unfolding core_load_def dec sum.case prod.case up option.case by (auto simp: ok_iff)
  note run = assms [unfolded core_load_def dec sum.case prod.case up option.case new]
  show thesis
  proof (cases "any_needs_training (lib_index L) idx")
    case True
    with run that [OF dec up new, of idx] show thesis by (simp add: ok_iff)
  next
    case False
    obtain r idx' where bld: "build_into (lib_index L) (store_items store) idx = (r, idx')"
      by fastforce
    from False run bld that [OF dec up new, of idx'] show thesis by (cases r) (auto simp: ok_iff)
  qed
qed

lemma core_load_wf:
  assumes laws: "engine_laws L \<alpha> ok" and run: "core_load L t bs = Some (Inr c)"
  shows "core_wf L ok c" and "core_synced L \<alpha> c"
  using run
proof (atomize (full), cases rule: core_load_cases)
  case (1 d rest store idx idx')
  note lw = engine_lawsD [OF laws]
  note inner = cl_wrap_inner [OF lw(5)]
  have inv: "store_inv store"
    using upsert_rows_spec [OF store_inv_new(2), of "de_rows d"] 1(2) by auto
  note mt = any_new_matches [OF 1(3)]
  show "core_wf L ok c \<and> core_synced L \<alpha> c"
  proof (cases "any_needs_training (lib_index L) idx")
    case True
    with 1 inner mt inv needs_training_ivf [OF mt] show ?thesis
      by (simp add: core_wf_def core_synced_def core_untrained_eq)
  next
    case False
    with 1(4) obtain n where "build_into (lib_index L) (store_items store) idx = (Inr n, idx')"
      by auto
    from rebuilt_index [OF laws 1(3) _ this, of "[]"] False inner inv 1(5) store_items_distinct [OF inv]
    show ?thesis
      by (simp add: core_wf_def core_synced_def core_untrained_eq store_items_contents)
  qed
qed

end
