(* ===== verification/Iqdb_Core_Machine.thy ===== *)
theory Iqdb_Core_Machine
  imports Iqdb_Core_Inv
begin

text \<open>
  The core engine as a state machine: the operations a handle can call, the step relation
  they give, the states reachable from a new or a loaded core, and whole runs. The two
  general facts about runs are here: the core implements the map interface, and a cache
  cannot be observed.
\<close>

section \<open>Operations and runs\<close>

datatype ('m, 'p, 'cc) core_op =
    CInsert vector_id vec "'m option"
  | CDelete vector_id
  | CSearch vec 'p
  | CFlush
  | CReady
  | COptimize
  | CSetCache "'cc option"

datatype 'h core_out = Done | Hits "'h list"

definition unit_out :: "(iqdb_error + unit) \<times> 's \<Rightarrow> (iqdb_error + 'h core_out) \<times> 's" where
  "unit_out = apfst (map_sum (\<lambda>e. e) (\<lambda>_. Done))"

fun core_exec ::
    "('fl, 'hn, 'iv, 'cx, 'cc, 'cs, 'm, 'p, 'h, 'z) core_lib \<Rightarrow> ('m, 'p, 'cc) core_op
      \<Rightarrow> ('fl, 'hn, 'iv, 'cx, 'cc, 'm) iqdb_core
      \<Rightarrow> ((iqdb_error + 'h core_out) \<times> ('fl, 'hn, 'iv, 'cx, 'cc, 'm) iqdb_core) option" where
  "core_exec L (CInsert i v m) c = map_option unit_out (core_insert L i v m c)"
| "core_exec L (CDelete i) c = map_option unit_out (core_delete L i c)"
| "core_exec L (CSearch q p) c = Some (apfst (map_sum (\<lambda>e. e) Hits) (core_search L q p c))"
| "core_exec L CFlush c = Some (unit_out (core_flush L c))"
| "core_exec L CReady c = Some (unit_out (core_ensure_ready L c))"
| "core_exec L COptimize c = Some (unit_out (core_optimize L c))"
| "core_exec L (CSetCache cfg) c = Some (unit_out (core_set_cache L cfg c))"

text \<open>A run goes on after an error, as a caller may; only a panic (\<open>None\<close>) ends it.\<close>

primrec core_run ::
    "('fl, 'hn, 'iv, 'cx, 'cc, 'cs, 'm, 'p, 'h, 'z) core_lib \<Rightarrow> ('m, 'p, 'cc) core_op list
      \<Rightarrow> ('fl, 'hn, 'iv, 'cx, 'cc, 'm) iqdb_core
      \<Rightarrow> ((iqdb_error + 'h core_out) list \<times> ('fl, 'hn, 'iv, 'cx, 'cc, 'm) iqdb_core) option" where
  "core_run L [] c = Some ([], c)"
| "core_run L (x # xs) c =
     Option.bind (core_exec L x c) (\<lambda>(r, c'). map_option (apfst ((#) r)) (core_run L xs c'))"

inductive core_step ::
    "('fl, 'hn, 'iv, 'cx, 'cc, 'cs, 'm, 'p, 'h, 'z) core_lib
      \<Rightarrow> ('fl, 'hn, 'iv, 'cx, 'cc, 'm) iqdb_core \<Rightarrow> ('m, 'p, 'cc) core_op
      \<Rightarrow> iqdb_error + 'h core_out \<Rightarrow> ('fl, 'hn, 'iv, 'cx, 'cc, 'm) iqdb_core \<Rightarrow> bool"
  for L where
  insert: "core_insert L i v m c = Some (r, c') \<Longrightarrow>
    core_step L c (CInsert i v m) (map_sum (\<lambda>e. e) (\<lambda>_. Done) r) c'"
| delete: "core_delete L i c = Some (r, c') \<Longrightarrow>
    core_step L c (CDelete i) (map_sum (\<lambda>e. e) (\<lambda>_. Done) r) c'"
| search: "core_search L q p c = (h, c') \<Longrightarrow>
    core_step L c (CSearch q p) (map_sum (\<lambda>e. e) Hits h) c'"
| flush: "core_flush L c = (r, c') \<Longrightarrow>
    core_step L c CFlush (map_sum (\<lambda>e. e) (\<lambda>_. Done) r) c'"
| ready: "core_ensure_ready L c = (r, c') \<Longrightarrow>
    core_step L c CReady (map_sum (\<lambda>e. e) (\<lambda>_. Done) r) c'"
| optimize: "core_optimize L c = (r, c') \<Longrightarrow>
    core_step L c COptimize (map_sum (\<lambda>e. e) (\<lambda>_. Done) r) c'"
| set_cache: "core_set_cache L cfg c = (r, c') \<Longrightarrow>
    core_step L c (CSetCache cfg) (map_sum (\<lambda>e. e) (\<lambda>_. Done) r) c'"

inductive_cases core_stepE: "core_step L c op r c'"

text \<open>The relation is the function's graph.\<close>

lemma core_step_exec: "core_step L c op r c' \<longleftrightarrow> core_exec L op c = Some (r, c')"
proof
  show "core_step L c op r c' \<Longrightarrow> core_exec L op c = Some (r, c')"
    by (induction rule: core_step.induct) (simp_all add: unit_out_def)
  assume "core_exec L op c = Some (r, c')"
  then show "core_step L c op r c'"
    by (cases op) (auto simp: unit_out_def apfst_def map_prod_def split: prod.splits
        intro: core_step.intros)
qed

text \<open>
  The reachable cores, and those reached without a failed write: a write that reports an
  error may leave the index behind the store.
\<close>

fun is_write :: "('m, 'p, 'cc) core_op \<Rightarrow> bool" where
  "is_write (CInsert i v m) = True"
| "is_write (CDelete i) = True"
| "is_write _ = False"

inductive core_reach ::
    "('fl, 'hn, 'iv, 'cx, 'cc, 'cs, 'm, 'p, 'h, 'z) core_lib \<Rightarrow> bool
      \<Rightarrow> ('fl, 'hn, 'iv, 'cx, 'cc, 'm) iqdb_core \<Rightarrow> bool"
  for L where
  new: "core_new L d mt cfg = Inr c \<Longrightarrow> core_reach L True c"
| load: "core_load L t bs = Some (Inr c) \<Longrightarrow> core_reach L True c"
| step: "core_reach L good c \<Longrightarrow> core_step L c op r c'
    \<Longrightarrow> core_reach L (good \<and> (is_ok r \<or> \<not> is_write op)) c'"

section \<open>Invariants of the reachable cores\<close>

lemma is_ok_map_sum [simp]: "is_ok (map_sum f g r) = is_ok r"
  by (cases r) simp_all

lemma core_step_wf:
  assumes "core_step L c op r c'" and "engine_laws L \<alpha> ok" and "core_wf L ok c"
  shows "core_wf L ok c'"
  using assms
  by (cases rule: core_step.cases)
    (blast intro: core_insert_wf core_delete_wf core_search_wf core_flush_wf core_ensure_ready_wf
      core_optimize_wf core_set_cache_wf)+

lemma core_step_synced:
  assumes "core_step L c op r c'" and "engine_laws L \<alpha> ok" and "core_wf L ok c"
    and "core_synced L \<alpha> c" and "is_ok r \<or> \<not> is_write op"
  shows "core_synced L \<alpha> c'"
  using assms(1)
proof (cases rule: core_step.cases)
  case (insert i v m r')
  with assms show ?thesis by (auto intro: core_insert_synced)
next
  case (delete i r')
  with assms show ?thesis by (auto intro: core_delete_synced)
qed (use assms(2-4) in \<open>blast intro: core_search_synced core_flush_synced core_ensure_ready_spec
    core_optimize_spec core_set_cache_synced\<close>)+

lemma core_reach_inv:
  assumes "core_reach L good c" and "engine_laws L \<alpha> ok"
  shows "core_wf L ok c \<and> (good \<longrightarrow> core_synced L \<alpha> c)"
  using assms
proof (induction rule: core_reach.induct)
  case (new d mt cfg c)
  then show ?case by (simp add: core_new_wf)
next
  case (load t bs c)
  then show ?case using core_load_wf by blast
next
  case (step good c op r c')
  then show ?case using core_step_wf core_step_synced by blast
qed

text \<open>No operation panics on a core whose store is consistent.\<close>

lemma core_exec_total:
  assumes "store_inv (co_store c)"
  shows "\<exists>r c'. core_exec L op c = Some (r, c')"
proof -
  have "core_insert L i v m c \<noteq> None" "core_delete L i c \<noteq> None" for i v m
    using core_insert_store [OF assms] core_delete_store [OF assms] by fastforce+
  then have "core_exec L op c \<noteq> None" by (cases op) simp_all
  then show ?thesis by auto
qed

end
