(* ===== verification/Iqdb_Core_Sim.thy ===== *)
theory Iqdb_Core_Sim
  imports Iqdb_Core_Machine
begin

text \<open>
  Two simulations of the core engine: it implements the abstract map of
  \<open>Iqdb_Map_Spec\<close>, whatever the index answers; and a core with a cache behaves as one
  without.
\<close>

section \<open>The core implements the map interface\<close>

text \<open>The interface's operations: what a write does to the core, without the index's answer.\<close>

definition core_put ::
    "('fl, 'hn, 'iv, 'cx, 'cc, 'cs, 'm, 'p, 'h, 'z) core_lib \<Rightarrow> vector_id \<Rightarrow> vec \<times> 'm option
      \<Rightarrow> ('fl, 'hn, 'iv, 'cx, 'cc, 'm) iqdb_core \<Rightarrow> ('fl, 'hn, 'iv, 'cx, 'cc, 'm) iqdb_core option" where
  "core_put L i vm c = map_option snd (core_insert L i (fst vm) (snd vm) c)"

definition core_del ::
    "('fl, 'hn, 'iv, 'cx, 'cc, 'cs, 'm, 'p, 'h, 'z) core_lib \<Rightarrow> vector_id
      \<Rightarrow> ('fl, 'hn, 'iv, 'cx, 'cc, 'm) iqdb_core \<Rightarrow> ('fl, 'hn, 'iv, 'cx, 'cc, 'm) iqdb_core option" where
  "core_del L i c = map_option snd (core_delete L i c)"

abbreviation core_store_ok :: "('fl, 'hn, 'iv, 'cx, 'cc, 'm) iqdb_core \<Rightarrow> bool" where
  "core_store_ok c \<equiv> store_inv (co_store c)"

interpretation co: keyed_store core_store_ok "\<lambda>_ _. True" core_contents "core_put L" "core_del L"
    core_len
  for L :: "('fl, 'hn, 'iv, 'cx, 'cc, 'cs, 'm, 'p, 'h, 'z) core_lib"
proof
  fix c :: "('fl, 'hn, 'iv, 'cx, 'cc, 'm) iqdb_core" and i and vm :: "vec \<times> 'm option"
  assume inv: "core_store_ok c"
  show "\<exists>c'. core_put L i vm c = Some c' \<and> core_store_ok c'
      \<and> core_contents c' = (core_contents c)(i \<mapsto> vm) \<and> (\<lambda>_. True) = (\<lambda>_. True)"
    using core_insert_store [OF inv, of L i "fst vm" "snd vm"] by (auto simp: core_put_def)
  show "\<exists>c'. core_del L i c = Some c' \<and> core_store_ok c'
      \<and> core_contents c' = (core_contents c)(i := None) \<and> (\<lambda>_. True) = (\<lambda>_. True)"
    using core_delete_store [OF inv, of L i] by (auto simp: core_del_def)
  show "core_len c = card (dom (core_contents c))"
    by (simp add: core_len_def store_len_card [OF inv])
qed

section \<open>A cache cannot be observed\<close>

lemma core_simD:
  "core_sim L ok a b \<Longrightarrow> co_store b = co_store a"
  "core_sim L ok a b \<Longrightarrow> co_ivf_dirty b = co_ivf_dirty a"
  "core_sim L ok a b \<Longrightarrow> co_kind b = co_kind a"
  "core_sim L ok a b \<Longrightarrow> co_dim b = co_dim a"
  "core_sim L ok a b \<Longrightarrow> co_metric b = co_metric a"
  "core_sim L ok a b \<Longrightarrow> core_index L b = core_index L a"
  by (simp_all add: core_sim_def)

lemma core_sim_store:
  "core_sim L ok a b \<Longrightarrow> core_sim L ok (a\<lparr>co_store := st\<rparr>) (b\<lparr>co_store := st\<rparr>)"
  "core_sim L ok a b \<Longrightarrow> core_sim L ok (a\<lparr>co_ivf_dirty := f\<rparr>) (b\<lparr>co_ivf_dirty := f\<rparr>)"
  by (simp_all add: core_sim_def)

lemma core_sim_index:
  assumes "core_sim L ok a b" and "a' = a\<lparr>co_index := x\<rparr>" and "b' = b\<lparr>co_index := y\<rparr>"
    and "cl_inner (lib_cache L) x = cl_inner (lib_cache L) y" and "cl_ok ok x" and "cl_ok ok y"
  shows "core_sim L ok a' b'"
  using assms by (simp add: core_sim_def)

lemma index_insert_sim:
  assumes laws: "cache_laws (any_core (lib_index L)) (lib_cache L) ok" and sim: "core_sim L ok a b"
    and run: "core_index_insert L i v m a = (r, a')"
  shows "\<exists>b'. core_index_insert L i v m b = (r, b') \<and> core_sim L ok a' b'"
proof -
  have cl: "cl_ok ok (co_index a)" "cl_ok ok (co_index b)" using sim by (simp_all add: core_sim_def)
  obtain s b' where b': "core_index_insert L i v m b = (s, b')" by fastforce
  note A = index_insert_spec [OF laws cl(1) run] and B = index_insert_spec [OF laws cl(2) b']
  from A B core_simD(6) [OF sim] have "s = r" "core_index L b' = core_index L a'" by auto
  with A B b' sim core_sim_index [OF sim, of a' "co_index a'" b' "co_index b'"] show ?thesis by auto
qed

lemma index_delete_sim:
  assumes laws: "cache_laws (any_core (lib_index L)) (lib_cache L) ok" and sim: "core_sim L ok a b"
    and run: "core_index_delete L i a = (r, a')"
  shows "\<exists>b'. core_index_delete L i b = (r, b') \<and> core_sim L ok a' b'"
proof -
  have cl: "cl_ok ok (co_index a)" "cl_ok ok (co_index b)" using sim by (simp_all add: core_sim_def)
  obtain s b' where b': "core_index_delete L i b = (s, b')" by fastforce
  from index_delete_spec [OF laws cl(1) run] obtain x where
    A: "any_delete (lib_index L) i (core_index L a) = (x, core_index L a')"
      "r = (if x = Inl NotFound then Inr () else x)"
      "cl_ok ok (co_index a')" "a' = a\<lparr>co_index := co_index a'\<rparr>" by blast
  from index_delete_spec [OF laws cl(2) b'] obtain y where
    B: "any_delete (lib_index L) i (core_index L b) = (y, core_index L b')"
      "s = (if y = Inl NotFound then Inr () else y)"
      "cl_ok ok (co_index b')" "b' = b\<lparr>co_index := co_index b'\<rparr>" by blast
  from A(1,2) B(1,2) core_simD(6) [OF sim] have "s = r" "core_index L b' = core_index L a'" by auto
  with A(3,4) B(3,4) b' core_sim_index [OF sim, of a' "co_index a'" b' "co_index b'"]
  show ?thesis by auto
qed

lemma core_search_sim:
  assumes laws: "cache_laws (any_core (lib_index L)) (lib_cache L) ok" and sim: "core_sim L ok a b"
    and run: "core_search L q p a = (r, a')"
  shows "\<exists>b'. core_search L q p b = (r, b') \<and> core_sim L ok a' b'"
proof -
  have cl: "cl_ok ok (co_index a)" "cl_ok ok (co_index b)" using sim by (simp_all add: core_sim_def)
  obtain s b' where b': "core_search L q p b = (s, b')" by fastforce
  note A = core_search_spec [OF laws cl(1) run] and B = core_search_spec [OF laws cl(2) b']
  from A B core_simD(6) [OF sim] have "s = r" "core_index L b' = core_index L a'" by auto
  with A B b' sim core_sim_index [OF sim, of a' "co_index a'" b' "co_index b'"] show ?thesis by auto
qed

lemma core_flush_sim:
  assumes laws: "cache_laws (any_core (lib_index L)) (lib_cache L) ok" and sim: "core_sim L ok a b"
    and run: "core_flush L a = (r, a')"
  shows "\<exists>b'. core_flush L b = (r, b') \<and> core_sim L ok a' b'"
proof -
  have cl: "cl_ok ok (co_index a)" "cl_ok ok (co_index b)" using sim by (simp_all add: core_sim_def)
  obtain s b' where b': "core_flush L b = (s, b')" by fastforce
  note A = core_flush_spec [OF laws cl(1) run] and B = core_flush_spec [OF laws cl(2) b']
  from A B core_simD(6) [OF sim] have "s = r" "core_index L b' = core_index L a'" by auto
  with A B b' sim core_sim_index [OF sim, of a' "co_index a'" b' "co_index b'"] show ?thesis by auto
qed

lemma core_ensure_ready_sim:
  assumes laws: "cache_laws (any_core (lib_index L)) (lib_cache L) ok" and sim: "core_sim L ok a b"
    and run: "core_ensure_ready L a = (r, a')"
  shows "\<exists>b'. core_ensure_ready L b = (r, b') \<and> core_sim L ok a' b'"
proof -
  note same = core_simD [OF sim]
  have wrap: "core_sim L ok (a\<lparr>co_index := cl_wrap (lib_cache L) x (co_cache_cfg a), co_ivf_dirty := False\<rparr>)
      (b\<lparr>co_index := cl_wrap (lib_cache L) x (co_cache_cfg b), co_ivf_dirty := False\<rparr>)" for x
    using sim cl_wrap_inner [OF laws] by (simp add: core_sim_def)
  show ?thesis
    using run sim wrap unfolding core_ensure_ready_def same
    by (auto split: if_splits sum.splits prod.splits)
qed

lemma core_optimize_sim:
  assumes laws: "cache_laws (any_core (lib_index L)) (lib_cache L) ok" and sim: "core_sim L ok a b"
    and run: "core_optimize L a = (r, a')"
  shows "\<exists>b'. core_optimize L b = (r, b') \<and> core_sim L ok a' b'"
proof -
  have "core_sim L ok
      (case co_kind a of Ivf _ \<Rightarrow> a\<lparr>co_ivf_dirty := True\<rparr> | Flat \<Rightarrow> a | Hnsw _ \<Rightarrow> a)
      (case co_kind b of Ivf _ \<Rightarrow> b\<lparr>co_ivf_dirty := True\<rparr> | Flat \<Rightarrow> b | Hnsw _ \<Rightarrow> b)"
    using sim core_sim_store(2) [OF sim] by (auto simp: core_simD(3) [OF sim] split: index_kind.split)
  from core_ensure_ready_sim [OF laws this] run show ?thesis by (simp add: core_optimize_def)
qed

lemma core_set_cache_sim:
  assumes laws: "cache_laws (any_core (lib_index L)) (lib_cache L) ok" and sim: "core_sim L ok a b"
    and run: "core_set_cache L cfg a = (r, a')"
  shows "\<exists>b'. core_set_cache L cfg b = (r, b') \<and> core_sim L ok a' b'"
  using run sim cl_wrap_inner [OF laws] cl_into_inner_eq [OF laws]
  by (auto simp: core_set_cache_def core_sim_def split: sum.splits)

lemma core_insert_sim:
  assumes laws: "cache_laws (any_core (lib_index L)) (lib_cache L) ok" and sim: "core_sim L ok a b"
    and run: "core_insert L i v m a = Some (r, a')"
  shows "\<exists>b'. core_insert L i v m b = Some (r, b') \<and> core_sim L ok a' b'"
proof -
  note same = core_simD [OF sim]
  have un: "core_untrained L (b\<lparr>co_store := st\<rparr>) = core_untrained L (a\<lparr>co_store := st\<rparr>)" for st
    by (simp add: core_untrained_eq same)
  note st = core_sim_store(1) [OF sim]
  from run show ?thesis
  proof (cases rule: core_insert_cases)
    case (deferred newly s)
    with st [of s] show ?thesis
      using core_sim_store(2) [OF st [of s], of True]
      by (auto simp: core_insert_def same un core_untrained_eq)
  next
    case (fresh s)
    from index_insert_sim [OF laws st fresh(3)] fresh show ?thesis
      by (auto simp: core_insert_def same core_untrained_eq)
  next
    case (stuck s e)
    from index_delete_sim [OF laws st stuck(3)] stuck show ?thesis
      by (auto simp: core_insert_def same core_untrained_eq)
  next
    case (replaced s a1)
    from index_delete_sim [OF laws st replaced(3)] obtain b1 where
      b1: "core_index_delete L i (b\<lparr>co_store := s\<rparr>) = (Inr (), b1)" "core_sim L ok a1 b1" by blast
    from index_insert_sim [OF laws b1(2) replaced(4)] b1(1) replaced show ?thesis
      by (auto simp: core_insert_def same core_untrained_eq)
  qed
qed

lemma core_delete_sim:
  assumes laws: "cache_laws (any_core (lib_index L)) (lib_cache L) ok" and sim: "core_sim L ok a b"
    and run: "core_delete L i a = Some (r, a')"
  shows "\<exists>b'. core_delete L i b = Some (r, b') \<and> core_sim L ok a' b'"
proof -
  note same = core_simD [OF sim]
  note st = core_sim_store(1) [OF sim]
  from run show ?thesis
  proof (cases rule: core_delete_cases)
    case (deferred existed s)
    with core_sim_store(2) [OF st [of s], of True] show ?thesis
      by (auto simp: core_delete_def same core_untrained_eq)
  next
    case (direct existed s)
    from index_delete_sim [OF laws st direct(3)] direct show ?thesis
      by (auto simp: core_delete_def same core_untrained_eq)
  qed
qed

lemmas core_op_sims = core_insert_sim core_delete_sim core_search_sim core_flush_sim
  core_ensure_ready_sim core_optimize_sim core_set_cache_sim

lemma core_step_sim:
  assumes laws: "cache_laws (any_core (lib_index L)) (lib_cache L) ok" and sim: "core_sim L ok a b"
    and run: "core_exec L op a = Some (r, a')"
  shows "\<exists>b'. core_exec L op b = Some (r, b') \<and> core_sim L ok a' b'"
  using run unfolding core_step_exec [symmetric]
  by (cases rule: core_step.cases) (metis core_step.intros core_op_sims [OF laws sim])+

lemma core_run_sim:
  assumes laws: "cache_laws (any_core (lib_index L)) (lib_cache L) ok" and sim: "core_sim L ok a b"
    and run: "core_run L ops a = Some (rs, a')"
  shows "\<exists>b'. core_run L ops b = Some (rs, b') \<and> core_sim L ok a' b'"
  using sim run
proof (induction ops arbitrary: a b rs)
  case (Cons op ops)
  from Cons.prems(2) obtain r a1 rs' where
    a1: "core_exec L op a = Some (r, a1)" "core_run L ops a1 = Some (rs', a')" "rs = r # rs'"
    by (auto split: Option.bind_splits)
  from core_step_sim [OF laws Cons.prems(1) a1(1)] obtain b1 where
    b1: "core_exec L op b = Some (r, b1)" "core_sim L ok a1 b1" by blast
  from Cons.IH [OF b1(2) a1(2)] b1(1) a1(3) show ?case by auto
qed simp

lemma core_get_row_contents:
  "core_store_ok c \<Longrightarrow> core_get_row c i = Some (core_contents c i)"
  by (auto simp: core_get_row_def store_get_spec map_option.compositionality comp_def
      intro: option.map_ident_strong)

end
