(* ===== verification/Iqdb_Lib_Instance.thy ===== *)
theory Iqdb_Lib_Instance
  imports Iqdb_Core_Laws Iqdb_Meta_Instance
begin

text \<open>
  The parameters of the engine instantiated: an index that keeps its vectors in a list, in a
  flat, a graph and a trained variant, a bulk builder that inserts one by one, and a cache
  that remembers the last search. It satisfies \<open>engine_laws\<close>, so the properties that assume
  those laws are about something; their witnesses use it.
\<close>

section \<open>A list index\<close>

record 'm list_index =
  li_dim :: usize
  li_entries :: "(vector_id \<times> vec \<times> 'm option) list"
  li_trained :: bool

definition li_contents :: "'m list_index \<Rightarrow> 'm index_contents" where
  "li_contents x = map_of (li_entries x)"

definition li_insert ::
    "vector_id \<Rightarrow> vec \<Rightarrow> 'm option \<Rightarrow> 'm list_index \<Rightarrow> (iqdb_error + unit) \<times> 'm list_index" where
  "li_insert i v m x =
     (if length v \<noteq> li_dim x then (Inl (DimensionMismatch (li_dim x) (length v)), x)
      else if i \<in> fst ` set (li_entries x) then (Inl (OtherIqdbError 0), x)
      else (Inr (), x\<lparr>li_entries := (i, v, m) # li_entries x\<rparr>))"

definition li_delete :: "vector_id \<Rightarrow> 'm list_index \<Rightarrow> (iqdb_error + unit) \<times> 'm list_index" where
  "li_delete i x =
     (if i \<in> fst ` set (li_entries x)
      then (Inr (), x\<lparr>li_entries := filter (\<lambda>e. fst e \<noteq> i) (li_entries x)\<rparr>)
      else (Inl NotFound, x))"

definition li_search :: "vec \<Rightarrow> nat \<Rightarrow> 'm list_index \<Rightarrow> (iqdb_error + vector_id list) \<times> 'm list_index" where
  "li_search q k x =
     (if length q \<noteq> li_dim x then Inl (DimensionMismatch (li_dim x) (length q))
      else if li_trained x then Inr (take k (map fst (li_entries x)))
      else Inl (OtherIqdbError 1), x)"

definition li_new :: "bool \<Rightarrow> usize \<Rightarrow> iqdb_error + 'm list_index" where
  "li_new trained d =
     (if d = 0 then Inl (OtherIqdbError 2)
      else Inr \<lparr>li_dim = d, li_entries = [], li_trained = trained\<rparr>)"

definition li_train :: "vec list \<Rightarrow> 'm list_index \<Rightarrow> (iqdb_error + unit) \<times> 'm list_index" where
  "li_train sample x =
     (if sample = [] then (Inl (OtherIqdbError 3), x) else (Inr (), x\<lparr>li_trained := True\<rparr>))"

definition li_core :: "('m list_index, 'm, nat, vector_id, unit) index_core" where
  "li_core =
     \<lparr>ix_insert = li_insert, ix_delete = li_delete, ix_search = li_search,
      ix_len = (\<lambda>x. length (li_entries x)), ix_dim = li_dim, ix_metric = (\<lambda>_. Euclidean),
      ix_flush = (\<lambda>x. (Inr (), x)), ix_stats = (\<lambda>x. \<lparr>n_vectors = length (li_entries x)\<rparr>)\<rparr>"

type_synonym 'm list_any = "('m list_index, 'm list_index, 'm list_index) any_index"

fun la_insert ::
    "vector_id \<Rightarrow> vec \<Rightarrow> 'm option \<Rightarrow> 'm list_any \<Rightarrow> (iqdb_error + unit) \<times> 'm list_any" where
  "la_insert i v m (AnyFlat x) = apsnd AnyFlat (li_insert i v m x)"
| "la_insert i v m (AnyHnsw x) = apsnd AnyHnsw (li_insert i v m x)"
| "la_insert i v m (AnyIvf x) = apsnd AnyIvf (li_insert i v m x)"

fun la_build ::
    "(vector_id \<times> vec \<times> 'm option) list \<Rightarrow> 'm list_any \<Rightarrow> (iqdb_error + usize) \<times> 'm list_any" where
  "la_build [] x = (Inr 0, x)"
| "la_build ((i, v, m) # es) x =
     (case la_insert i v m x of
        (Inl e, x') \<Rightarrow> (Inl e, x')
      | (Inr _, x') \<Rightarrow> apfst (map_sum id Suc) (la_build es x'))"

definition list_lib :: "('m list_index, 'm list_index, 'm list_index, 'm, nat, vector_id, unit) index_lib" where
  "list_lib =
     \<lparr>flat_new = (\<lambda>d mt. li_new True d), flat_core = li_core,
      hnsw_new = (\<lambda>d mt cfg. li_new True d), hnsw_core = li_core,
      ivf_new = (\<lambda>d mt cfg. li_new False d), ivf_core = li_core,
      ivf_is_trained = li_trained, ivf_train = li_train, build_into = la_build\<rparr>"

abbreviation la_contents :: "'m list_any \<Rightarrow> 'm index_contents" where
  "la_contents \<equiv> any_contents li_contents li_contents li_contents"

lemma map_of_filter_key: "map_of (filter (\<lambda>e. fst e \<noteq> i) es) = (map_of es)(i := None)"
  by (induction es) auto

lemma li_laws: "index_laws li_core li_contents"
proof -
  have "insert_law li_core li_contents"
    by (auto simp: insert_law_def li_core_def li_contents_def li_insert_def map_of_eq_None_iff
        split: if_splits)
  moreover have "delete_law li_core li_contents"
    by (auto simp: delete_law_def li_core_def li_contents_def li_delete_def map_of_filter_key
        dom_map_of_conv_image_fst map_of_eq_None_iff split: if_splits)
  moreover have "read_law li_core li_contents"
    by (simp add: read_law_def li_core_def li_search_def)
  ultimately show ?thesis by (simp add: index_laws_def)
qed

lemma list_any_laws: "index_laws (any_core list_lib) la_contents"
  by (rule any_index_laws) (simp_all add: list_lib_def li_laws)

lemma list_ivf_laws: "ivf_laws list_lib"
  by (auto simp: ivf_laws_def list_lib_def li_core_def li_new_def li_train_def li_insert_def
      li_delete_def li_search_def split: if_splits)

lemma list_new_laws: "new_laws list_lib la_contents"
proof -
  have "la_contents idx = Map.empty" if "any_new list_lib k d mt = Inr idx" for k d mt idx
    using that by (cases k) (auto simp: any_new_def list_lib_def li_new_def li_contents_def ok_iff
        split: if_splits)
  moreover have "la_contents idx' = la_contents idx"
    if "any_train list_lib sample idx = (Inr (), idx')" for sample idx idx'
    using that by (cases idx) (auto simp: apsnd_eq list_lib_def li_train_def li_contents_def
        split: if_splits)
  ultimately show ?thesis by (auto simp: new_laws_def)
qed

lemma la_insert_ok:
  assumes "la_insert i v m x = (Inr (), x')"
  shows "kind_matches k x' = kind_matches k x"
    and "any_needs_training list_lib x' = any_needs_training list_lib x"
    and "la_contents x' = (la_contents x)(i \<mapsto> (v, m))"
  using assms
  by (cases x; cases k; force simp: apsnd_eq li_insert_def li_contents_def list_lib_def
      split: if_splits)+

lemma la_build_ok:
  assumes "la_build es x = (Inr n, x')"
  shows "kind_matches k x' = kind_matches k x
    \<and> any_needs_training list_lib x' = any_needs_training list_lib x
    \<and> (distinct (map fst es) \<longrightarrow> la_contents x' = la_contents x ++ map_of es)"
  using assms
proof (induction es arbitrary: x n)
  case (Cons e es)
  obtain i v m where e: "e = (i, v, m)" by (cases e) auto
  with Cons.prems obtain x1 n1 where
    x1: "la_insert i v m x = (Inr (), x1)" and rest: "la_build es x1 = (Inr n1, x')"
    by (auto simp: apfst_def map_prod_def map_sum_def split: prod.splits sum.splits)
  have swap: "(f :: 'a index_contents)(i \<mapsto> (v, m)) ++ map_of es = f ++ map_of ((i, v, m) # es)"
    if "i \<notin> fst ` set es" for f
  proof -
    have "map_of es i = None" using that by (simp add: map_of_eq_None_iff)
    then show ?thesis by (intro ext) (auto simp: map_add_def split: option.split)
  qed
  note one = la_insert_ok [OF x1] and more = Cons.IH [OF rest]
  have "la_contents x' = la_contents x ++ map_of (e # es)" if "distinct (map fst (e # es))"
    using more one(3) swap that by (metis distinct.simps(2) e fst_conv image_set list.simps(9))
  with one(1,2) more show ?case by metis
qed simp

lemma list_build_laws: "build_laws list_lib la_contents"
  unfolding build_laws_def
proof (intro allI impI)
  fix items idx n idx'
  assume "build_into list_lib items idx = (Inr n, idx')"
  then have "la_build items idx = (Inr n, idx')" by (simp add: list_lib_def)
  from la_build_ok [OF this]
  show "(\<forall>k. kind_matches k idx' = kind_matches k idx)
      \<and> (any_needs_training list_lib idx' \<longrightarrow> any_needs_training list_lib idx)
      \<and> (distinct (map fst items) \<longrightarrow> la_contents idx = Map.empty \<longrightarrow> la_contents idx' = map_of items)"
    by auto
qed

lemma list_library_laws: "library_laws list_lib la_contents"
  by (simp add: library_laws_def list_any_laws list_ivf_laws list_build_laws list_new_laws)

section \<open>A cache of the last search\<close>

record 'm memo =
  me_inner :: "'m list_any"
  me_last :: "((vec \<times> nat) \<times> (iqdb_error + vector_id list)) option"
  me_hits :: nat

definition memo_search :: "vec \<Rightarrow> nat \<Rightarrow> 'm memo \<Rightarrow> (iqdb_error + vector_id list) \<times> 'm memo" where
  "memo_search q k c =
     (case me_last c of
        Some (qk, r) \<Rightarrow>
          if qk = (q, k) then (r, c\<lparr>me_hits := Suc (me_hits c)\<rparr>)
          else (case any_search list_lib q k (me_inner c) of
                  (r', x) \<Rightarrow> (r', c\<lparr>me_inner := x, me_last := Some ((q, k), r')\<rparr>))
      | None \<Rightarrow> (case any_search list_lib q k (me_inner c) of
          (r', x) \<Rightarrow> (r', c\<lparr>me_inner := x, me_last := Some ((q, k), r')\<rparr>)))"

definition memo_write ::
    "('m list_any \<Rightarrow> 'r \<times> 'm list_any) \<Rightarrow> 'm memo \<Rightarrow> 'r \<times> 'm memo" where
  "memo_write f c = (case f (me_inner c) of (r, x) \<Rightarrow> (r, c\<lparr>me_inner := x, me_last := None\<rparr>))"

definition memo_cache ::
    "('m list_any, 'm memo, nat, nat, 'm, nat, vector_id, unit) cache_lib" where
  "memo_cache =
     \<lparr>cx_with_config = (\<lambda>x cfg. \<lparr>me_inner = x, me_last = None, me_hits = 0\<rparr>),
      cx_into_inner = me_inner, cx_get_ref = me_inner, cx_stats = me_hits,
      cx_core =
        \<lparr>ix_insert = (\<lambda>i v m. memo_write (any_insert list_lib i v m)),
         ix_delete = (\<lambda>i. memo_write (any_delete list_lib i)),
         ix_search = memo_search,
         ix_len = (\<lambda>c. any_len list_lib (me_inner c)), ix_dim = (\<lambda>c. any_dim list_lib (me_inner c)),
         ix_metric = (\<lambda>c. any_metric list_lib (me_inner c)),
         ix_flush = memo_write (any_flush list_lib),
         ix_stats = (\<lambda>c. any_stats list_lib (me_inner c))\<rparr>\<rparr>"

definition memo_ok :: "'m memo \<Rightarrow> bool" where
  "memo_ok c = (case me_last c of None \<Rightarrow> True
     | Some ((q, k), r) \<Rightarrow> r = fst (any_search list_lib q k (me_inner c)))"

definition la_hits :: "vec \<Rightarrow> nat \<Rightarrow> 'm list_any \<Rightarrow> iqdb_error + vector_id list" where
  "la_hits q k x = fst (any_search list_lib q k x)"

lemma any_search_list: "any_search list_lib q k x = (la_hits q k x, x)"
  by (cases x) (simp_all add: la_hits_def list_lib_def li_core_def li_search_def)

lemma memo_write_law:
  "cx_get_ref C = me_inner \<Longrightarrow> cache_op_law C memo_ok (memo_write f) f"
  by (auto simp: cache_op_law_def memo_write_def memo_ok_def split: prod.split)

lemma memo_search_law:
  "cx_get_ref C = me_inner \<Longrightarrow> cache_op_law C memo_ok (memo_search q k) (any_search list_lib q k)"
  by (auto simp: cache_op_law_def memo_search_def memo_ok_def any_search_list
      split: option.split prod.split)

lemma memo_laws: "cache_laws (any_core list_lib) memo_cache memo_ok"
  unfolding cache_laws_def
  by (simp add: memo_write_law memo_search_law memo_cache_def)
    (simp add: memo_ok_def)

section \<open>The whole engine\<close>

type_synonym demo_meta = "(rstring, val) fmap"

definition demo_lib ::
    "(demo_meta list_index, demo_meta list_index, demo_meta list_index, demo_meta memo, nat, nat,
      demo_meta, nat, vector_id, unit) core_lib" where
  "demo_lib =
     \<lparr>lib_index = list_lib, lib_cache = memo_cache, lib_meta = btree_meta,
      lib_persist_of = (\<lambda>_. OtherPersistError 0)\<rparr>"

lemma demo_lib_sel [simp]:
  "lib_index demo_lib = list_lib" "lib_cache demo_lib = memo_cache" "lib_meta demo_lib = btree_meta"
  by (simp_all add: demo_lib_def)

lemma demo_engine_laws: "engine_laws demo_lib la_contents memo_ok"
  by (simp add: engine_laws_def list_library_laws memo_laws)

end
