(* ===== verification/Iqdb_Core_Props.thy ===== *)
theory Iqdb_Core_Props
  imports Iqdb_Core_Sim Iqdb_Lib_Instance Iqdb_Codec_Props
begin

text \<open>
  The properties of the row store and of the core engine, each with an application to a
  concrete engine (\<open>demo_lib\<close>).
\<close>

section \<open>Concrete engines\<close>

definition demo_core :: "index_kind \<Rightarrow> bool \<Rightarrow>
    (demo_meta list_index, demo_meta list_index, demo_meta list_index, demo_meta memo, nat, demo_meta) iqdb_core" where
  "demo_core k cached =
     (case core_new demo_lib 2 Euclidean \<lparr>cc_index = k, cc_cache = (if cached then Some 8 else None)\<rparr> of
        Inr c \<Rightarrow> c | Inl e \<Rightarrow> undefined)"

lemma demo_core_new:
  "core_new demo_lib 2 Euclidean \<lparr>cc_index = k, cc_cache = (if cached then Some 8 else None)\<rparr>
     = Inr (demo_core k cached)"
  unfolding demo_core_def
  by (cases k) (simp_all add: core_new_def any_new_def list_lib_def li_new_def)

lemma demo_core_reach: "core_reach demo_lib True (demo_core k cached)"
  by (rule core_reach.new [OF demo_core_new])

section \<open>The row store\<close>

text \<open>
  C13. The row store is the abstract map: from the empty store no sequence of upserts and
  removals panics, and afterwards a lookup returns the last write to the identifier (nothing
  if that was a removal or there was none), while the length counts the live identifiers.
\<close>

theorem store_history:
  "\<exists>s. run_reqs store_put store_del rs store_new = Some s
     \<and> (\<forall>i. store_get s i = Some (map_option (\<lambda>(v, m). Row i v m) (Option.bind (last_req i rs) req_result)))
     \<and> store_len s = card {i. Option.bind (last_req i rs) req_result \<noteq> None}"
proof -
  have "st.admissible store_new rs" by (simp add: st.admissible_def)
  from st.run_ok [OF store_inv_new(1) this] obtain s where
    s: "run_reqs store_put store_del rs store_new = Some s" "store_inv s"
      "store_contents s = reqs_apply rs (store_contents store_new)" by blast
  have at: "store_contents s i = Option.bind (last_req i rs) req_result" for i
    unfolding s(3) reqs_apply_lookup by (simp add: store_contents_new split: option.split)
  then have "dom (store_contents s) = {i. Option.bind (last_req i rs) req_result \<noteq> None}"
    by (auto simp: dom_def)
  with s(1) at store_get_spec [OF s(2)] store_len_card [OF s(2)] show ?thesis by auto
qed

text \<open>
  C39. Removal does not keep insertion order: removing the first of several rows moves the
  last row into its place, so later iterations (rebuilds, training samples, snapshots) see
  the rows in an order that is not the order they were first inserted.
\<close>

theorem store_remove_reorders:
  assumes "store_inv s" and "st_rows s = first # middle @ [final]"
  shows "\<exists>s'. store_remove s (row_id first) = Some (True, s') \<and> st_rows s' = final # middle"
proof -
  have "st_index s (row_id first) = Some 0"
    using store_inv_at [OF assms(1), of 0] assms(2) by simp
  from store_remove_present [OF assms(1) this] obtain s' where
    "store_remove s (row_id first) = Some (True, s')"
    "vec_swap_remove (st_rows s) 0 = Some (st_rows s')" by auto
  with assms(2) show ?thesis by (auto simp: vec_swap_remove_def)
qed

lemma demo_store_inv: "store_inv demo_store"
  by (auto simp: store_inv_def demo_store_def less_Suc_eq nth_Cons split: nat.splits)

theorem store_remove_reorders_witness:
  "\<exists>s'. store_remove demo_store (Bytes [0xDE, 0xAD]) = Some (True, s')
     \<and> map row_id (st_rows s') = [U64 1]"
  using store_remove_reorders [OF demo_store_inv, of "st_rows demo_store ! 0" "[]" "st_rows demo_store ! 1"]
  by (auto simp: demo_store_def)

section \<open>The engine as an authoritative map\<close>

text \<open>
  C14. What the engine stores does not depend on the index: for any index library, failing
  operations included, a sequence of inserts and deletes on a new engine never panics, and
  then \<open>get_row\<close> returns the last write to an identifier and \<open>len\<close> counts the live ones.
\<close>

theorem core_history:
  assumes "core_new L d mt cfg = Inr c"
  shows "\<exists>c'. run_reqs (core_put L) (core_del L) rs c = Some c'
     \<and> (\<forall>i. core_get_row c' i = Some (Option.bind (last_req i rs) req_result))
     \<and> core_len c' = card {i. Option.bind (last_req i rs) req_result \<noteq> None}"
proof -
  from assms have new: "co_store c = store_new" by (auto simp: core_new_def ok_iff)
  have "co.admissible c rs" by (simp add: co.admissible_def)
  from co.run_ok [of c rs L] new this obtain c' where
    c': "run_reqs (core_put L) (core_del L) rs c = Some c'" "core_store_ok c'"
      "core_contents c' = reqs_apply rs (core_contents c)" by (auto simp: store_inv_new)
  have at: "core_contents c' i = Option.bind (last_req i rs) req_result" for i
    unfolding c'(3) reqs_apply_lookup by (simp add: new store_contents_new split: option.split)
  then have "dom (core_contents c') = {i. Option.bind (last_req i rs) req_result \<noteq> None}"
    by (auto simp: dom_def)
  with c'(1,2) at core_get_row_contents [OF c'(2)] co.count_ok [OF c'(2)] show ?thesis by auto
qed

theorem core_history_witness:
  "\<exists>c'. run_reqs (core_put demo_lib) (core_del demo_lib)
       [Put (U64 1) ([0, 0], None), Put (U64 2) ([0], None), Put (U64 1) ([1, 1], None), Del (U64 2)]
       (demo_core demo_ivf True) = Some c'
     \<and> core_get_row c' (U64 1) = Some (Some ([1, 1], None)) \<and> core_get_row c' (U64 2) = Some None"
  using core_history [OF demo_core_new [of demo_ivf True], of
      "[Put (U64 1) ([0, 0], None), Put (U64 2) ([0], None), Put (U64 1) ([1, 1], None), Del (U64 2)]"]
  by fastforce

text \<open>
  C20. Replaying a write-ahead log is idempotent: applying a log to an engine that already
  holds the effect of any part of its beginning leaves the same contents as applying it once.
\<close>

theorem core_replay_idempotent:
  assumes "store_inv (co_store c)" and "run_reqs (core_put L) (core_del L) done_part c = Some c1"
  shows "\<exists>c2 c3. run_reqs (core_put L) (core_del L) (done_part @ rest) c1 = Some c2
     \<and> run_reqs (core_put L) (core_del L) (done_part @ rest) c = Some c3
     \<and> (\<forall>i. core_get_row c2 i = core_get_row c3 i) \<and> core_len c2 = core_len c3"
proof -
  have adm: "co.admissible c rs" for c rs by (simp add: co.admissible_def)
  from co.replay_idempotent [OF assms(1) adm assms(2)] obtain c2 c3 where
    run: "run_reqs (core_put L) (core_del L) (done_part @ rest) c1 = Some c2"
      "run_reqs (core_put L) (core_del L) (done_part @ rest) c = Some c3"
      "core_contents c2 = core_contents c3" by blast
  have "core_store_ok c1" using co.run_ok [OF assms(1) adm, of L done_part] assms(2) by auto
  from co.run_ok [OF this adm, of L "done_part @ rest"] co.run_ok [OF assms(1) adm, of L "done_part @ rest"] run
  have "core_store_ok c2" "core_store_ok c3" by auto
  with run show ?thesis by (auto simp: core_get_row_contents co.count_ok)
qed

theorem core_replay_idempotent_witness:
  "\<exists>c1 c2. run_reqs (core_put demo_lib) (core_del demo_lib) [Put (U64 1) ([0, 0], None)] (demo_core Flat False) = Some c1
     \<and> run_reqs (core_put demo_lib) (core_del demo_lib)
         ([Put (U64 1) ([0, 0], None)] @ [Del (U64 1)]) c1 = Some c2 \<and> core_len c2 = 0"
proof -
  let ?done = "[Put (U64 1) ([0, 0], None)]" and ?c = "demo_core Flat False"
  have inv: "store_inv (co_store ?c)"
    using core_reach_inv [OF demo_core_reach demo_engine_laws] by (simp add: core_wf_def)
  from core_history [OF demo_core_new [of Flat False], of ?done]
  obtain c1 where c1: "run_reqs (core_put demo_lib) (core_del demo_lib) ?done ?c = Some c1"
    by auto
  from core_history [OF demo_core_new [of Flat False], of "?done @ [Del (U64 1)]"]
  obtain c3 where c3: "run_reqs (core_put demo_lib) (core_del demo_lib) (?done @ [Del (U64 1)]) ?c = Some c3"
    "core_len c3 = card {i. Option.bind (last_req i (?done @ [Del (U64 1)])) req_result \<noteq> None}"
    by (auto simp del: run_reqs.simps)
  have none: "Option.bind (last_req i (?done @ [Del (U64 1)])) req_result = None" for i by simp
  from core_replay_idempotent [OF inv c1, of "[Del (U64 1)]"] c1 c3 none show ?thesis
    by (auto simp del: run_reqs.simps)
qed

end
