(* ===== verification/Iqdb_Core_Index_Props.thy ===== *)
theory Iqdb_Core_Index_Props
  imports Iqdb_Core_Props
begin

text \<open>
  The properties of the core engine that concern the derived index: which index a search
  runs on, when a rebuild is due, what a rebuild, a cache and an error leave behind.
\<close>

section \<open>Safety of the reachable states\<close>

text \<open>
  C17. No operation panics on an engine that was created or loaded, whatever operations
  preceded it, failed ones included; and such an engine keeps its invariant: the row store is
  consistent, an untrained index is marked for a rebuild, and only an IVF engine ever is.
\<close>

theorem core_never_panics:
  assumes "engine_laws L \<alpha> ok" and "core_reach L good c"
  shows "\<exists>r c'. core_exec L op c = Some (r, c') \<and> core_wf L ok c'"
proof -
  note wf = core_reach_inv [OF assms(2,1)]
  then have "store_inv (co_store c)" by (simp add: core_wf_def)
  from core_exec_total [OF this] obtain r c' where run: "core_exec L op c = Some (r, c')" by blast
  with core_step_wf [OF _ assms(1), of c op r c'] wf show ?thesis by (auto simp: core_step_exec)
qed

theorem core_never_panics_witness:
  "\<exists>r c'. core_exec demo_lib (CDelete (U64 4)) (demo_core demo_ivf True) = Some (r, c')
     \<and> core_wf demo_lib memo_ok c'"
  by (rule core_never_panics [OF demo_engine_laws demo_core_reach])

section \<open>Searches see the store\<close>

lemma core_search_ready:
  assumes laws: "engine_laws L \<alpha> ok" and reach: "core_reach L True c"
    and ready: "core_ensure_ready L c = (Inr (), c1)" and data: "\<not> core_is_empty c"
    and search: "core_search L q p c1 = (res, c2)"
  shows "\<exists>x. kind_matches (co_kind c) x \<and> \<not> any_needs_training (lib_index L) x
     \<and> \<alpha> x = core_contents c \<and> res = fst (any_search (lib_index L) q p x)
     \<and> co_store c2 = co_store c"
proof -
  from core_reach_inv [OF reach laws] have wf: "core_wf L ok c" and sy: "core_synced L \<alpha> c" by auto
  note rd = core_ensure_ready_spec [OF laws wf sy ready]
  have wf1: "core_wf L ok c1" by (rule core_ensure_ready_wf [OF laws wf ready])
  have kind: "co_kind c1 = co_kind c"
    using ready by (cases rule: core_ensure_ready_cases) simp_all
  have tr: "\<not> core_untrained L c1" "\<alpha> (core_index L c1) = core_contents c1"
    using rd(3) data by (simp_all add: core_is_empty_def)
  have cl: "cl_ok ok (co_index c1)" using wf1 by (simp add: core_wf_def)
  from core_search_spec [OF engine_lawsD(5) [OF laws] cl search]
  have "res = fst (any_search (lib_index L) q p (core_index L c1))" by simp
  moreover have "co_store c2 = co_store c1" using search by (auto simp: core_search_def apsnd_eq)
  moreover have "kind_matches (co_kind c) (core_index L c1)"
    using wf1 kind by (simp add: core_wf_def)
  ultimately show ?thesis using tr rd(2) by (metis core_untrained_eq)
qed

text \<open>
  C6. After a successful \<open>ensure_ready\<close> on a non-empty engine, a search is answered by a
  trained index of the configured kind that holds exactly the vectors of the store, and
  leaves the stored data as they were; this holds in every state reached without a failed
  write, through incremental updates, rebuilds, cache changes and reloads alike.
\<close>

theorem core_search_follows_store:
  assumes laws: "engine_laws L \<alpha> ok" and reach: "core_reach L True c"
    and ready: "core_ensure_ready L c = (Inr (), c1)" and data: "\<not> core_is_empty c"
    and search: "core_search L q p c1 = (res, c2)"
  shows "\<exists>x. kind_matches (co_kind c) x \<and> \<not> any_needs_training (lib_index L) x
     \<and> \<alpha> x = core_contents c \<and> res = fst (any_search (lib_index L) q p x)
     \<and> co_store c2 = co_store c"
  by (rule core_search_ready [OF assms])

lemma demo_step:
  assumes "core_reach demo_lib good c" and "core_exec demo_lib op c = Some (r, c')"
    and "good \<and> (is_ok r \<or> \<not> is_write op)"
  shows "core_reach demo_lib True c'"
  using core_reach.step [OF assms(1), of op r c'] assms(2,3) by (simp add: core_step_exec)

text \<open>One vector in an IVF engine: the insert is deferred, and \<open>ensure_ready\<close> builds.\<close>

definition demo_one ::
    "bool \<Rightarrow> (demo_meta list_index, demo_meta list_index, demo_meta list_index, demo_meta memo, nat, demo_meta) iqdb_core" where
  "demo_one cached = (demo_core demo_ivf cached)
     \<lparr>co_store := \<lparr>st_rows = [Row (U64 1) [0, 0] None], st_index = [U64 1 \<mapsto> 0]\<rparr>, co_ivf_dirty := True\<rparr>"

definition demo_ready ::
    "bool \<Rightarrow> (demo_meta list_index, demo_meta list_index, demo_meta list_index, demo_meta memo, nat, demo_meta) iqdb_core" where
  "demo_ready cached = (demo_one cached)
     \<lparr>co_index := cl_wrap memo_cache
        (AnyIvf \<lparr>li_dim = 2, li_entries = [(U64 1, [0, 0], None)], li_trained = True\<rparr>)
        (if cached then Some 8 else None), co_ivf_dirty := False\<rparr>"

lemmas demo_defs = demo_core_def core_new_def any_new_def list_lib_def li_new_def demo_ivf_def
  cl_wrap_def memo_cache_def store_new_def

lemma demo_insert: "core_insert demo_lib (U64 1) [0, 0] None (demo_core demo_ivf cached) = Some (Inr (), demo_one cached)"
  by (simp add: core_insert_def store_upsert_def core_untrained_def demo_one_def demo_defs)

lemma demo_ensure_ready: "core_ensure_ready demo_lib (demo_one cached) = (Inr (), demo_ready cached)"
  by (simp add: core_ensure_ready_def demo_ready_def demo_one_def store_is_empty_def store_items_def
      row_entry_def li_train_def li_insert_def demo_defs)

lemma demo_one_reach: "core_reach demo_lib True (demo_one cached)"
  by (rule demo_step [OF demo_core_reach [of demo_ivf cached], where op = "CInsert (U64 1) [0, 0] None" and r = "Inr Done"])
    (simp_all add: demo_insert unit_out_def)

lemma demo_ready_reach: "core_reach demo_lib True (demo_ready cached)"
  by (rule demo_step [OF demo_one_reach, where op = CReady and r = "Inr Done"])
    (simp_all add: demo_ensure_ready unit_out_def)

theorem core_search_follows_store_witness:
  "fst (core_search demo_lib [9, 9] 5 (demo_ready True)) = Inr [U64 1]
     \<and> (\<exists>x. la_contents x = [U64 1 \<mapsto> ([0, 0], None)]
          \<and> Inr [U64 1] = fst (any_search (lib_index demo_lib) [9, 9] 5 x))"
proof -
  have res: "core_search demo_lib [9, 9] 5 (demo_ready True)
      = (Inr [U64 1], snd (core_search demo_lib [9, 9] 5 (demo_ready True)))"
    by (simp add: core_search_def demo_ready_def demo_one_def memo_search_def li_core_def
        li_search_def demo_defs)
  have "\<not> core_is_empty (demo_one True)"
    by (simp add: core_is_empty_def store_is_empty_def demo_one_def)
  from core_search_follows_store [OF demo_engine_laws demo_one_reach demo_ensure_ready this res]
  obtain x where x: "la_contents x = core_contents (demo_one True)"
      "Inr [U64 1] = fst (any_search (lib_index demo_lib) [9, 9] 5 x)"
    by blast
  have store: "core_contents (demo_one True) = [U64 1 \<mapsto> ([0, 0], None)]"
    by (simp add: demo_one_def store_contents_def rows_contents_def row_entry_def)
  have "fst (core_search demo_lib [9, 9] 5 (demo_ready True)) = Inr [U64 1]"
    by (subst res) (rule fst_conv)
  with x(2) x(1) [unfolded store] show ?thesis by blast
qed

section \<open>When a rebuild is due\<close>

text \<open>
  C36. A write schedules a rebuild only while the index is untrained; then it succeeds without
  touching the index. A trained IVF index takes the write at once, like the other kinds, and
  no rebuild is scheduled.
\<close>

theorem core_write_defers:
  assumes "core_exec L op c = Some (r, c')" and "is_write op"
  shows "co_ivf_dirty c' = (core_untrained L c \<or> co_ivf_dirty c)
    \<and> (core_untrained L c \<longrightarrow> r = Inr Done \<and> co_index c' = co_index c)"
  using assms
proof (cases op)
  case (CInsert i v m)
  with assms(1) obtain r' where run: "core_insert L i v m c = Some (r', c')"
    "r = map_sum (\<lambda>e. e) (\<lambda>_. Done) r'" by (auto simp: unit_out_def)
  from run(1) show ?thesis
    by (cases rule: core_insert_cases) (auto simp: run(2) dest!: index_call_dirty)
next
  case (CDelete i)
  with assms(1) obtain r' where run: "core_delete L i c = Some (r', c')"
    "r = map_sum (\<lambda>e. e) (\<lambda>_. Done) r'" by (auto simp: unit_out_def)
  from run(1) show ?thesis
    by (cases rule: core_delete_cases) (auto simp: run(2) dest!: index_call_dirty)
qed simp_all

theorem core_write_defers_witness:
  "co_ivf_dirty (demo_one True) \<and> co_index (demo_one True) = co_index (demo_core demo_ivf True)"
proof -
  have "core_exec demo_lib (CInsert (U64 1) [0, 0] None) (demo_core demo_ivf True)
      = Some (Inr Done, demo_one True)"
    by (simp add: demo_insert unit_out_def)
  moreover have "core_untrained demo_lib (demo_core demo_ivf True)"
    by (simp add: core_untrained_def demo_defs)
  ultimately show ?thesis using core_write_defers by fastforce
qed

text \<open>
  A failed rebuild changes nothing: when \<open>ensure_ready\<close> returns an error, from creating,
  training or filling the new index, the engine is exactly what it was, and still due for a
  rebuild; when it succeeds, calling it again does nothing.
\<close>

lemma core_rebuild_atomic:
  assumes "core_ensure_ready L c = (res, c')"
  shows "if is_ok res then core_ensure_ready L c' = (Inr (), c')
    else c' = c \<and> core_needs_materialization c \<and> \<not> core_is_empty c"
proof (cases "\<not> co_ivf_dirty c \<or> store_is_empty (co_store c)")
  case True
  then have "core_ensure_ready L c = (Inr (), c)" by (simp only: core_ensure_ready_def if_True)
  with assms show ?thesis by auto
next
  case False
  then have due: "core_needs_materialization c \<and> \<not> core_is_empty c"
    by (simp add: core_needs_materialization_def core_is_empty_def)
  from assms show ?thesis
    by (cases rule: core_ensure_ready_cases) (use False due in \<open>simp_all add: core_ensure_ready_def\<close>)
qed

lemma core_rebuild_atomic_witness:
  "core_ensure_ready demo_lib (demo_ready True) = (Inr (), demo_ready True)"
  using core_rebuild_atomic [OF demo_ensure_ready] by simp

text \<open>
  \<open>optimize\<close> on a flat or HNSW engine does nothing; on a non-empty IVF engine a success
  leaves a trained index that holds exactly the store's vectors; on an empty one it reports
  success but leaves the engine marked for a rebuild.
\<close>

lemma core_optimize_effect:
  assumes laws: "engine_laws L \<alpha> ok" and reach: "core_reach L True c"
    and run: "core_optimize L c = (res, c')"
  shows "(\<not> is_ivf (co_kind c) \<longrightarrow> res = Inr () \<and> c' = c)
    \<and> (is_ivf (co_kind c) \<and> core_is_empty c \<longrightarrow> res = Inr () \<and> core_needs_materialization c')
    \<and> (\<not> core_is_empty c \<and> is_ok res \<longrightarrow> \<not> core_needs_materialization c' \<and> \<not> core_untrained L c'
        \<and> \<alpha> (core_index L c') = core_contents c)"
proof -
  from core_reach_inv [OF reach laws] have wf: "core_wf L ok c" and sy: "core_synced L \<alpha> c" by auto
  note spec = core_optimize_spec [OF laws wf sy run]
  have "res = Inr () \<and> c' = c" if "\<not> is_ivf (co_kind c)"
    using that run wf by (cases "co_kind c") (auto simp: core_optimize_def core_ensure_ready_def
        is_ivf_def core_wf_def)
  moreover have "res = Inr () \<and> core_needs_materialization c'"
    if "is_ivf (co_kind c)" "core_is_empty c"
    using that run by (cases "co_kind c") (auto simp: core_optimize_def core_ensure_ready_def
        is_ivf_def core_is_empty_def core_needs_materialization_def)
  ultimately show ?thesis
    using spec by (simp add: core_is_empty_def core_needs_materialization_def)
qed

lemma core_optimize_effect_witness:
  "fst (core_optimize demo_lib (demo_core demo_ivf False)) = Inr ()
     \<and> core_needs_materialization (snd (core_optimize demo_lib (demo_core demo_ivf False)))
     \<and> core_optimize demo_lib (demo_core Flat False) = (Inr (), demo_core Flat False)"
proof -
  have k: "co_kind (demo_core kd False) = kd" "core_is_empty (demo_core kd False)" for kd
    by (cases kd; simp add: core_is_empty_def store_is_empty_def demo_defs)+
  have "is_ivf demo_ivf" "\<not> is_ivf Flat" by (simp_all add: is_ivf_def demo_ivf_def)
  with k core_optimize_effect [OF demo_engine_laws demo_core_reach [of demo_ivf False] prod.collapse [symmetric]]
    core_optimize_effect [OF demo_engine_laws demo_core_reach [of Flat False] prod.collapse [symmetric]]
  show ?thesis by (metis prod.collapse)
qed

section \<open>The cache\<close>

text \<open>
  C21. A cache cannot be observed: two engines created alike but for the cache configuration
  return the same results for every sequence of operations, searches and later changes of
  the cache included, and store the same rows.
\<close>

theorem core_cache_transparent:
  assumes "cache_laws (any_core (lib_index L)) (lib_cache L) ok"
    and "core_new L d mt \<lparr>cc_index = k, cc_cache = cfg1\<rparr> = Inr c1"
    and "core_new L d mt \<lparr>cc_index = k, cc_cache = cfg2\<rparr> = Inr c2"
    and "core_run L ops c1 = Some (rs, c1')"
  shows "\<exists>c2'. core_run L ops c2 = Some (rs, c2') \<and> co_store c2' = co_store c1'"
proof -
  have "core_sim L ok c1 c2"
    using assms(2,3) cl_wrap_inner [OF assms(1)] by (auto simp: core_new_def core_sim_def ok_iff)
  from core_run_sim [OF assms(1) this assms(4)] show ?thesis by (auto dest: core_simD(1))
qed

theorem core_cache_transparent_witness:
  "map_option fst (core_run demo_lib [CInsert (U64 1) [0, 0] None, CReady, CSearch [9, 9] 5, CSearch [9, 9] 5]
      (demo_core demo_ivf False))
   = Some [Inr Done, Inr Done, Inr (Hits [U64 1]), Inr (Hits [U64 1])]"
proof -
  let ?ops = "[CInsert (U64 1) [0, 0] None, CReady, CSearch [9, 9] 5, CSearch [9, 9] 5]"
  have hits: "fst (core_search demo_lib [9, 9] 5 (demo_ready True)) = Inr [U64 1]"
    "fst (core_search demo_lib [9, 9] 5 (snd (core_search demo_lib [9, 9] 5 (demo_ready True)))) = Inr [U64 1]"
    by (simp_all add: core_search_def demo_ready_def demo_one_def memo_search_def li_core_def
        li_search_def demo_defs)
  have "core_run demo_lib ?ops (demo_core demo_ivf True)
      = Some ([Inr Done, Inr Done, Inr (Hits [U64 1]), Inr (Hits [U64 1])],
          snd (the (core_run demo_lib ?ops (demo_core demo_ivf True))))"
    using hits by (auto simp: demo_insert demo_ensure_ready unit_out_def apfst_def map_prod_def
        split: prod.splits)
  from core_cache_transparent [OF engine_lawsD(5) [OF demo_engine_laws] demo_core_new [of demo_ivf True]
      demo_core_new [of demo_ivf False] this]
  show ?thesis by auto
qed

end
