(* ===== verification/Iqdb_Core_Snapshot.thy ===== *)
theory Iqdb_Core_Snapshot
  imports Iqdb_Core_Index_Props
begin

text \<open>
  The properties of saving and loading the core engine, of changing its cache, and of what an
  index error leaves behind.
\<close>

section \<open>Loading\<close>

text \<open>\<open>load_from\<close> on a payload it can decode: which errors are left, and what it builds.\<close>

lemma core_load_decoded:
  assumes "decode (lib_meta L) t bs = Inr (d, rest)" and "distinct (map row_id (de_rows d))"
  obtains (refused) e where
      "any_new (lib_index L) (de_kind d) (de_dim d) (de_metric d) = Inl e
       \<or> (\<exists>idx idx' store. any_new (lib_index L) (de_kind d) (de_dim d) (de_metric d) = Inr idx
            \<and> \<not> any_needs_training (lib_index L) idx
            \<and> st_rows store = de_rows d \<and> build_into (lib_index L) (store_items store) idx = (Inl e, idx'))"
      "core_load L t bs = Some (Inl (lib_persist_of L e))"
    | (loaded) c where "core_load L t bs = Some (Inr c)" "st_rows (co_store c) = de_rows d"
      "co_dim c = de_dim d" "co_metric c = de_metric d" "co_kind c = de_kind d" "co_cache_cfg c = None"
proof -
  from upsert_rows_append [OF store_inv_new(2), of "length (de_rows d)" "de_rows d"] assms(2)
  obtain store where up: "upsert_rows (de_rows d) (store_with_capacity (length (de_rows d))) = Some store"
    and rows: "st_rows store = de_rows d"
    by (auto simp: store_with_capacity_def store_new_def)
  note def = core_load_def [of L t bs, unfolded assms(1) sum.case prod.case up option.case]
  show thesis
  proof (cases "any_new (lib_index L) (de_kind d) (de_dim d) (de_metric d)")
    case (Inl e)
    then show thesis using refused [of e] by (simp add: def)
  next
    case new: (Inr idx)
    show thesis
    proof (cases "any_needs_training (lib_index L) idx")
      case True
      then show thesis using loaded rows by (simp add: def new)
    next
      case False
      obtain r idx' where bld: "build_into (lib_index L) (store_items store) idx = (r, idx')"
        by fastforce
      show thesis
      proof (cases r)
        case (Inl e)
        then show thesis using refused [of e] new bld False rows by (auto simp: def)
      next
        case (Inr n)
        then show thesis using loaded new bld False rows by (simp add: def)
      qed
    qed
  qed
qed

text \<open>
  C10. Save then load gives the database back. Saving an engine whose data are within the
  limits of the format succeeds; loading those bytes fails only if the index library refuses
  the configuration or the rows; otherwise the loaded engine has the same kind, dimension and
  metric, the same rows in the same order, no cache, and an index in step with the store,
  except that an IVF engine is marked to train on the first search.
\<close>

theorem core_save_load:
  assumes laws: "engine_laws L \<alpha> ok" and inv: "store_inv (co_store c)"
    and fits: "payload_fits (lib_meta L) t (payload_of (co_kind c) (co_dim c) (co_metric c) (co_store c))"
  shows "\<exists>bs res. core_save L c buffer = (Inr (), \<lparr>wr_out = bs, wr_room = None\<rparr>)
    \<and> core_load L t bs = Some res
    \<and> (\<forall>c'. res = Inr c' \<longrightarrow>
        st_rows (co_store c') = st_rows (co_store c) \<and> core_contents c' = core_contents c
        \<and> co_dim c' = co_dim c \<and> co_metric c' = co_metric c \<and> co_kind c' = co_kind c
        \<and> core_cache_stats L c' = None
        \<and> core_needs_materialization c' = is_ivf (co_kind c) \<and> core_synced L \<alpha> c')
    \<and> (\<forall>e. res = Inl e \<longrightarrow> (\<exists>e'. e = lib_persist_of L e' \<and>
        (any_new (lib_index L) (co_kind c) (co_dim c) (co_metric c) = Inl e'
         \<or> (\<exists>idx idx'. any_new (lib_index L) (co_kind c) (co_dim c) (co_metric c) = Inr idx
              \<and> \<not> any_needs_training (lib_index L) idx
              \<and> build_into (lib_index L) (store_items (co_store c)) idx = (Inl e', idx')))))"
proof -
  let ?d = "payload_of (co_kind c) (co_dim c) (co_metric c) (co_store c)"
  let ?bs = "payload_bytes (lib_meta L) ?d"
  have save: "core_save L c buffer = (Inr (), \<lparr>wr_out = ?bs, wr_room = None\<rparr>)"
    by (simp add: core_save_def encode_fits [OF fits])
  have dec: "decode (lib_meta L) t ?bs = Inr (?d, [])"
    by (rule w_payload.round_trip_exact [OF fits])
  have dist: "distinct (map row_id (de_rows ?d))"
    using store_inv_distinct [OF inv] by simp
  have items: "store_items s = store_items (co_store c)" if "st_rows s = st_rows (co_store c)"
    for s :: "'g row_store" using that by (simp add: store_items_def)
  from dec dist show ?thesis
  proof (cases rule: core_load_decoded)
    case (refused e)
    have err: "any_new (lib_index L) (co_kind c) (co_dim c) (co_metric c) = Inl e
        \<or> (\<exists>idx idx'. any_new (lib_index L) (co_kind c) (co_dim c) (co_metric c) = Inr idx
             \<and> \<not> any_needs_training (lib_index L) idx
             \<and> build_into (lib_index L) (store_items (co_store c)) idx = (Inl e, idx'))"
      using refused(1) items unfolding payload_of_sel by metis
    show ?thesis
      by (intro exI [of _ ?bs] exI) (use save refused(2) err in blast)
  next
    case (loaded c')
    from core_load_wf [OF laws loaded(1)] have wf: "core_wf L ok c'" and sy: "core_synced L \<alpha> c'" by auto
    have dirty: "core_needs_materialization c' = is_ivf (co_kind c)" and "core_cache_stats L c' = None"
      using loaded(1)
    proof (atomize (full), cases rule: core_load_cases)
      case (1 d rest store idx idx')
      note mt = any_new_matches [OF 1(3)]
      have "is_ivf (de_kind d) \<Longrightarrow> any_needs_training (lib_index L) idx"
        using 1(3) engine_lawsD(2) [OF laws]
        by (cases "de_kind d") (auto simp: is_ivf_def any_new_def ivf_laws_def ok_iff)
      with needs_training_ivf [OF mt] 1(1,5) dec
      show "core_needs_materialization c' = is_ivf (co_kind c) \<and> core_cache_stats L c' = None"
        by (auto simp: core_needs_materialization_def core_cache_stats_def cl_wrap_def)
    qed
    with loaded sy save show ?thesis
      by (intro exI [of _ ?bs] exI [of _ "Inr c'"]) (simp add: store_contents_def)
  qed
qed

lemma demo_ready_fits:
  "payload_fits (lib_meta demo_lib) t
     (payload_of (co_kind (demo_ready b)) (co_dim (demo_ready b)) (co_metric (demo_ready b)) (co_store (demo_ready b)))"
  by (simp add: payload_fits_def row_fits_def demo_ready_def demo_one_def demo_defs)

lemma reach_store_inv:
  "engine_laws L \<alpha> ok \<Longrightarrow> core_reach L good c \<Longrightarrow> store_inv (co_store c)"
  using core_reach_inv by (fastforce simp: core_wf_def)

theorem core_save_load_witness:
  "\<exists>bs c'. core_save demo_lib (demo_ready True) buffer = (Inr (), \<lparr>wr_out = bs, wr_room = None\<rparr>)
     \<and> core_load demo_lib Ptr64 bs = Some (Inr c') \<and> core_needs_materialization c'
     \<and> core_get_row c' (U64 1) = Some (Some ([0, 0], None))"
proof -
  have inv: "store_inv (co_store (demo_ready True))"
    by (rule reach_store_inv [OF demo_engine_laws demo_ready_reach])
  have new: "any_new (lib_index demo_lib) (co_kind (demo_ready True)) (co_dim (demo_ready True))
      (co_metric (demo_ready True)) = Inr (AnyIvf \<lparr>li_dim = 2, li_entries = [], li_trained = False\<rparr>)"
    by (simp add: demo_ready_def demo_one_def demo_defs)
  have ivf: "is_ivf (co_kind (demo_ready True))"
    "any_needs_training (lib_index demo_lib) (AnyIvf \<lparr>li_dim = 2, li_entries = [], li_trained = False\<rparr>)"
    by (simp_all add: is_ivf_def demo_ready_def demo_one_def demo_defs)
  let ?c = "demo_ready True"
  from core_save_load [OF demo_engine_laws inv demo_ready_fits [of Ptr64]] obtain bs res where
    save: "core_save demo_lib ?c buffer = (Inr (), \<lparr>wr_out = bs, wr_room = None\<rparr>)"
    and out: "core_load demo_lib Ptr64 bs = Some res"
    and good: "\<And>c'. res = Inr c' \<Longrightarrow> core_contents c' = core_contents ?c
        \<and> core_needs_materialization c' = is_ivf (co_kind ?c)"
    and bad: "\<And>e. res = Inl e \<Longrightarrow> \<exists>e'.
        any_new (lib_index demo_lib) (co_kind ?c) (co_dim ?c) (co_metric ?c) = Inl e'
        \<or> (\<exists>idx. any_new (lib_index demo_lib) (co_kind ?c) (co_dim ?c) (co_metric ?c) = Inr idx
              \<and> \<not> any_needs_training (lib_index demo_lib) idx)"
    by blast
  have "res \<noteq> Inl e" for e using bad [of e] new ivf(2) by auto
  then obtain c' where c': "res = Inr c'" by (cases res) auto
  from out c' have load1: "core_load demo_lib Ptr64 bs = Some (Inr c')" by simp
  from good [OF c'] ivf(1) have load2: "core_needs_materialization c'" "core_contents c' = core_contents ?c"
    by simp_all
  note load = load1 load2
  have "store_inv (co_store c')"
    by (rule reach_store_inv [OF demo_engine_laws core_reach.load [OF load(1)]])
  then have "core_get_row c' (U64 1) = Some (Some ([0, 0], None))"
    by (simp add: core_get_row_contents load(3))
      (simp add: demo_ready_def demo_one_def store_contents_def rows_contents_def row_entry_def)
  with save load show ?thesis by blast
qed

text \<open>
  C31. Loading is safe on any bytes: it never panics, and whatever it accepts is a consistent
  engine in which every stored vector has the engine's dimension and, of several rows with
  one identifier, the last is kept.
\<close>

theorem core_load_any_bytes:
  assumes "meta_laws (lib_meta L)"
  shows "\<exists>res. core_load L t bs = Some res
    \<and> (\<forall>c. res = Inr c \<longrightarrow> store_inv (co_store c)
        \<and> (\<forall>i v m. core_get_row c i = Some (Some (v, m)) \<longrightarrow> length v = co_dim c)
        \<and> (\<exists>d r. decode (lib_meta L) t bs = Inr (d, r)
             \<and> core_contents c = map_of (rev (map row_entry (de_rows d)))))"
proof (cases "decode (lib_meta L) t bs")
  case (Inl e)
  then show ?thesis by (simp add: core_load_def)
next
  case (Inr dr)
  obtain d r where dec: "decode (lib_meta L) t bs = Inr (d, r)" using Inr by (cases dr) auto
  from upsert_rows_spec [OF store_inv_new(2), of "de_rows d"] obtain store where
    up: "upsert_rows (de_rows d) (store_with_capacity (length (de_rows d))) = Some store"
      "store_inv store" "store_contents store = map_of (rev (map row_entry (de_rows d)))"
    by (auto simp: store_contents_new)
  have "list_all (row_fits (lib_meta L) (de_dim d)) (de_rows d)"
    using decode_sound_fits [OF assms dec] by (simp add: payload_fits_def)
  then have dims: "length v = de_dim d" if "store_contents store i = Some (v, m)" for i v m
    using that by (auto simp: up(3) row_entry_def list_all_iff row_fits_def dest!: map_of_SomeD)
  have "core_load L t bs \<noteq> None"
    unfolding core_load_def dec sum.case prod.case up(1) option.case by simp
  then obtain res where res: "core_load L t bs = Some res" by blast
  have "co_store c = store \<and> co_dim c = de_dim d" if "res = Inr c" for c
    using res [unfolded that] by (cases rule: core_load_cases) (use dec up(1) in auto)
  with res up(2,3) dims dec show ?thesis by (auto simp: core_get_row_contents)
qed

theorem core_load_any_bytes_witness:
  "\<exists>res. core_load demo_lib Ptr64 [0x49, 0x51, 0x44, 0x42, 1] = Some res"
  using core_load_any_bytes [of demo_lib Ptr64 "[0x49, 0x51, 0x44, 0x42, 1]"] btree_meta_laws by auto

section \<open>Changing the cache\<close>

text \<open>
  Changing the cache of a live engine moves the index over unchanged: the same rows, the
  same index, the same pending rebuild, and statistics exist afterwards exactly when a cache
  was asked for. If the placeholder index cannot be made, nothing has happened.
\<close>

lemma core_set_cache_effect:
  assumes "cache_laws (any_core (lib_index L)) (lib_cache L) ok" and "cl_ok ok (co_index c)"
    and "core_set_cache L cache c = (res, c')"
  shows "if is_ok res then core_index L c' = core_index L c \<and> co_store c' = co_store c
      \<and> co_ivf_dirty c' = co_ivf_dirty c \<and> (core_cache_stats L c' = None \<longleftrightarrow> cache = None)
    else c' = c"
  using assms(3) core_set_cache_spec [OF assms]
  by (auto simp: core_set_cache_def core_cache_stats_def cl_wrap_def Let_def split: sum.splits option.splits)

lemma core_set_cache_effect_witness:
  "core_set_cache demo_lib (Some 4) (demo_ready False)
      = (Inr (), snd (core_set_cache demo_lib (Some 4) (demo_ready False)))
    \<and> core_cache_stats demo_lib (snd (core_set_cache demo_lib (Some 4) (demo_ready False))) \<noteq> None"
proof -
  have run: "core_set_cache demo_lib (Some 4) (demo_ready False)
      = (Inr (), snd (core_set_cache demo_lib (Some 4) (demo_ready False)))"
    by (simp add: core_set_cache_def demo_ready_def demo_one_def demo_defs)
  have "core_wf demo_lib memo_ok (demo_ready False)"
    using core_reach_inv [OF demo_ready_reach demo_engine_laws] by blast
  then have "cl_ok memo_ok (co_index (demo_ready False))" by (simp add: core_wf_def)
  from core_set_cache_effect [OF engine_lawsD(5) [OF demo_engine_laws] this run] run show ?thesis
    by auto
qed

section \<open>Errors of the index\<close>

text \<open>
  C38. The store is written before the index, and an index error is reported but not undone:
  when the index of a live engine refuses a new vector, \<open>insert\<close> returns the error although
  \<open>get_row\<close> now finds the vector; no search can, and because no rebuild is scheduled,
  \<open>ensure_ready\<close> does not repair it.
\<close>

theorem core_insert_error_drifts:
  assumes laws: "engine_laws L \<alpha> ok" and reach: "core_reach L True c"
    and live: "\<not> core_needs_materialization c" and new: "core_get_row c i = Some None"
    and run: "core_insert L i v m c = Some (Inl e, c')"
  shows "core_get_row c' i = Some (Some (v, m)) \<and> \<alpha> (core_index L c') i = None
    \<and> core_ensure_ready L c' = (Inr (), c')"
proof -
  from core_reach_inv [OF reach laws] have wf: "core_wf L ok c" and sy: "core_synced L \<alpha> c" by auto
  then have inv: "store_inv (co_store c)" and cl: "cl_ok ok (co_index c)"
    by (simp_all add: core_wf_def)
  have none: "core_contents c i = None" using new by (simp add: core_get_row_contents [OF inv])
  from core_insert_store [OF inv, of L i v m] run
  have st: "store_inv (co_store c')" "core_contents c' = (core_contents c)(i \<mapsto> (v, m))" by auto
  from store_upsert_spec [OF inv, of i v m] none obtain s where
    s: "store_upsert (co_store c) i v m = Some (True, s)" by auto
  from run have "core_index_insert L i v m (c\<lparr>co_store := s\<rparr>) = (Inl e, c')"
    by (cases rule: core_insert_cases) (use s in auto)
  note ins = this
  from index_insert_contents [OF laws _ ins] cl sy live none
  have "\<alpha> (core_index L c') i = None" by (simp add: core_synced_def core_needs_materialization_def)
  moreover have "\<not> co_ivf_dirty c'"
    using index_call_dirty(1) [OF ins] live by (simp add: core_needs_materialization_def)
  ultimately show ?thesis
    using st by (simp add: core_get_row_contents core_ensure_ready_def)
qed

theorem core_insert_error_drifts_witness:
  "\<exists>c'. core_insert demo_lib (U64 1) [0] None (demo_core Flat False) = Some (Inl (DimensionMismatch 2 1), c')
     \<and> core_get_row c' (U64 1) = Some (Some ([0], None))"
proof -
  let ?c = "demo_core Flat False"
  obtain c' where run: "core_insert demo_lib (U64 1) [0] None ?c = Some (Inl (DimensionMismatch 2 1), c')"
    by (simp add: core_insert_def store_upsert_def core_untrained_def core_index_insert_def
        li_core_def li_insert_def demo_defs)
  have "\<not> core_needs_materialization ?c" "core_get_row ?c (U64 1) = Some None"
    by (simp_all add: core_needs_materialization_def core_get_row_def store_get_def demo_defs)
  from core_insert_error_drifts [OF demo_engine_laws demo_core_reach this run] run show ?thesis by blast
qed

end
