(* ===== verification/Iqdb_Error.thy ===== *)
theory Iqdb_Error
  imports Iqdb_Types
begin

text \<open>
  The unified error (src/error.rs): one variant per layer below and one for the checks of the
  handle itself. How the layers below print their errors is theirs, so the two formatters are
  parameters.
\<close>

datatype error = Index iqdb_error | Persist persist_error | Config string

text \<open>The \<open>From\<close> impls, which \<open>?\<close> applies.\<close>

definition from_iqdb :: "iqdb_error \<Rightarrow> error" where
  "from_iqdb e = Index e"

definition from_persist :: "persist_error \<Rightarrow> error" where
  "from_persist e = Persist e"

fun error_display :: "(iqdb_error \<Rightarrow> string) \<Rightarrow> (persist_error \<Rightarrow> string) \<Rightarrow> error \<Rightarrow> string" where
  "error_display fi fp (Index e) = fi e"
| "error_display fi fp (Persist e) = fp e"
| "error_display fi fp (Config reason) = ''invalid configuration: '' @ reason"

fun error_source :: "error \<Rightarrow> (iqdb_error + persist_error) option" where
  "error_source (Index e) = Some (Inl e)"
| "error_source (Persist e) = Some (Inr e)"
| "error_source (Config _) = None"

text \<open>Conversion loses nothing: the wrapped error is the source.\<close>

lemma error_source_from [simp]:
  "error_source (from_iqdb e) = Some (Inl e)" "error_source (from_persist e') = Some (Inr e')"
  by (simp_all add: from_iqdb_def from_persist_def)

end
