(* ===== verification/Iqdb_Handle.thy ===== *)
theory Iqdb_Handle
  imports Iqdb_Core Iqdb_Error
begin

text \<open>
  The public handle (src/handle.rs): a core engine in memory, or inside a \<open>PersistedIndex\<close> of
  the crate \<open>iqdb_persist\<close>, behind one reader-writer lock. The persisted index, the file
  system and the vector vocabulary are parameters. Here each method runs to its end; what
  other threads can do between the two critical sections of a search is the subject of
  \<open>Iqdb_Concurrent\<close>.
\<close>

section \<open>Parameters\<close>

text \<open>
  \<open>Vector\<close> is a validated payload and \<open>SearchParams\<close> a struct with a filter field; both are
  of \<open>iqdb_types\<close>. A \<open>Vector\<close> is modelled by its payload.
\<close>

record ('p, 'flt) vocabulary =
  vector_new :: "vec \<Rightarrow> iqdb_error + vec"
  params_new :: "usize \<Rightarrow> metric \<Rightarrow> 'p"
  params_filter_update :: "'flt option \<Rightarrow> 'p \<Rightarrow> 'p"

record 'pa persist_config =
  pc_path :: 'pa
  pc_wal_enabled :: bool
  pc_fsync_policy :: fsync_policy
  pc_compression :: compression

text \<open>
  \<open>PersistedIndex<IqdbCore>\<close> over a file system \<open>'fs\<close>. Loading and writing call back into the
  core engine and so can panic; their errors are given after \<open>?\<close> has converted them.
  \<open>ps_set_index\<close> is a write through \<open>index_mut\<close>.
\<close>

record ('co, 'm, 'ps, 'pa, 'x, 'fs) persist_lib =
  ps_config_new :: "'pa \<Rightarrow> ('pa, 'x) persist_config_scheme"
  ps_exists :: "'pa \<Rightarrow> 'fs \<Rightarrow> bool"
  ps_load :: "('pa, 'x) persist_config_scheme \<Rightarrow> 'fs \<Rightarrow> (error + 'ps) option"
  ps_open_with :: "'co \<Rightarrow> ('pa, 'x) persist_config_scheme \<Rightarrow> 'fs \<Rightarrow> error + 'ps"
  ps_index :: "'ps \<Rightarrow> 'co"
  ps_set_index :: "'co \<Rightarrow> 'ps \<Rightarrow> 'ps"
  ps_insert :: "vector_id \<Rightarrow> vec \<Rightarrow> 'm option \<Rightarrow> 'ps \<Rightarrow> ((error + unit) \<times> 'ps) option"
  ps_delete :: "vector_id \<Rightarrow> 'ps \<Rightarrow> ((error + unit) \<times> 'ps) option"
  ps_checkpoint :: "'ps \<Rightarrow> (error + unit) \<times> 'ps"

type_synonym ('fl, 'hn, 'iv, 'cx, 'cc, 'm, 'ps, 'pa, 'x, 'fs) persistence =
  "(('fl, 'hn, 'iv, 'cx, 'cc, 'm) iqdb_core, 'm, 'ps, 'pa, 'x, 'fs) persist_lib"

section \<open>Storage\<close>

datatype ('co, 'ps) storage = Memory 'co | Persisted 'ps

fun storage_core ::
    "('co, 'm, 'ps, 'pa, 'x, 'fs) persist_lib \<Rightarrow> ('co, 'ps) storage \<Rightarrow> 'co" where
  "storage_core P (Memory core) = core"
| "storage_core P (Persisted p) = ps_index P p"

text \<open>\<open>core_mut\<close>: run an operation on the core in place.\<close>

fun storage_core_mut ::
    "('co, 'm, 'ps, 'pa, 'x, 'fs) persist_lib \<Rightarrow> ('co \<Rightarrow> 'r \<times> 'co) \<Rightarrow> ('co, 'ps) storage
      \<Rightarrow> 'r \<times> ('co, 'ps) storage" where
  "storage_core_mut P f (Memory core) = apsnd Memory (f core)"
| "storage_core_mut P f (Persisted p) = apsnd (\<lambda>core. Persisted (ps_set_index P core p)) (f (ps_index P p))"

fun storage_upsert ::
    "('fl, 'hn, 'iv, 'cx, 'cc, 'cs, 'm, 'p, 'h, 'z) core_lib
      \<Rightarrow> ('fl, 'hn, 'iv, 'cx, 'cc, 'm, 'ps, 'pa, 'x, 'fs) persistence
      \<Rightarrow> vector_id \<Rightarrow> vec \<Rightarrow> 'm option
      \<Rightarrow> (('fl, 'hn, 'iv, 'cx, 'cc, 'm) iqdb_core, 'ps) storage
      \<Rightarrow> ((error + unit) \<times> (('fl, 'hn, 'iv, 'cx, 'cc, 'm) iqdb_core, 'ps) storage) option" where
  "storage_upsert L P i v m (Memory core) =
     map_option (map_prod (map_err from_iqdb) Memory) (core_insert L i v m core)"
| "storage_upsert L P i v m (Persisted p) = map_option (apsnd Persisted) (ps_insert P i v m p)"

fun storage_delete ::
    "('fl, 'hn, 'iv, 'cx, 'cc, 'cs, 'm, 'p, 'h, 'z) core_lib
      \<Rightarrow> ('fl, 'hn, 'iv, 'cx, 'cc, 'm, 'ps, 'pa, 'x, 'fs) persistence
      \<Rightarrow> vector_id
      \<Rightarrow> (('fl, 'hn, 'iv, 'cx, 'cc, 'm) iqdb_core, 'ps) storage
      \<Rightarrow> ((error + unit) \<times> (('fl, 'hn, 'iv, 'cx, 'cc, 'm) iqdb_core, 'ps) storage) option" where
  "storage_delete L P i (Memory core) =
     map_option (map_prod (map_err from_iqdb) Memory) (core_delete L i core)"
| "storage_delete L P i (Persisted p) = map_option (apsnd Persisted) (ps_delete P i p)"

fun storage_checkpoint ::
    "('co, 'm, 'ps, 'pa, 'x, 'fs) persist_lib \<Rightarrow> ('co, 'ps) storage
      \<Rightarrow> (error + unit) \<times> ('co, 'ps) storage" where
  "storage_checkpoint P (Memory core) = (Inr (), Memory core)"
| "storage_checkpoint P (Persisted p) = apsnd Persisted (ps_checkpoint P p)"

section \<open>The lock\<close>

text \<open>
  A lock carries a poison flag: acquiring it when a writer panicked yields an error that holds
  the guard all the same.
\<close>

record 's rwlock =
  lk_poisoned :: bool
  lk_value :: 's

definition rwlock_new :: "'s \<Rightarrow> 's rwlock" where
  "rwlock_new s = \<lparr>lk_poisoned = False, lk_value = s\<rparr>"

definition lock_acquire :: "'s rwlock \<Rightarrow> 's + 's" where
  "lock_acquire l = (if lk_poisoned l then Inl (lk_value l) else Inr (lk_value l))"

text \<open>\<open>unwrap_or_else(|poison| poison.into_inner())\<close>.\<close>

definition recover :: "'s + 's \<Rightarrow> 's" where
  "recover r = (case r of Inr guard \<Rightarrow> guard | Inl poison \<Rightarrow> poison)"

lemma recover_acquire [simp]: "recover (lock_acquire l) = lk_value l"
  by (simp add: recover_def lock_acquire_def)

section \<open>The handle\<close>

record ('co, 'ps) iqdb =
  db_dim :: usize
  db_metric :: metric
  db_inner :: "('co, 'ps) storage rwlock"

text \<open>The handle's types over the modelled core engine.\<close>

type_synonym ('fl, 'hn, 'iv, 'cx, 'cc, 'm, 'ps) database =
  "(('fl, 'hn, 'iv, 'cx, 'cc, 'm) iqdb_core, 'ps) iqdb"

definition db_read :: "('co, 'ps) iqdb \<Rightarrow> ('co, 'ps) storage" where
  "db_read db = recover (lock_acquire (db_inner db))"

text \<open>\<open>write\<close> gives the guard; what is done under it ends in the lock again.\<close>

definition db_write ::
    "(('co, 'ps) storage \<Rightarrow> 'r \<times> ('co, 'ps) storage) \<Rightarrow> ('co, 'ps) iqdb \<Rightarrow> 'r \<times> ('co, 'ps) iqdb" where
  "db_write f db =
     apsnd (\<lambda>s. db\<lparr>db_inner := (db_inner db)\<lparr>lk_value := s\<rparr>\<rparr>)
       (f (recover (lock_acquire (db_inner db))))"

definition db_write_panicking ::
    "(('co, 'ps) storage \<Rightarrow> ('r \<times> ('co, 'ps) storage) option) \<Rightarrow> ('co, 'ps) iqdb
      \<Rightarrow> ('r \<times> ('co, 'ps) iqdb) option" where
  "db_write_panicking f db =
     map_option (apsnd (\<lambda>s. db\<lparr>db_inner := (db_inner db)\<lparr>lk_value := s\<rparr>\<rparr>))
       (f (recover (lock_acquire (db_inner db))))"

definition require_nonzero_dim :: "usize \<Rightarrow> error + unit" where
  "require_nonzero_dim d = (if d = 0 then Inl (Config ''dim must be non-zero'') else Inr ())"

definition check_dim :: "('co, 'ps) iqdb \<Rightarrow> usize \<Rightarrow> error + unit" where
  "check_dim db found =
     (if found = db_dim db then Inr () else Inl (Index (DimensionMismatch (db_dim db) found)))"

definition db_params ::
    "('p, 'flt) vocabulary \<Rightarrow> ('co, 'ps) iqdb \<Rightarrow> usize \<Rightarrow> 'flt option \<Rightarrow> 'p" where
  "db_params V db k flt = params_filter_update V flt (params_new V k (db_metric db))"

subsection \<open>Opening\<close>

definition open_in_memory_with ::
    "('fl, 'hn, 'iv, 'cx, 'cc, 'cs, 'm, 'p, 'h, 'z) core_lib \<Rightarrow> 'cc iqdb_config
      \<Rightarrow> error + ('fl, 'hn, 'iv, 'cx, 'cc, 'm, 'ps) database" where
  "open_in_memory_with L config =
     (case config_into_parts config of (d, mt, core_cfg, durability) \<Rightarrow>
        and_then (require_nonzero_dim d) (\<lambda>_.
        and_then (map_err from_iqdb (core_new L d mt core_cfg)) (\<lambda>core.
          Inr \<lparr>db_dim = d, db_metric = mt, db_inner = rwlock_new (Memory core)\<rparr>)))"

definition open_in_memory ::
    "('fl, 'hn, 'iv, 'cx, 'cc, 'cs, 'm, 'p, 'h, 'z) core_lib \<Rightarrow> usize
      \<Rightarrow> metric \<Rightarrow> error + ('fl, 'hn, 'iv, 'cx, 'cc, 'm, 'ps) database" where
  "open_in_memory L d mt = open_in_memory_with L (config_new d mt)"

definition persist_cfg ::
    "('co, 'm, 'ps, 'pa, 'x, 'fs) persist_lib \<Rightarrow> 'pa \<Rightarrow> durability
      \<Rightarrow> ('pa, 'x) persist_config_scheme" where
  "persist_cfg P path dur =
     (ps_config_new P path)\<lparr>pc_wal_enabled := True, pc_fsync_policy := du_fsync dur,
       pc_compression := du_compression dur\<rparr>"

definition open_with ::
    "('fl, 'hn, 'iv, 'cx, 'cc, 'cs, 'm, 'p, 'h, 'z) core_lib
      \<Rightarrow> ('fl, 'hn, 'iv, 'cx, 'cc, 'm, 'ps, 'pa, 'x, 'fs) persistence
      \<Rightarrow> 'pa \<Rightarrow> 'cc iqdb_config \<Rightarrow> 'fs
      \<Rightarrow> (error + ('fl, 'hn, 'iv, 'cx, 'cc, 'm, 'ps) database) option" where
  "open_with L P path config fs =
     (case config_into_parts config of (d, mt, core_cfg, durability) \<Rightarrow>
        (case require_nonzero_dim d of Inl e \<Rightarrow> Some (Inl e) | Inr _ \<Rightarrow>
           (let cache = cc_cache core_cfg; pcfg = persist_cfg P path durability in
            map_option (\<lambda>r. and_then r (\<lambda>storage.
                Inr \<lparr>db_dim = d, db_metric = mt, db_inner = rwlock_new storage\<rparr>))
            (if ps_exists P path fs then
               map_option (\<lambda>r. and_then r (\<lambda>persisted.
                   let core = ps_index P persisted in
                   if core_dim core \<noteq> d \<or> core_metric core \<noteq> mt
                   then Inl (Config ''reopened database dim/metric does not match the requested values'')
                   else if cache \<noteq> None then
                     (case core_set_cache L cache core of
                        (Inl e, _) \<Rightarrow> Inl (from_iqdb e)
                      | (Inr _, core') \<Rightarrow> Inr (Persisted (ps_set_index P core' persisted)))
                   else Inr (Persisted persisted)))
                 (ps_load P pcfg fs)
             else
               Some (and_then (map_err from_iqdb (core_new L d mt core_cfg)) (\<lambda>core.
                     and_then (ps_open_with P core pcfg fs) (\<lambda>p. Inr (Persisted p))))))))"

definition open_path ::
    "('fl, 'hn, 'iv, 'cx, 'cc, 'cs, 'm, 'p, 'h, 'z) core_lib
      \<Rightarrow> ('fl, 'hn, 'iv, 'cx, 'cc, 'm, 'ps, 'pa, 'x, 'fs) persistence
      \<Rightarrow> 'pa \<Rightarrow> usize \<Rightarrow> metric \<Rightarrow> 'fs
      \<Rightarrow> (error + ('fl, 'hn, 'iv, 'cx, 'cc, 'm, 'ps) database) option" where
  "open_path L P path d mt fs = open_with L P path (config_new d mt) fs"

subsection \<open>Reads\<close>

definition iqdb_dim :: "('co, 'ps) iqdb \<Rightarrow> usize" where
  [simp]: "iqdb_dim db = db_dim db"

definition iqdb_metric :: "('co, 'ps) iqdb \<Rightarrow> metric" where
  [simp]: "iqdb_metric db = db_metric db"

definition db_len ::
    "('fl, 'hn, 'iv, 'cx, 'cc, 'm, 'ps, 'pa, 'x, 'fs) persistence
      \<Rightarrow> ('fl, 'hn, 'iv, 'cx, 'cc, 'm, 'ps) database \<Rightarrow> usize" where
  "db_len P db = core_len (storage_core P (db_read db))"

definition db_is_empty ::
    "('fl, 'hn, 'iv, 'cx, 'cc, 'm, 'ps, 'pa, 'x, 'fs) persistence
      \<Rightarrow> ('fl, 'hn, 'iv, 'cx, 'cc, 'm, 'ps) database \<Rightarrow> bool" where
  "db_is_empty P db \<longleftrightarrow> core_is_empty (storage_core P (db_read db))"

definition db_get ::
    "('fl, 'hn, 'iv, 'cx, 'cc, 'm, 'ps, 'pa, 'x, 'fs) persistence
      \<Rightarrow> ('p, 'flt) vocabulary
      \<Rightarrow> ('fl, 'hn, 'iv, 'cx, 'cc, 'm, 'ps) database \<Rightarrow> vector_id
      \<Rightarrow> (error + (vec \<times> 'm option) option) option" where
  "db_get P V db i =
     map_option
       (\<lambda>found. case found of
          None \<Rightarrow> Inr None
        | Some (vector, m) \<Rightarrow>
            and_then (map_err from_iqdb (vector_new V vector)) (\<lambda>vector. Inr (Some (vector, m))))
       (core_get_row (storage_core P (db_read db)) i)"

definition db_cache_stats ::
    "('fl, 'hn, 'iv, 'cx, 'cc, 'cs, 'm, 'p, 'h, 'z) core_lib
      \<Rightarrow> ('fl, 'hn, 'iv, 'cx, 'cc, 'm, 'ps, 'pa, 'x, 'fs) persistence
      \<Rightarrow> ('fl, 'hn, 'iv, 'cx, 'cc, 'm, 'ps) database \<Rightarrow> 'cs option" where
  "db_cache_stats L P db = core_cache_stats L (storage_core P (db_read db))"

subsection \<open>Writes\<close>

definition db_upsert ::
    "('fl, 'hn, 'iv, 'cx, 'cc, 'cs, 'm, 'p, 'h, 'z) core_lib
      \<Rightarrow> ('fl, 'hn, 'iv, 'cx, 'cc, 'm, 'ps, 'pa, 'x, 'fs) persistence
      \<Rightarrow> vector_id \<Rightarrow> vec \<Rightarrow> 'm option
      \<Rightarrow> ('fl, 'hn, 'iv, 'cx, 'cc, 'm, 'ps) database
      \<Rightarrow> ((error + unit) \<times> ('fl, 'hn, 'iv, 'cx, 'cc, 'm, 'ps) database) option" where
  "db_upsert L P i v m db =
     (case check_dim db (length v) of
        Inl e \<Rightarrow> Some (Inl e, db)
      | Inr _ \<Rightarrow> db_write_panicking (storage_upsert L P i v m) db)"

definition db_delete ::
    "('fl, 'hn, 'iv, 'cx, 'cc, 'cs, 'm, 'p, 'h, 'z) core_lib
      \<Rightarrow> ('fl, 'hn, 'iv, 'cx, 'cc, 'm, 'ps, 'pa, 'x, 'fs) persistence
      \<Rightarrow> vector_id \<Rightarrow> ('fl, 'hn, 'iv, 'cx, 'cc, 'm, 'ps) database
      \<Rightarrow> ((error + bool) \<times> ('fl, 'hn, 'iv, 'cx, 'cc, 'm, 'ps) database) option" where
  "db_delete L P i db =
     db_write_panicking (\<lambda>guard.
       let existed = core_contains (storage_core P guard) i in
       map_option (apfst (map_sum (\<lambda>e. e) (\<lambda>_. existed))) (storage_delete L P i guard)) db"

definition db_optimize ::
    "('fl, 'hn, 'iv, 'cx, 'cc, 'cs, 'm, 'p, 'h, 'z) core_lib
      \<Rightarrow> ('fl, 'hn, 'iv, 'cx, 'cc, 'm, 'ps, 'pa, 'x, 'fs) persistence
      \<Rightarrow> ('fl, 'hn, 'iv, 'cx, 'cc, 'm, 'ps) database
      \<Rightarrow> (error + unit) \<times> ('fl, 'hn, 'iv, 'cx, 'cc, 'm, 'ps) database" where
  "db_optimize L P db =
     apfst (map_err from_iqdb) (db_write (storage_core_mut P (core_optimize L)) db)"

definition db_flush ::
    "('fl, 'hn, 'iv, 'cx, 'cc, 'm, 'ps, 'pa, 'x, 'fs) persistence
      \<Rightarrow> ('fl, 'hn, 'iv, 'cx, 'cc, 'm, 'ps) database
      \<Rightarrow> (error + unit) \<times> ('fl, 'hn, 'iv, 'cx, 'cc, 'm, 'ps) database" where
  "db_flush P db = db_write (storage_checkpoint P) db"

text \<open>\<open>close\<close> consumes the handle; what stays is the storage it leaves behind.\<close>

definition db_close ::
    "('fl, 'hn, 'iv, 'cx, 'cc, 'm, 'ps, 'pa, 'x, 'fs) persistence
      \<Rightarrow> ('fl, 'hn, 'iv, 'cx, 'cc, 'm, 'ps) database
      \<Rightarrow> (error + unit) \<times> (('fl, 'hn, 'iv, 'cx, 'cc, 'm) iqdb_core, 'ps) storage" where
  "db_close P db = storage_checkpoint P (recover (lock_acquire (db_inner db)))"

subsection \<open>Searches\<close>

text \<open>
  The search of a guard's core. It runs behind a shared reference; the state it leaves
  differs in what the cache remembers.
\<close>

definition storage_search ::
    "('fl, 'hn, 'iv, 'cx, 'cc, 'cs, 'm, 'p, 'h, 'z) core_lib
      \<Rightarrow> ('fl, 'hn, 'iv, 'cx, 'cc, 'm, 'ps, 'pa, 'x, 'fs) persistence
      \<Rightarrow> vec \<Rightarrow> 'p
      \<Rightarrow> (('fl, 'hn, 'iv, 'cx, 'cc, 'm) iqdb_core, 'ps) storage
      \<Rightarrow> (error + 'h list) \<times> (('fl, 'hn, 'iv, 'cx, 'cc, 'm) iqdb_core, 'ps) storage" where
  "storage_search L P q params guard =
     apfst (map_err from_iqdb) (storage_core_mut P (core_search L q params) guard)"

text \<open>
  \<open>search_inner\<close> has two critical sections. The first, under the read guard, answers unless
  the IVF index has to be built (\<open>None\<close>); the second, under the write guard, builds it.
\<close>

definition search_fast ::
    "('fl, 'hn, 'iv, 'cx, 'cc, 'cs, 'm, 'p, 'h, 'z) core_lib
      \<Rightarrow> ('fl, 'hn, 'iv, 'cx, 'cc, 'm, 'ps, 'pa, 'x, 'fs) persistence
      \<Rightarrow> ('p, 'flt) vocabulary \<Rightarrow> vec \<Rightarrow> usize
      \<Rightarrow> 'flt option \<Rightarrow> ('fl, 'hn, 'iv, 'cx, 'cc, 'm, 'ps) database
      \<Rightarrow> (error + 'h list) option \<times> ('fl, 'hn, 'iv, 'cx, 'cc, 'm, 'ps) database" where
  "search_fast L P V q k flt db =
     db_write (\<lambda>guard.
       if core_is_empty (storage_core P guard) then (Some (Inr []), guard)
       else if \<not> core_needs_materialization (storage_core P guard)
       then apfst Some (storage_search L P q (db_params V db k flt) guard)
       else (None, guard)) db"

definition search_slow ::
    "('fl, 'hn, 'iv, 'cx, 'cc, 'cs, 'm, 'p, 'h, 'z) core_lib
      \<Rightarrow> ('fl, 'hn, 'iv, 'cx, 'cc, 'm, 'ps, 'pa, 'x, 'fs) persistence
      \<Rightarrow> ('p, 'flt) vocabulary \<Rightarrow> vec \<Rightarrow> usize
      \<Rightarrow> 'flt option \<Rightarrow> ('fl, 'hn, 'iv, 'cx, 'cc, 'm, 'ps) database
      \<Rightarrow> (error + 'h list) \<times> ('fl, 'hn, 'iv, 'cx, 'cc, 'm, 'ps) database" where
  "search_slow L P V q k flt db =
     db_write (\<lambda>guard.
       if core_is_empty (storage_core P guard) then (Inr [], guard)
       else case storage_core_mut P (core_ensure_ready L) guard of
         (Inl e, guard') \<Rightarrow> (Inl (from_iqdb e), guard')
       | (Inr _, guard') \<Rightarrow> storage_search L P q (db_params V db k flt) guard') db"

definition search_inner ::
    "('fl, 'hn, 'iv, 'cx, 'cc, 'cs, 'm, 'p, 'h, 'z) core_lib
      \<Rightarrow> ('fl, 'hn, 'iv, 'cx, 'cc, 'm, 'ps, 'pa, 'x, 'fs) persistence
      \<Rightarrow> ('p, 'flt) vocabulary \<Rightarrow> vec \<Rightarrow> usize
      \<Rightarrow> 'flt option \<Rightarrow> ('fl, 'hn, 'iv, 'cx, 'cc, 'm, 'ps) database
      \<Rightarrow> (error + 'h list) \<times> ('fl, 'hn, 'iv, 'cx, 'cc, 'm, 'ps) database" where
  "search_inner L P V q k flt db =
     (case check_dim db (length q) of
        Inl e \<Rightarrow> (Inl e, db)
      | Inr _ \<Rightarrow>
          (case search_fast L P V q k flt db of
             (Some res, db') \<Rightarrow> (res, db')
           | (None, db') \<Rightarrow> search_slow L P V q k flt db'))"

definition db_search ::
    "('fl, 'hn, 'iv, 'cx, 'cc, 'cs, 'm, 'p, 'h, 'z) core_lib
      \<Rightarrow> ('fl, 'hn, 'iv, 'cx, 'cc, 'm, 'ps, 'pa, 'x, 'fs) persistence
      \<Rightarrow> ('p, 'flt) vocabulary \<Rightarrow> vec \<Rightarrow> usize
      \<Rightarrow> ('fl, 'hn, 'iv, 'cx, 'cc, 'm, 'ps) database
      \<Rightarrow> (error + 'h list) \<times> ('fl, 'hn, 'iv, 'cx, 'cc, 'm, 'ps) database" where
  "db_search L P V q k db = search_inner L P V q k None db"

definition db_search_with ::
    "('fl, 'hn, 'iv, 'cx, 'cc, 'cs, 'm, 'p, 'h, 'z) core_lib
      \<Rightarrow> ('fl, 'hn, 'iv, 'cx, 'cc, 'm, 'ps, 'pa, 'x, 'fs) persistence
      \<Rightarrow> ('p, 'flt) vocabulary \<Rightarrow> vec \<Rightarrow> usize
      \<Rightarrow> 'flt \<Rightarrow> ('fl, 'hn, 'iv, 'cx, 'cc, 'm, 'ps) database
      \<Rightarrow> (error + 'h list) \<times> ('fl, 'hn, 'iv, 'cx, 'cc, 'm, 'ps) database" where
  "db_search_with L P V q k flt db = search_inner L P V q k (Some flt) db"

text \<open>Collecting into a \<open>Result\<close> stops at the first error.\<close>

primrec search_all ::
    "(vec \<Rightarrow> 'd \<Rightarrow> (error + 'h list) \<times> 'd) \<Rightarrow> vec list
      \<Rightarrow> 'd \<Rightarrow> (error + 'h list list) \<times> 'd" where
  "search_all search [] db = (Inr [], db)"
| "search_all search (q # qs) db =
     (case search q db of
        (Inl e, db') \<Rightarrow> (Inl e, db')
      | (Inr hits, db') \<Rightarrow> apfst (map_sum (\<lambda>e. e) (\<lambda>rest. hits # rest)) (search_all search qs db'))"

definition db_search_batch ::
    "('fl, 'hn, 'iv, 'cx, 'cc, 'cs, 'm, 'p, 'h, 'z) core_lib
      \<Rightarrow> ('fl, 'hn, 'iv, 'cx, 'cc, 'm, 'ps, 'pa, 'x, 'fs) persistence
      \<Rightarrow> ('p, 'flt) vocabulary \<Rightarrow> vec list \<Rightarrow> usize
      \<Rightarrow> ('fl, 'hn, 'iv, 'cx, 'cc, 'm, 'ps) database
      \<Rightarrow> (error + 'h list list) \<times> ('fl, 'hn, 'iv, 'cx, 'cc, 'm, 'ps) database" where
  "db_search_batch L P V queries k db = search_all (\<lambda>q. db_search L P V q k) queries db"

definition db_search_batch_with ::
    "('fl, 'hn, 'iv, 'cx, 'cc, 'cs, 'm, 'p, 'h, 'z) core_lib
      \<Rightarrow> ('fl, 'hn, 'iv, 'cx, 'cc, 'm, 'ps, 'pa, 'x, 'fs) persistence
      \<Rightarrow> ('p, 'flt) vocabulary \<Rightarrow> vec list \<Rightarrow> usize
      \<Rightarrow> 'flt \<Rightarrow> ('fl, 'hn, 'iv, 'cx, 'cc, 'm, 'ps) database
      \<Rightarrow> (error + 'h list list) \<times> ('fl, 'hn, 'iv, 'cx, 'cc, 'm, 'ps) database" where
  "db_search_batch_with L P V queries k flt db =
     search_all (\<lambda>q. db_search_with L P V q k flt) queries db"

end
