(* ===== verification/Iqdb_Handle_Laws.thy ===== *)
theory Iqdb_Handle_Laws
  imports Iqdb_Handle Iqdb_Core_Sim
begin

text \<open>
  Facts about the handle: what its operations do to the core inside, that an in-memory handle
  implements the map interface, and that the second critical section of a search alone is the
  whole search.
\<close>

text \<open>The core of a handle, and what it stores.\<close>

definition db_core ::
    "('fl, 'hn, 'iv, 'cx, 'cc, 'm, 'ps, 'pa, 'x, 'fs) persistence
      \<Rightarrow> ('fl, 'hn, 'iv, 'cx, 'cc, 'm, 'ps) database
      \<Rightarrow> ('fl, 'hn, 'iv, 'cx, 'cc, 'm) iqdb_core" where
  "db_core P db = storage_core P (lk_value (db_inner db))"

abbreviation db_contents where
  "db_contents P db \<equiv> core_contents (db_core P db)"

text \<open>\<open>index\<close> and \<open>index_mut\<close> refer to one and the same field.\<close>

definition persist_field :: "('co, 'm, 'ps, 'pa, 'x, 'fs) persist_lib \<Rightarrow> bool" where
  "persist_field P \<longleftrightarrow>
     (\<forall>c p. ps_index P (ps_set_index P c p) = c) \<and> (\<forall>p. ps_set_index P (ps_index P p) p = p)"

lemma db_read_core [simp]: "storage_core P (db_read db) = db_core P db"
  by (simp add: db_read_def db_core_def)

definition db_set :: "('co, 'ps) storage \<Rightarrow> ('co, 'ps) iqdb \<Rightarrow> ('co, 'ps) iqdb" where
  "db_set s db = db\<lparr>db_inner := (db_inner db)\<lparr>lk_value := s\<rparr>\<rparr>"

lemma db_set_sel [simp]:
  "db_dim (db_set s db) = db_dim db" "db_metric (db_set s db) = db_metric db"
  "lk_value (db_inner (db_set s db)) = s" "lk_poisoned (db_inner (db_set s db)) = lk_poisoned (db_inner db)"
  "db_core P (db_set s db) = storage_core P s"
  by (simp_all add: db_set_def db_core_def)

lemma db_set_same [simp]: "db_set (lk_value (db_inner db)) db = db"
  by (simp add: db_set_def)

lemma db_set_set [simp]: "db_set s (db_set s' db) = db_set s db"
  by (simp add: db_set_def)

lemma db_write_eq: "db_write f db = apsnd (\<lambda>s. db_set s db) (f (lk_value (db_inner db)))"
  by (simp add: db_write_def db_set_def)

lemma db_write_panicking_eq:
  "db_write_panicking f db = map_option (apsnd (\<lambda>s. db_set s db)) (f (lk_value (db_inner db)))"
  by (simp add: db_write_panicking_def db_set_def)

lemma core_mut_core:
  assumes "persist_field P" and "storage_core_mut P f s = (r, s')"
  shows "f (storage_core P s) = (r, storage_core P s')"
  using assms by (cases s) (auto simp: apsnd_eq persist_field_def)

lemma core_mut_same:
  assumes "persist_field P" and "f (storage_core P s) = (r, storage_core P s)"
  shows "storage_core_mut P f s = (r, s)"
  using assms by (cases s) (simp_all add: persist_field_def)

section \<open>Searching\<close>

text \<open>
  What the second critical section does is right in every state: if the index needs no build
  it gives the first section's answer. So it does not matter what other threads do to the
  database between the two.
\<close>

lemma search_fast_none:
  assumes "search_fast L P V q k flt db = (None, db')"
  shows "db' = db \<and> core_needs_materialization (db_core P db) \<and> \<not> core_is_empty (db_core P db)"
  using assms by (auto simp: search_fast_def db_write_eq apsnd_eq apfst_def map_prod_def db_core_def
      split: if_splits prod.splits)

lemma search_fast_slow:
  assumes field: "persist_field P" and fast: "search_fast L P V q k flt db = (Some res, db')"
  shows "search_slow L P V q k flt db = (res, db')"
proof -
  let ?s = "lk_value (db_inner db)"
  show ?thesis
  proof (cases "core_is_empty (storage_core P ?s)")
    case True
    with fast show ?thesis by (auto simp: search_fast_def search_slow_def db_write_eq)
  next
    case False
    with fast have clean: "\<not> core_needs_materialization (storage_core P ?s)"
      by (auto simp: search_fast_def db_write_eq split: if_splits)
    then have "core_ensure_ready L (storage_core P ?s) = (Inr (), storage_core P ?s)"
      by (simp add: core_ensure_ready_def core_needs_materialization_def)
    then have "storage_core_mut P (core_ensure_ready L) ?s = (Inr (), ?s)"
      by (rule core_mut_same [OF field])
    with False clean fast show ?thesis
      by (auto simp: search_fast_def search_slow_def db_write_eq apsnd_eq apfst_def map_prod_def
          split: prod.splits)
  qed
qed

lemma search_inner_slow:
  assumes "persist_field P" and "length q = db_dim db"
  shows "search_inner L P V q k flt db = search_slow L P V q k flt db"
proof -
  obtain r db' where fast: "search_fast L P V q k flt db = (r, db')" by fastforce
  with assms search_fast_none [of L P V q k flt db db'] search_fast_slow [OF assms(1), of L V q k flt db _ db']
  show ?thesis by (cases r) (auto simp: search_inner_def check_dim_def)
qed

section \<open>The core under a handle's operations\<close>

lemma storage_search_core:
  assumes "persist_field P" and "storage_search L P q p s = (res, s')"
  shows "\<exists>r. core_search L q p (storage_core P s) = (r, storage_core P s') \<and> res = map_err from_iqdb r"
proof -
  obtain r s2 where run: "storage_core_mut P (core_search L q p) s = (r, s2)" by fastforce
  with assms(2) have "res = map_err from_iqdb r" "s' = s2" by (simp_all add: storage_search_def)
  with core_mut_core [OF assms(1) run] show ?thesis by blast
qed

lemma search_slow_core:
  assumes field: "persist_field P" and run: "search_slow L P V q k flt db = (res, db')"
  obtains (empty) "core_is_empty (db_core P db)" "res = Inr []" "db' = db"
    | (failed) e where "core_ensure_ready L (db_core P db) = (Inl e, db_core P db')" "res = Inl (Index e)"
    | (searched) c1 r where "\<not> core_is_empty (db_core P db)"
        "core_ensure_ready L (db_core P db) = (Inr (), c1)"
        "core_search L q (db_params V db k flt) c1 = (r, db_core P db')" "res = map_err from_iqdb r"
proof -
  let ?s = "lk_value (db_inner db)"
  show thesis
  proof (cases "core_is_empty (storage_core P ?s)")
    case True
    with run have "res = Inr []" "db' = db" by (auto simp: search_slow_def db_write_eq)
    with True empty show thesis by (simp add: db_core_def)
  next
    case False
    obtain r1 s1 where er: "storage_core_mut P (core_ensure_ready L) ?s = (r1, s1)" by fastforce
    note c1 = core_mut_core [OF field er]
    show thesis
    proof (cases r1)
      case (Inl e)
      with run False er have "res = Inl (Index e)" "db' = db_set s1 db"
        by (auto simp: search_slow_def db_write_eq from_iqdb_def)
      with c1 Inl failed [of e] show thesis by (simp add: db_core_def)
    next
      case (Inr u)
      obtain res2 s2 where se: "storage_search L P q (db_params V db k flt) s1 = (res2, s2)" by fastforce
      with run False er Inr have eqs: "res = res2" "db' = db_set s2 db"
        by (auto simp: search_slow_def db_write_eq)
      from storage_search_core [OF field se] obtain r where
        "core_search L q (db_params V db k flt) (storage_core P s1) = (r, storage_core P s2)"
        "res2 = map_err from_iqdb r" by blast
      with eqs c1 Inr False searched [of "storage_core P s1" r] show thesis
        by (simp add: db_core_def)
    qed
  qed
qed

section \<open>An in-memory handle implements the map interface\<close>

definition in_memory ::
    "('fl, 'hn, 'iv, 'cx, 'cc, 'm, 'ps) database \<Rightarrow> bool" where
  "in_memory db \<longleftrightarrow> (\<exists>c. lk_value (db_inner db) = Memory c \<and> core_store_ok c)"

definition db_put ::
    "('fl, 'hn, 'iv, 'cx, 'cc, 'cs, 'm, 'p, 'h, 'z) core_lib
      \<Rightarrow> ('fl, 'hn, 'iv, 'cx, 'cc, 'm, 'ps, 'pa, 'x, 'fs) persistence
      \<Rightarrow> vector_id \<Rightarrow> vec \<times> 'm option
      \<Rightarrow> ('fl, 'hn, 'iv, 'cx, 'cc, 'm, 'ps) database
      \<Rightarrow> ('fl, 'hn, 'iv, 'cx, 'cc, 'm, 'ps) database option" where
  "db_put L P i vm db = map_option snd (db_upsert L P i (fst vm) (snd vm) db)"

definition db_del ::
    "('fl, 'hn, 'iv, 'cx, 'cc, 'cs, 'm, 'p, 'h, 'z) core_lib
      \<Rightarrow> ('fl, 'hn, 'iv, 'cx, 'cc, 'm, 'ps, 'pa, 'x, 'fs) persistence
      \<Rightarrow> vector_id \<Rightarrow> ('fl, 'hn, 'iv, 'cx, 'cc, 'm, 'ps) database
      \<Rightarrow> ('fl, 'hn, 'iv, 'cx, 'cc, 'm, 'ps) database option" where
  "db_del L P i db = map_option snd (db_delete L P i db)"

lemma db_upsert_memory:
  assumes "in_memory db" and "length v = db_dim db"
  shows "\<exists>res db'. db_upsert L P i v m db = Some (res, db') \<and> in_memory db'
    \<and> db_contents P db' = (db_contents P db)(i \<mapsto> (v, m)) \<and> db_dim db' = db_dim db"
proof -
  from assms(1) obtain c where c: "lk_value (db_inner db) = Memory c" "core_store_ok c"
    by (auto simp: in_memory_def)
  from core_insert_store [OF c(2), of L i v m] obtain r c' where
    "core_insert L i v m c = Some (r, c')" "core_store_ok c'"
    "core_contents c' = (core_contents c)(i \<mapsto> (v, m))" by blast
  with c assms(2) show ?thesis
    by (simp add: db_upsert_def check_dim_def db_write_panicking_eq in_memory_def)
      (simp add: db_core_def)
qed

lemma db_delete_memory:
  assumes "in_memory db"
  shows "\<exists>res db'. db_delete L P i db = Some (res, db') \<and> in_memory db'
    \<and> db_contents P db' = (db_contents P db)(i := None) \<and> db_dim db' = db_dim db
    \<and> (is_ok res \<longrightarrow> res = Inr (i \<in> dom (db_contents P db)))"
proof -
  from assms(1) obtain c where c: "lk_value (db_inner db) = Memory c" "core_store_ok c"
    by (auto simp: in_memory_def)
  from core_delete_store [OF c(2), of L i] obtain r c' where
    run: "core_delete L i c = Some (r, c')" "core_store_ok c'"
    "core_contents c' = (core_contents c)(i := None)" by blast
  have ex: "core_contains c i \<longleftrightarrow> i \<in> dom (core_contents c)"
    using dom_store_contents [OF c(2)] by (auto simp: core_contains_def store_contains_def)
  have "is_ok (map_err from_iqdb r) = is_ok r" by (cases r) (simp_all add: map_err_def)
  then have "is_ok (map_sum (\<lambda>e. e) (\<lambda>_. core_contains c i) (map_err from_iqdb r)) \<Longrightarrow>
      map_sum (\<lambda>e. e) (\<lambda>_. core_contains c i) (map_err from_iqdb r) = Inr (i \<in> dom (core_contents c))"
    by (cases r) (simp_all add: map_err_def ex)
  with c run show ?thesis
    by (simp add: db_delete_def db_write_panicking_eq in_memory_def) (simp add: db_core_def)
qed

interpretation mem: keyed_store in_memory "\<lambda>db vm. length (fst vm) = db_dim db" "db_contents P"
    "db_put L P" "db_del L P" "db_len P"
  for L :: "('fl, 'hn, 'iv, 'cx, 'cc, 'cs, 'm, 'p, 'h, 'z) core_lib"
    and P :: "(('fl, 'hn, 'iv, 'cx, 'cc, 'm) iqdb_core, 'm, 'ps, 'pa, 'x, 'fs) persist_lib"
proof
  fix db :: "(('fl, 'hn, 'iv, 'cx, 'cc, 'm) iqdb_core, 'ps) iqdb" and i and vm :: "vec \<times> 'm option"
  assume mem: "in_memory db"
  show "\<exists>db'. db_del L P i db = Some db' \<and> in_memory db'
      \<and> db_contents P db' = (db_contents P db)(i := None)
      \<and> (\<lambda>vm. length (fst vm) = db_dim db') = (\<lambda>vm. length (fst vm) = db_dim db)"
    using db_delete_memory [OF mem, of L P i] by (auto simp: db_del_def)
  show "db_len P db = card (dom (db_contents P db))"
    using mem by (auto simp: db_len_def in_memory_def db_core_def core_len_def store_len_card)
  assume "length (fst vm) = db_dim db"
  from db_upsert_memory [OF mem this, of L P i "snd vm"]
  show "\<exists>db'. db_put L P i vm db = Some db' \<and> in_memory db'
      \<and> db_contents P db' = (db_contents P db)(i \<mapsto> vm)
      \<and> (\<lambda>vm. length (fst vm) = db_dim db') = (\<lambda>vm. length (fst vm) = db_dim db)"
    by (auto simp: db_put_def)
qed

end
