(* ===== verification/Iqdb_Calls.thy ===== *)
theory Iqdb_Calls
  imports Iqdb_Handle_Laws
begin

text \<open>
  The calls of a handle as data: what one call does (\<open>db_exec\<close>), what a sequence of them
  does (\<open>db_run\<close>), which of them leave the stored data alone, and what all of them keep.
  A batch search is a sequence of searches, so it has no call of its own.
\<close>

section \<open>Calls\<close>

datatype ('m, 'flt) db_op =
    OUpsert vector_id vec "'m option"
  | OGet vector_id
  | ODelete vector_id
  | OSearch vec usize "'flt option"
  | OLen
  | OOptimize
  | OFlush

datatype ('m, 'h) db_out =
    OutUnit
  | OutRow "(vec \<times> 'm option) option"
  | OutBool bool
  | OutHits "'h list"
  | OutLen usize

fun db_exec ::
    "('fl, 'hn, 'iv, 'cx, 'cc, 'cs, 'm, 'p, 'h, 'z) core_lib
      \<Rightarrow> ('fl, 'hn, 'iv, 'cx, 'cc, 'm, 'ps, 'pa, 'x, 'fs) persistence
      \<Rightarrow> ('p, 'flt) vocabulary \<Rightarrow> ('m, 'flt) db_op
      \<Rightarrow> ('fl, 'hn, 'iv, 'cx, 'cc, 'm, 'ps) database
      \<Rightarrow> ((error + ('m, 'h) db_out) \<times> ('fl, 'hn, 'iv, 'cx, 'cc, 'm, 'ps) database) option" where
  "db_exec L P V (OUpsert i v m) db = map_option (apfst (map_sum (\<lambda>e. e) (\<lambda>_. OutUnit))) (db_upsert L P i v m db)"
| "db_exec L P V (OGet i) db = map_option (\<lambda>r. (map_sum (\<lambda>e. e) OutRow r, db)) (db_get P V db i)"
| "db_exec L P V (ODelete i) db = map_option (apfst (map_sum (\<lambda>e. e) OutBool)) (db_delete L P i db)"
| "db_exec L P V (OSearch q k flt) db = Some (apfst (map_sum (\<lambda>e. e) OutHits) (search_inner L P V q k flt db))"
| "db_exec L P V OLen db = Some (Inr (OutLen (db_len P db)), db)"
| "db_exec L P V OOptimize db = Some (apfst (map_sum (\<lambda>e. e) (\<lambda>_. OutUnit)) (db_optimize L P db))"
| "db_exec L P V OFlush db = Some (apfst (map_sum (\<lambda>e. e) (\<lambda>_. OutUnit)) (db_flush P db))"

primrec db_run ::
    "('fl, 'hn, 'iv, 'cx, 'cc, 'cs, 'm, 'p, 'h, 'z) core_lib
      \<Rightarrow> ('fl, 'hn, 'iv, 'cx, 'cc, 'm, 'ps, 'pa, 'x, 'fs) persistence
      \<Rightarrow> ('p, 'flt) vocabulary \<Rightarrow> ('m, 'flt) db_op list
      \<Rightarrow> ('fl, 'hn, 'iv, 'cx, 'cc, 'm, 'ps) database
      \<Rightarrow> ((error + ('m, 'h) db_out) list \<times> ('fl, 'hn, 'iv, 'cx, 'cc, 'm, 'ps) database) option" where
  "db_run L P V [] db = Some ([], db)"
| "db_run L P V (op # ops) db =
     Option.bind (db_exec L P V op db) (\<lambda>(r, db'). map_option (apfst ((#) r)) (db_run L P V ops db'))"

lemma db_run_snoc:
  "db_run L P V ops db = Some (rs, db1) \<Longrightarrow> db_exec L P V op db1 = Some (r, db2) \<Longrightarrow>
     db_run L P V (ops @ [op]) db = Some (rs @ [r], db2)"
proof (induction ops arbitrary: db rs)
  case (Cons x xs)
  from Cons.prems(1) obtain r1 db' rs' where
    x: "db_exec L P V x db = Some (r1, db')" "db_run L P V xs db' = Some (rs', db1)" "rs = r1 # rs'"
    by (auto split: Option.bind_splits)
  from Cons.IH [OF x(2) Cons.prems(2)] x show ?case by simp
qed simp

section \<open>What the calls keep\<close>

lemma db_exec_dim:
  "db_exec L P V op db = Some (r, db') \<Longrightarrow> db_dim db' = db_dim db"
  by (cases op) (auto simp: db_upsert_def db_delete_def search_inner_def search_fast_def search_slow_def
      db_optimize_def db_flush_def db_write_eq db_write_panicking_eq apsnd_eq apfst_def map_prod_def
      split: sum.splits prod.splits option.splits)

section \<open>What leaves the stored data alone\<close>

lemma search_section_dim:
  "search_fast L P V q k flt db = (x, db') \<Longrightarrow> db_dim db' = db_dim db"
  "search_slow L P V q k flt db = (y, db') \<Longrightarrow> db_dim db' = db_dim db"
  by (auto simp: search_fast_def search_slow_def db_write_eq apsnd_eq)

definition core_frame ::
    "('fl, 'hn, 'iv, 'cx, 'cc, 'm) iqdb_core \<Rightarrow> ('fl, 'hn, 'iv, 'cx, 'cc, 'm) iqdb_core
      \<Rightarrow> bool" where
  "core_frame c c' \<longleftrightarrow>
     co_store c' = co_store c \<and> co_dim c' = co_dim c \<and> co_metric c' = co_metric c \<and> co_kind c' = co_kind c"

lemma core_frame_refl [simp]: "core_frame c c"
  by (simp add: core_frame_def)

lemma core_frame_trans: "core_frame a b \<Longrightarrow> core_frame b c \<Longrightarrow> core_frame a c"
  by (simp add: core_frame_def)

lemma core_search_frame: "core_search L q p c = (r, c') \<Longrightarrow> core_frame c c'"
  by (auto simp: core_search_def apsnd_eq core_frame_def)

lemma core_ensure_ready_frame: "core_ensure_ready L c = (r, c') \<Longrightarrow> core_frame c c'"
  by (erule core_ensure_ready_cases) (simp_all add: core_frame_def)

lemma core_optimize_frame:
  assumes "core_optimize L c = (r, c')"
  shows "core_frame c c'"
proof -
  have "core_frame c (case co_kind c of Ivf _ \<Rightarrow> c\<lparr>co_ivf_dirty := True\<rparr> | Flat \<Rightarrow> c | Hnsw _ \<Rightarrow> c)"
    by (simp add: core_frame_def split: index_kind.split)
  moreover note core_ensure_ready_frame [OF assms [unfolded core_optimize_def]]
  ultimately show ?thesis by (rule core_frame_trans)
qed

lemma core_set_cache_frame: "core_set_cache L cache c = (r, c') \<Longrightarrow> core_frame c c'"
  by (auto simp: core_set_cache_def Let_def core_frame_def split: sum.splits)

text \<open>A search through the handle.\<close>

lemma search_slow_frame:
  assumes "persist_field P" and "search_slow L P V q k flt db = (res, db')"
  shows "core_frame (db_core P db) (db_core P db')"
  using assms
proof (cases rule: search_slow_core)
  case (failed e)
  then show ?thesis by (blast intro: core_ensure_ready_frame)
next
  case (searched c1 r)
  then show ?thesis by (blast intro: core_frame_trans core_ensure_ready_frame core_search_frame)
qed simp

lemma search_inner_frame:
  assumes "persist_field P" and "search_inner L P V q k flt db = (res, db')"
  shows "core_frame (db_core P db) (db_core P db')"
proof (cases "length q = db_dim db")
  case True
  with assms show ?thesis by (simp add: search_inner_slow search_slow_frame)
next
  case False
  with assms(2) show ?thesis by (simp add: search_inner_def check_dim_def)
qed

section \<open>An in-memory handle under any call\<close>

text \<open>
  An in-memory handle stays one, no call panics, and every stored vector keeps the dimension
  of the handle.
\<close>

definition mem_typed ::
    "('fl, 'hn, 'iv, 'cx, 'cc, 'm, 'ps) database \<Rightarrow> bool" where
  "mem_typed db \<longleftrightarrow>
     (\<exists>c. lk_value (db_inner db) = Memory c \<and> core_store_ok c
        \<and> (\<forall>vm \<in> ran (core_contents c). length (fst vm) = db_dim db))"

lemma mem_typed_frame:
  assumes "mem_typed db" and "lk_value (db_inner db) = Memory c" and "core_frame c c'"
  shows "mem_typed (db_set (Memory c') db)"
  using assms by (auto simp: mem_typed_def core_frame_def)

lemma core_mut_memory:
  "storage_core_mut P f (Memory c) = (r, s) \<Longrightarrow> \<exists>c'. s = Memory c' \<and> f c = (r, c')"
  by (auto simp: apsnd_eq)

lemma search_slow_typed:
  assumes mem: "mem_typed db" and run: "search_slow L P V q k flt db = (res, db')"
  shows "mem_typed db'"
proof -
  from mem obtain c where c: "lk_value (db_inner db) = Memory c" by (auto simp: mem_typed_def)
  obtain r1 c1 where er: "core_ensure_ready L c = (r1, c1)" by fastforce
  obtain r2 c2 where se: "core_search L q (db_params V db k flt) c1 = (r2, c2)" by fastforce
  note frames = core_ensure_ready_frame [OF er] core_search_frame [OF se]
  from run c er se have "db' = db \<or> db' = db_set (Memory c1) db \<or> db' = db_set (Memory c2) db"
    by (cases r1) (auto simp: search_slow_def db_write_eq storage_search_def split: if_splits)
  with mem mem_typed_frame [OF mem c] frames show ?thesis by (blast intro: core_frame_trans)
qed

lemma search_fast_typed:
  assumes mem: "mem_typed db" and run: "search_fast L P V q k flt db = (res, db')"
  shows "mem_typed db'"
proof -
  from mem obtain c where c: "lk_value (db_inner db) = Memory c" by (auto simp: mem_typed_def)
  obtain r2 c2 where se: "core_search L q (db_params V db k flt) c = (r2, c2)" by fastforce
  from run c se have "db' = db \<or> db' = db_set (Memory c2) db"
    by (auto simp: search_fast_def db_write_eq storage_search_def split: if_splits)
  with mem mem_typed_frame [OF mem c] core_search_frame [OF se] show ?thesis by blast
qed

lemma search_inner_typed:
  assumes "mem_typed db" and "search_inner L P V q k flt db = (res, db')"
  shows "mem_typed db'"
  using assms search_fast_typed [OF assms(1), of L P V q k flt] search_slow_typed
  by (fastforce simp: search_inner_def split: sum.splits option.splits prod.splits)

lemma core_insert_typed:
  assumes "core_store_ok c" and "\<forall>vm \<in> ran (core_contents c). length (fst vm) = d" and "length v = d"
  obtains r c' where "core_insert L i v m c = Some (r, c')" "core_store_ok c'"
    "\<forall>vm \<in> ran (core_contents c'). length (fst vm) = d"
proof -
  obtain r c' where run: "core_insert L i v m c = Some (r, c')" "core_store_ok c'"
    "core_contents c' = (core_contents c)(i \<mapsto> (v, m))"
    using core_insert_store [OF assms(1), of L i v m] by blast
  from assms(2,3) have "\<forall>vm \<in> ran (core_contents c'). length (fst vm) = d"
    unfolding run(3) by (auto simp: ran_def)
  with run(1,2) show thesis by (rule that)
qed

lemma core_delete_typed:
  assumes "core_store_ok c" and "\<forall>vm \<in> ran (core_contents c). length (fst vm) = d"
  obtains r c' where "core_delete L i c = Some (r, c')" "core_store_ok c'"
    "\<forall>vm \<in> ran (core_contents c'). length (fst vm) = d"
proof -
  obtain r c' where run: "core_delete L i c = Some (r, c')" "core_store_ok c'"
    "core_contents c' = (core_contents c)(i := None)"
    using core_delete_store [OF assms(1), of L i] by blast
  from assms(2) have "\<forall>vm \<in> ran (core_contents c'). length (fst vm) = d"
    unfolding run(3) by (auto simp: ran_def)
  with run(1,2) show thesis by (rule that)
qed

lemma db_exec_typed:
  assumes mem: "mem_typed db"
  shows "\<exists>r db'. db_exec L P V op db = Some (r, db') \<and> mem_typed db'"
proof -
  from mem obtain c where c: "lk_value (db_inner db) = Memory c" "core_store_ok c"
    "\<forall>vm \<in> ran (core_contents c). length (fst vm) = db_dim db" by (auto simp: mem_typed_def)
  show ?thesis
  proof (cases op)
    case (OUpsert i v m)
    show ?thesis
    proof (cases "length v = db_dim db")
      case True
      from core_insert_typed [OF c(2,3) True, of L i m] obtain r c' where
        "core_insert L i v m c = Some (r, c')" "core_store_ok c'"
        "\<forall>vm \<in> ran (core_contents c'). length (fst vm) = db_dim db" .
      with OUpsert True c(1) show ?thesis
        by (auto simp: db_upsert_def check_dim_def db_write_panicking_eq mem_typed_def)
    next
      case False
      with OUpsert mem show ?thesis by (simp add: db_upsert_def check_dim_def)
    qed
  next
    case (OGet i)
    have "core_store_ok (db_core P db)" using c(1,2) by (simp add: db_core_def)
    with OGet mem show ?thesis by (simp add: db_get_def core_get_row_contents)
  next
    case (ODelete i)
    from core_delete_typed [OF c(2,3), of L i] obtain r c' where
      "core_delete L i c = Some (r, c')" "core_store_ok c'"
      "\<forall>vm \<in> ran (core_contents c'). length (fst vm) = db_dim db" .
    with ODelete c(1) show ?thesis by (auto simp: db_delete_def db_write_panicking_eq mem_typed_def)
  next
    case (OSearch q k flt)
    with search_inner_typed [OF mem, of L P V q k flt] show ?thesis
      by (cases "search_inner L P V q k flt db") auto
  next
    case OOptimize
    obtain r c' where opt: "core_optimize L c = (r, c')" by fastforce
    from mem_typed_frame [OF mem c(1) core_optimize_frame [OF opt]] OOptimize opt c(1) show ?thesis
      by (simp add: db_optimize_def db_write_eq)
  next
    case OFlush
    with c(1) mem_typed_frame [OF mem c(1) core_frame_refl] show ?thesis
      by (simp add: db_flush_def db_write_eq)
  qed (use mem in simp)
qed

end
