(* ===== verification/Iqdb_Concurrent.thy ===== *)
theory Iqdb_Concurrent
  imports Iqdb_Calls
begin

text \<open>
  A handle shared by threads. Every method holds the lock for its whole body, except a search
  that has to build the index: it gives the read guard back and then takes the write guard,
  and other threads can run in between. The relation here interleaves these critical sections
  in every order; the history records when each call was invoked, when it took effect and
  when it returned. How a lock whose read guard threads share comes to interleave whole
  sections is the subject of \<open>Iqdb_Lock\<close>.
\<close>

section \<open>Histories\<close>

datatype ('op, 'r) event =
    Invoke nat 'op
  | Effect nat 'op 'r
  | Respond nat 'r

fun event_thread :: "('op, 'r) event \<Rightarrow> nat" where
  "event_thread (Invoke t op) = t"
| "event_thread (Effect t op r) = t"
| "event_thread (Respond t r) = t"

text \<open>The calls in the order in which they took effect, with their results.\<close>

fun effects :: "('op, 'r) event list \<Rightarrow> ('op \<times> 'r) list" where
  "effects [] = []"
| "effects (Effect t op r # h) = (op, r) # effects h"
| "effects (_ # h) = effects h"

text \<open>
  A thread's own events: it invokes a call, the call takes effect, and what it responds is
  the result of that effect.
\<close>

datatype ('op, 'r) phase = Quiet | Pending 'op | Finished 'r

fun phase_step :: "('op, 'r) event \<Rightarrow> ('op, 'r) phase \<Rightarrow> ('op, 'r) phase option" where
  "phase_step (Invoke t op) Quiet = Some (Pending op)"
| "phase_step (Effect t op r) (Pending op') = (if op = op' then Some (Finished r) else None)"
| "phase_step (Respond t r) (Finished r') = (if r = r' then Some Quiet else None)"
| "phase_step _ _ = None"

definition phase_after :: "('op, 'r) event list \<Rightarrow> ('op, 'r) phase option" where
  "phase_after h = fold (\<lambda>e ph. Option.bind ph (phase_step e)) h (Some Quiet)"

definition thread_phase :: "nat \<Rightarrow> ('op, 'r) event list \<Rightarrow> ('op, 'r) phase option" where
  "thread_phase t h = phase_after (filter (\<lambda>e. event_thread e = t) h)"

lemma thread_phase_Nil [simp]: "thread_phase t [] = Some Quiet"
  by (simp add: thread_phase_def phase_after_def)

lemma thread_phase_snoc [simp]:
  "thread_phase t (h @ [e]) =
     (if event_thread e = t then Option.bind (thread_phase t h) (phase_step e) else thread_phase t h)"
  by (simp add: thread_phase_def phase_after_def)

lemma effects_append [simp]: "effects (h @ h') = effects h @ effects h'"
  by (induction h rule: effects.induct) auto

section \<open>Interleavings\<close>

datatype ('m, 'flt, 'h) thread =
    Idle
  | Called "('m, 'flt) db_op"
  | BetweenGuards vec usize "'flt option"
  | Returned "error + ('m, 'h) db_out"

record ('co, 'ps, 'm, 'flt, 'h) conc_state =
  cs_db :: "('co, 'ps) iqdb"
  cs_thread :: "nat \<Rightarrow> ('m, 'flt, 'h) thread"
  cs_history :: "(('m, 'flt) db_op, error + ('m, 'h) db_out) event list"

type_synonym ('fl, 'hn, 'iv, 'cx, 'cc, 'm, 'ps, 'flt, 'h) shared =
  "(('fl, 'hn, 'iv, 'cx, 'cc, 'm) iqdb_core, 'ps, 'm, 'flt, 'h) conc_state"

definition set_thread ::
    "nat \<Rightarrow> ('m, 'flt, 'h) thread \<Rightarrow> (('m, 'flt) db_op, error + ('m, 'h) db_out) event list
      \<Rightarrow> ('co, 'ps, 'm, 'flt, 'h) conc_state \<Rightarrow> ('co, 'ps, 'm, 'flt, 'h) conc_state" where
  "set_thread t st es s = s\<lparr>cs_thread := (cs_thread s)(t := st), cs_history := cs_history s @ es\<rparr>"

definition take_effect ::
    "nat \<Rightarrow> ('m, 'flt) db_op \<Rightarrow> error + ('m, 'h) db_out \<Rightarrow> ('co, 'ps) iqdb
      \<Rightarrow> ('co, 'ps, 'm, 'flt, 'h) conc_state \<Rightarrow> ('co, 'ps, 'm, 'flt, 'h) conc_state" where
  "take_effect t op r db s = set_thread t (Returned r) [Effect t op r] (s\<lparr>cs_db := db\<rparr>)"

text \<open>One step of the thread \<open>t\<close>.\<close>

inductive conc_step ::
    "('fl, 'hn, 'iv, 'cx, 'cc, 'cs, 'm, 'p, 'h, 'z) core_lib
      \<Rightarrow> ('fl, 'hn, 'iv, 'cx, 'cc, 'm, 'ps, 'pa, 'x, 'fs) persistence
      \<Rightarrow> ('p, 'flt) vocabulary \<Rightarrow> nat
      \<Rightarrow> ('fl, 'hn, 'iv, 'cx, 'cc, 'm, 'ps, 'flt, 'h) shared
      \<Rightarrow> ('fl, 'hn, 'iv, 'cx, 'cc, 'm, 'ps, 'flt, 'h) shared
      \<Rightarrow> bool"
  for L P V t s where
  call: "cs_thread s t = Idle \<Longrightarrow> conc_step L P V t s (set_thread t (Called op) [Invoke t op] s)"
| whole: "cs_thread s t = Called op \<Longrightarrow> (\<forall>q k flt. op \<noteq> OSearch q k flt) \<Longrightarrow>
    db_exec L P V op (cs_db s) = Some (r, db) \<Longrightarrow> conc_step L P V t s (take_effect t op r db s)"
| refused: "cs_thread s t = Called (OSearch q k flt) \<Longrightarrow> check_dim (cs_db s) (length q) = Inl e \<Longrightarrow>
    conc_step L P V t s (take_effect t (OSearch q k flt) (Inl e) (cs_db s) s)"
| fast: "cs_thread s t = Called (OSearch q k flt) \<Longrightarrow> check_dim (cs_db s) (length q) = Inr () \<Longrightarrow>
    search_fast L P V q k flt (cs_db s) = (Some r, db) \<Longrightarrow>
    conc_step L P V t s (take_effect t (OSearch q k flt) (map_sum (\<lambda>e. e) OutHits r) db s)"
| between: "cs_thread s t = Called (OSearch q k flt) \<Longrightarrow> check_dim (cs_db s) (length q) = Inr () \<Longrightarrow>
    search_fast L P V q k flt (cs_db s) = (None, db) \<Longrightarrow>
    conc_step L P V t s (set_thread t (BetweenGuards q k flt) [] (s\<lparr>cs_db := db\<rparr>))"
| slow: "cs_thread s t = BetweenGuards q k flt \<Longrightarrow> search_slow L P V q k flt (cs_db s) = (r, db) \<Longrightarrow>
    conc_step L P V t s (take_effect t (OSearch q k flt) (map_sum (\<lambda>e. e) OutHits r) db s)"
| return: "cs_thread s t = Returned r \<Longrightarrow> conc_step L P V t s (set_thread t Idle [Respond t r] s)"

inductive conc_reach ::
    "('fl, 'hn, 'iv, 'cx, 'cc, 'cs, 'm, 'p, 'h, 'z) core_lib
      \<Rightarrow> ('fl, 'hn, 'iv, 'cx, 'cc, 'm, 'ps, 'pa, 'x, 'fs) persistence
      \<Rightarrow> ('p, 'flt) vocabulary
      \<Rightarrow> ('fl, 'hn, 'iv, 'cx, 'cc, 'm, 'ps) database
      \<Rightarrow> ('fl, 'hn, 'iv, 'cx, 'cc, 'm, 'ps, 'flt, 'h) shared
      \<Rightarrow> bool"
  for L P V db where
  start: "conc_reach L P V db \<lparr>cs_db = db, cs_thread = (\<lambda>_. Idle), cs_history = []\<rparr>"
| step: "conc_reach L P V db s \<Longrightarrow> conc_step L P V t s s' \<Longrightarrow> conc_reach L P V db s'"

lemma set_thread_sel [simp]:
  "cs_db (set_thread t st es s) = cs_db s"
  "cs_thread (set_thread t st es s) = (cs_thread s)(t := st)"
  "cs_history (set_thread t st es s) = cs_history s @ es"
  by (simp_all add: set_thread_def)

lemma take_effect_sel [simp]:
  "cs_db (take_effect t op r db s) = db"
  "cs_thread (take_effect t op r db s) = (cs_thread s)(t := Returned r)"
  "cs_history (take_effect t op r db s) = cs_history s @ [Effect t op r]"
  by (simp_all add: take_effect_def)

section \<open>The invariant\<close>

fun phase_of :: "('m, 'flt, 'h) thread \<Rightarrow> (('m, 'flt) db_op, error + ('m, 'h) db_out) phase" where
  "phase_of Idle = Quiet"
| "phase_of (Called op) = Pending op"
| "phase_of (BetweenGuards q k flt) = Pending (OSearch q k flt)"
| "phase_of (Returned r) = Finished r"

lemma check_dim_ok: "check_dim db n = Inr () \<longleftrightarrow> n = db_dim db"
  by (simp add: check_dim_def)

definition conc_inv ::
    "('fl, 'hn, 'iv, 'cx, 'cc, 'cs, 'm, 'p, 'h, 'z) core_lib
      \<Rightarrow> ('fl, 'hn, 'iv, 'cx, 'cc, 'm, 'ps, 'pa, 'x, 'fs) persistence
      \<Rightarrow> ('p, 'flt) vocabulary
      \<Rightarrow> ('fl, 'hn, 'iv, 'cx, 'cc, 'm, 'ps) database
      \<Rightarrow> ('fl, 'hn, 'iv, 'cx, 'cc, 'm, 'ps, 'flt, 'h) shared
      \<Rightarrow> bool" where
  "conc_inv L P V db s \<longleftrightarrow>
     db_run L P V (map fst (effects (cs_history s))) db = Some (map snd (effects (cs_history s)), cs_db s)
     \<and> (\<forall>t q k flt. cs_thread s t = BetweenGuards q k flt \<longrightarrow> length q = db_dim (cs_db s))
     \<and> (\<forall>t. thread_phase t (cs_history s) = Some (phase_of (cs_thread s t)))"

lemma conc_inv_effect:
  assumes inv: "conc_inv L P V db s" and exec: "db_exec L P V op (cs_db s) = Some (r, db')"
    and here: "phase_of (cs_thread s t) = Pending op"
  shows "conc_inv L P V db (take_effect t op r db' s)"
proof -
  from inv have run: "db_run L P V (map fst (effects (cs_history s))) db
      = Some (map snd (effects (cs_history s)), cs_db s)"
    and dims: "\<And>t q k flt. cs_thread s t = BetweenGuards q k flt \<Longrightarrow> length q = db_dim (cs_db s)"
    and phases: "\<And>t. thread_phase t (cs_history s) = Some (phase_of (cs_thread s t))"
    unfolding conc_inv_def by blast+
  from db_run_snoc [OF run exec] dims phases here db_exec_dim [OF exec] show ?thesis
    by (auto simp: conc_inv_def)
qed

lemma conc_inv_step:
  assumes field: "persist_field P" and "conc_step L P V t s s'" and inv: "conc_inv L P V db s"
  shows "conc_inv L P V db s'"
  using assms(2)
proof (cases rule: conc_step.cases)
  case (call op)
  with inv show ?thesis by (auto simp: conc_inv_def)
next
  case (whole op r db')
  with conc_inv_effect [OF inv whole(4), of t] show ?thesis by simp
next
  case (refused q k flt e)
  then have "db_exec L P V (OSearch q k flt) (cs_db s) = Some (Inl e, cs_db s)"
    by (simp add: search_inner_def)
  from conc_inv_effect [OF inv this, of t] refused show ?thesis by simp
next
  case (fast q k flt r db')
  then have "db_exec L P V (OSearch q k flt) (cs_db s) = Some (map_sum (\<lambda>e. e) OutHits r, db')"
    by (simp add: search_inner_def)
  from conc_inv_effect [OF inv this, of t] fast show ?thesis by simp
next
  case (between q k flt db')
  with search_fast_none [OF between(4)] inv show ?thesis
    by (auto simp: conc_inv_def check_dim_ok)
next
  case (slow q k flt r db')
  with inv have "length q = db_dim (cs_db s)" by (auto simp: conc_inv_def)
  from search_inner_slow [OF field this, of L V k flt] slow(3)
  have "db_exec L P V (OSearch q k flt) (cs_db s) = Some (map_sum (\<lambda>e. e) OutHits r, db')" by simp
  from conc_inv_effect [OF inv this, of t] slow show ?thesis by simp
next
  case (return r)
  with inv show ?thesis by (auto simp: conc_inv_def)
qed

lemma conc_reach_inv:
  assumes "conc_reach L P V db s" and "persist_field P"
  shows "conc_inv L P V db s"
  using assms
proof (induction rule: conc_reach.induct)
  case start
  show ?case by (simp add: conc_inv_def)
next
  case (step s t s')
  then show ?case by (blast intro: conc_inv_step)
qed

section \<open>Types\<close>

text \<open>The in-memory handle keeps its type under concurrent calls.\<close>

lemma conc_step_typed:
  assumes "conc_step L P V t s s'" and mem: "mem_typed (cs_db s)"
  shows "mem_typed (cs_db s') \<and> db_dim (cs_db s') = db_dim (cs_db s)"
  using assms(1)
proof (cases rule: conc_step.cases)
  case (whole op r db)
  with db_exec_typed [OF mem, of L P V op] db_exec_dim [OF whole(4)] show ?thesis by auto
next
  case (fast q k flt r db)
  with search_fast_typed [OF mem fast(4)] search_section_dim(1) [OF fast(4)] show ?thesis by simp
next
  case (between q k flt db)
  with search_fast_typed [OF mem between(4)] search_section_dim(1) [OF between(4)] show ?thesis by simp
next
  case (slow q k flt r db)
  with search_slow_typed [OF mem slow(3)] search_section_dim(2) [OF slow(3)] show ?thesis by simp
qed (use mem in simp_all)

lemma conc_reach_typed:
  assumes "conc_reach L P V db s" and "mem_typed db"
  shows "mem_typed (cs_db s) \<and> db_dim (cs_db s) = db_dim db"
  using assms
proof (induction rule: conc_reach.induct)
  case (step s t s')
  then show ?case using conc_step_typed [OF step.hyps(2)] by simp
qed simp

end
