(* ===== verification/Iqdb_Durability.thy ===== *)
theory Iqdb_Durability
  imports Iqdb_Calls Iqdb_Core_Snapshot
begin

text \<open>
  What durability rests on: what an engine accepts (\<open>accept_laws\<close>), that replaying a log of
  writes on an engine fresh from loading succeeds and gives the contents the log says, and that
  what \<open>save_to\<close> wrote loads again.
\<close>

section \<open>Replay\<close>

text \<open>Replaying a log through the engine's own write operations, until an error.\<close>

primrec replay ::
    "('fl, 'hn, 'iv, 'cx, 'cc, 'cs, 'm, 'p, 'h, 'z) core_lib \<Rightarrow> (vec \<times> 'm option) write_req list
      \<Rightarrow> ('fl, 'hn, 'iv, 'cx, 'cc, 'm) iqdb_core
      \<Rightarrow> (iqdb_error + ('fl, 'hn, 'iv, 'cx, 'cc, 'm) iqdb_core) option" where
  "replay L [] c = Some (Inr c)"
| "replay L (r # rs) c =
     (case (case r of Put i vm \<Rightarrow> core_insert L i (fst vm) (snd vm) c | Del i \<Rightarrow> core_delete L i c) of
        None \<Rightarrow> None
      | Some (Inl e, _) \<Rightarrow> Some (Inl e)
      | Some (Inr _, c') \<Rightarrow> replay L rs c')"

text \<open>
  The index families accept what the engine gives them: a vector of their dimension under a
  new identifier, a deletion, and a bulk load of such vectors; and they keep their dimension.
\<close>

definition accept_laws ::
    "('fl, 'hn, 'iv, 'm, 'p, 'h, 'z) index_lib
      \<Rightarrow> (('fl, 'hn, 'iv) any_index \<Rightarrow> 'm index_contents) \<Rightarrow> bool" where
  "accept_laws I \<alpha> \<longleftrightarrow>
     (\<forall>k d mt x. any_new I k d mt = Inr x \<longrightarrow> any_dim I x = d)
     \<and> (\<forall>i v m x. any_dim I (snd (any_insert I i v m x)) = any_dim I x
          \<and> (\<not> any_needs_training I x \<and> length v = any_dim I x \<and> \<alpha> x i = None \<longrightarrow>
               is_ok (fst (any_insert I i v m x))))
     \<and> (\<forall>i x. any_dim I (snd (any_delete I i x)) = any_dim I x
          \<and> (\<not> any_needs_training I x \<longrightarrow>
               is_ok (fst (any_delete I i x)) \<or> fst (any_delete I i x) = Inl NotFound))
     \<and> (\<forall>items x. any_dim I (snd (build_into I items x)) = any_dim I x
          \<and> (\<not> any_needs_training I x \<and> \<alpha> x = Map.empty \<and> distinct (map fst items)
             \<and> (\<forall>e \<in> set items. length (fst (snd e)) = any_dim I x) \<longrightarrow>
               is_ok (fst (build_into I items x))))"

text \<open>An engine as loading leaves it: the only pending rebuild is that of an untrained index.\<close>

definition replayable ::
    "('fl, 'hn, 'iv, 'cx, 'cc, 'cs, 'm, 'p, 'h, 'z) core_lib
      \<Rightarrow> (('fl, 'hn, 'iv) any_index \<Rightarrow> 'm index_contents)
      \<Rightarrow> ('cx \<Rightarrow> bool)
      \<Rightarrow> ('fl, 'hn, 'iv, 'cx, 'cc, 'm) iqdb_core \<Rightarrow> bool" where
  "replayable L \<alpha> ok c \<longleftrightarrow>
     core_wf L ok c \<and> core_synced L \<alpha> c \<and> co_ivf_dirty c = core_untrained L c
     \<and> any_dim (lib_index L) (core_index L c) = co_dim c"

lemma is_ok_unit: "is_ok (r :: 'e + unit) \<Longrightarrow> r = Inr ()"
  by (cases r) simp_all

lemma index_call_ids:
  "core_index_insert L i v m k = (r, k') \<Longrightarrow> co_dim k' = co_dim k \<and> co_metric k' = co_metric k \<and> co_kind k' = co_kind k"
  "core_index_delete L i k = (r', k') \<Longrightarrow> co_dim k' = co_dim k \<and> co_metric k' = co_metric k \<and> co_kind k' = co_kind k"
  by (auto simp: core_index_insert_def core_index_delete_def apsnd_eq split: prod.splits)

lemma core_insert_ids:
  "core_insert L i v m c = Some (r, c') \<Longrightarrow> co_dim c' = co_dim c \<and> co_metric c' = co_metric c \<and> co_kind c' = co_kind c"
  by (erule core_insert_cases) (auto dest!: index_call_ids)

lemma core_delete_ids:
  "core_delete L i c = Some (r, c') \<Longrightarrow> co_dim c' = co_dim c \<and> co_metric c' = co_metric c \<and> co_kind c' = co_kind c"
  by (erule core_delete_cases) (auto dest!: index_call_ids)

lemma index_insert_accepts:
  assumes laws: "engine_laws L \<alpha> ok" and acc: "accept_laws (lib_index L) \<alpha>"
    and wf: "core_wf L ok k" and trained: "\<not> core_untrained L k"
    and dim: "any_dim (lib_index L) (core_index L k) = length v" and new: "\<alpha> (core_index L k) i = None"
    and run: "core_index_insert L i v m k = (r, k')"
  shows "r = Inr () \<and> any_dim (lib_index L) (core_index L k') = length v \<and> \<not> core_untrained L k'"
proof -
  have cl: "cl_ok ok (co_index k)" using wf by (simp add: core_wf_def)
  from index_insert_spec [OF engine_lawsD(5) [OF laws] cl run]
  have ix: "any_insert (lib_index L) i v m (core_index L k) = (r, core_index L k')" by simp
  have "is_ok r \<and> any_dim (lib_index L) (core_index L k') = length v"
    using acc ix trained dim new unfolding accept_laws_def core_untrained_eq
    by (metis fst_conv snd_conv)
  moreover have "\<not> core_untrained L k'"
    using stays_trained(1) [OF engine_lawsD(2) [OF laws]] trained ix
    by (metis core_untrained_eq snd_conv)
  ultimately show ?thesis by (auto dest: is_ok_unit)
qed

lemma index_delete_accepts:
  assumes laws: "engine_laws L \<alpha> ok" and acc: "accept_laws (lib_index L) \<alpha>"
    and wf: "core_wf L ok k" and trained: "\<not> core_untrained L k"
    and run: "core_index_delete L i k = (r, k')"
  shows "r = Inr () \<and> any_dim (lib_index L) (core_index L k') = any_dim (lib_index L) (core_index L k)
    \<and> \<not> core_untrained L k'"
proof -
  have cl: "cl_ok ok (co_index k)" using wf by (simp add: core_wf_def)
  from index_delete_spec [OF engine_lawsD(5) [OF laws] cl run] obtain s where
    ix: "any_delete (lib_index L) i (core_index L k) = (s, core_index L k')"
      "r = (if s = Inl NotFound then Inr () else s)" by blast
  have "(is_ok s \<or> s = Inl NotFound)
      \<and> any_dim (lib_index L) (core_index L k') = any_dim (lib_index L) (core_index L k)"
    using acc ix(1) trained unfolding accept_laws_def core_untrained_eq by (metis fst_conv snd_conv)
  moreover have "\<not> core_untrained L k'"
    using stays_trained(2) [OF engine_lawsD(2) [OF laws]] trained ix(1)
    by (metis core_untrained_eq snd_conv)
  ultimately show ?thesis using ix(2) by (auto dest: is_ok_unit)
qed

lemma replay_insert:
  assumes laws: "engine_laws L \<alpha> ok" and acc: "accept_laws (lib_index L) \<alpha>"
    and ok: "replayable L \<alpha> ok c" and dim: "length v = co_dim c"
  shows "\<exists>c'. core_insert L i v m c = Some (Inr (), c') \<and> replayable L \<alpha> ok c'
    \<and> core_contents c' = (core_contents c)(i \<mapsto> (v, m))"
proof -
  from ok have wf: "core_wf L ok c" and sy: "core_synced L \<alpha> c"
    and dirty: "co_ivf_dirty c = core_untrained L c"
    and ixdim: "any_dim (lib_index L) (core_index L c) = co_dim c" by (simp_all add: replayable_def)
  have inv: "store_inv (co_store c)" and cl: "cl_ok ok (co_index c)" using wf by (simp_all add: core_wf_def)
  from core_insert_store [OF inv, of L i v m] obtain r c' where
    run: "core_insert L i v m c = Some (r, c')" and contents: "core_contents c' = (core_contents c)(i \<mapsto> (v, m))"
    by blast
  from store_upsert_spec [OF inv, of i v m] obtain st where
    st: "store_upsert (co_store c) i v m = Some (core_contents c i = None, st)" "store_inv st" by blast
  let ?c = "c\<lparr>co_store := st\<rparr>"
  have wf1: "core_wf L ok ?c" by (rule core_wf_store [OF wf st(2)])
  have tr: "core_untrained L ?c = core_untrained L c" by (simp add: core_untrained_eq)
  have "r = Inr () \<and> any_dim (lib_index L) (core_index L c') = co_dim c
      \<and> co_ivf_dirty c' = core_untrained L c'"
    using run
  proof (cases rule: core_insert_cases)
    case (deferred newly st')
    then show ?thesis using ixdim by (simp add: core_untrained_eq)
  next
    case (fresh st')
    have "\<alpha> (core_index L ?c) i = None"
      using sy dirty fresh(1,2) st(1) by (simp add: core_synced_def)
    moreover from fresh(1) st(1) have "st' = st" by simp
    note ins = fresh(3) [unfolded this]
    ultimately have "r = Inr () \<and> any_dim (lib_index L) (core_index L c') = length v \<and> \<not> core_untrained L c'"
      using index_insert_accepts [OF laws acc wf1 _ _ _ ins] fresh(2) tr dim ixdim by simp
    then show ?thesis
      using index_call_dirty(1) [OF ins] dirty fresh(2) dim by simp
  next
    case (stuck st' e)
    with index_delete_accepts [OF laws acc wf1, of i "Inl e" c'] tr st show ?thesis by auto
  next
    case (replaced st' c1)
    from replaced(1) st(1) have "st' = st" by simp
    note del = replaced(3) [unfolded this]
    from index_delete_accepts [OF laws acc wf1 _ del] tr replaced(2) ixdim
    have c1: "any_dim (lib_index L) (core_index L c1) = co_dim c" "\<not> core_untrained L c1" by auto
    have "\<alpha> (core_index L c1) i = None"
      using index_delete_contents(1) [OF laws _ del] cl by auto
    with index_insert_accepts [OF laws acc index_delete_wf [OF laws wf1 del] c1(2) _ _ replaced(4)] c1(1) dim
    show ?thesis
      using index_call_dirty(1) [OF replaced(4)] index_call_dirty(2) [OF del] dirty replaced(2) by auto
  qed
  moreover have "core_wf L ok c'" by (rule core_insert_wf [OF laws wf run])
  moreover have "core_synced L \<alpha> c'"
    using core_insert_synced [OF laws wf sy run] calculation by simp
  ultimately show ?thesis
    using run contents core_insert_ids [OF run] by (auto simp: replayable_def)
qed

lemma replay_delete:
  assumes laws: "engine_laws L \<alpha> ok" and acc: "accept_laws (lib_index L) \<alpha>"
    and ok: "replayable L \<alpha> ok c"
  shows "\<exists>c'. core_delete L i c = Some (Inr (), c') \<and> replayable L \<alpha> ok c'
    \<and> core_contents c' = (core_contents c)(i := None)"
proof -
  from ok have wf: "core_wf L ok c" and sy: "core_synced L \<alpha> c"
    and dirty: "co_ivf_dirty c = core_untrained L c"
    and ixdim: "any_dim (lib_index L) (core_index L c) = co_dim c" by (simp_all add: replayable_def)
  have inv: "store_inv (co_store c)" using wf by (simp add: core_wf_def)
  from core_delete_store [OF inv, of L i] obtain r c' where
    run: "core_delete L i c = Some (r, c')" and contents: "core_contents c' = (core_contents c)(i := None)"
    by blast
  have "r = Inr () \<and> any_dim (lib_index L) (core_index L c') = co_dim c
      \<and> co_ivf_dirty c' = core_untrained L c'"
    using run
  proof (cases rule: core_delete_cases)
    case (deferred existed st)
    then show ?thesis using ixdim by (simp add: core_untrained_eq)
  next
    case (direct existed st)
    have "store_inv st" using store_remove_spec [OF inv, of i] direct(1) by auto
    then have wf1: "core_wf L ok (c\<lparr>co_store := st\<rparr>)" by (rule core_wf_store [OF wf])
    from index_delete_accepts [OF laws acc wf1 _ direct(3)] direct(2) ixdim
    show ?thesis
      using index_call_dirty(2) [OF direct(3)] dirty by (auto simp: core_untrained_eq)
  qed
  moreover have "core_wf L ok c'" by (rule core_delete_wf [OF laws wf run])
  moreover have "core_synced L \<alpha> c'"
    using core_delete_synced [OF laws wf sy run] calculation by simp
  ultimately show ?thesis
    using run contents core_delete_ids [OF run] by (auto simp: replayable_def)
qed

text \<open>A log of well-dimensioned writes replays to its abstract effect.\<close>

definition log_dims :: "usize \<Rightarrow> (vec \<times> 'm option) write_req list \<Rightarrow> bool" where
  "log_dims d rs \<longleftrightarrow> (\<forall>i vm. Put i vm \<in> set rs \<longrightarrow> length (fst vm) = d)"

lemma log_dims_append [simp]: "log_dims d (rs @ rs') \<longleftrightarrow> log_dims d rs \<and> log_dims d rs'"
  unfolding log_dims_def set_append Un_iff by blast

lemma replay_log:
  assumes laws: "engine_laws L \<alpha> ok" and acc: "accept_laws (lib_index L) \<alpha>"
    and "replayable L \<alpha> ok c" and "log_dims (co_dim c) rs"
  shows "\<exists>c'. replay L rs c = Some (Inr c') \<and> replayable L \<alpha> ok c'
    \<and> core_contents c' = reqs_apply rs (core_contents c)
    \<and> co_dim c' = co_dim c \<and> co_metric c' = co_metric c \<and> co_kind c' = co_kind c"
  using assms(3,4)
proof (induction rs arbitrary: c)
  case (Cons r rs)
  obtain c1 where c1: "(case r of Put i vm \<Rightarrow> core_insert L i (fst vm) (snd vm) c | Del i \<Rightarrow> core_delete L i c)
      = Some (Inr (), c1)" "replayable L \<alpha> ok c1" "core_contents c1 = req_apply r (core_contents c)"
    "co_dim c1 = co_dim c" "co_metric c1 = co_metric c" "co_kind c1 = co_kind c"
  proof (cases r)
    case (Put i vm)
    with Cons.prems(2) have "length (fst vm) = co_dim c" by (cases vm) (auto simp: log_dims_def)
    from replay_insert [OF laws acc Cons.prems(1) this, of i "snd vm"] Put show thesis
      using that core_insert_ids by fastforce
  next
    case (Del i)
    from replay_delete [OF laws acc Cons.prems(1), of i] Del show thesis
      using that core_delete_ids by fastforce
  qed
  from Cons.prems(2) c1(4) have "log_dims (co_dim c1) rs" by (auto simp: log_dims_def)
  from Cons.IH [OF c1(2) this] c1 show ?case by auto
qed simp

section \<open>What can be saved can be loaded\<close>

text \<open>
  An engine whose configuration the index library accepts and whose rows are within the
  limits of the format.
\<close>

definition storable ::
    "('fl, 'hn, 'iv, 'cx, 'cc, 'cs, 'm, 'p, 'h, 'z) core_lib \<Rightarrow> target
      \<Rightarrow> ('fl, 'hn, 'iv, 'cx, 'cc, 'm) iqdb_core \<Rightarrow> bool" where
  "storable L t c \<longleftrightarrow>
     store_inv (co_store c) \<and> kind_fits t (co_kind c) \<and> co_dim c \<le> usize_max t
     \<and> co_metric c \<noteq> OtherMetric
     \<and> (\<forall>i v m. core_contents c i = Some (v, m) \<longrightarrow> row_fits (lib_meta L) (co_dim c) (Row i v m))
     \<and> is_ok (any_new (lib_index L) (co_kind c) (co_dim c) (co_metric c))"

lemma storable_fits:
  assumes "storable L t c" and "core_len c \<le> usize_max t"
  shows "payload_fits (lib_meta L) t (payload_of (co_kind c) (co_dim c) (co_metric c) (co_store c))"
proof -
  have "row_fits (lib_meta L) (co_dim c) r" if "r \<in> set (st_rows (co_store c))" for r
  proof -
    have "core_contents c (row_id r) = Some (row_vector r, row_meta r)"
      using assms(1) that by (simp add: storable_def store_contents_Some)
    with assms(1) show ?thesis unfolding storable_def by (metis Row_collapse)
  qed
  with assms show ?thesis
    by (simp add: payload_fits_def storable_def core_len_def store_len_def list_all_iff)
qed

lemma storable_cong:
  "storable L t c \<Longrightarrow> store_inv (co_store c') \<Longrightarrow> core_contents c' = core_contents c \<Longrightarrow> co_dim c' = co_dim c \<Longrightarrow>
     co_metric c' = co_metric c \<Longrightarrow> co_kind c' = co_kind c \<Longrightarrow> storable L t c'"
  by (simp add: storable_def)

lemma core_load_replayable:
  assumes laws: "engine_laws L \<alpha> ok" and acc: "accept_laws (lib_index L) \<alpha>"
    and run: "core_load L t bs = Some (Inr c)"
  shows "replayable L \<alpha> ok c"
proof -
  note inner = cl_wrap_inner [OF engine_lawsD(5) [OF laws]]
  from run have "co_ivf_dirty c = core_untrained L c \<and> any_dim (lib_index L) (core_index L c) = co_dim c"
  proof (cases rule: core_load_cases)
    case (1 d rest store idx idx')
    have dim: "any_dim (lib_index L) idx = de_dim d"
      using acc 1(3) unfolding accept_laws_def by blast
    show ?thesis
    proof (cases "any_needs_training (lib_index L) idx")
      case True
      with 1 inner dim show ?thesis by (simp add: core_untrained_eq)
    next
      case False
      with 1(4) obtain n where bld: "build_into (lib_index L) (store_items store) idx = (Inr n, idx')" by auto
      from rebuilt_index(2) [OF laws 1(3) _ bld, of "[]"] False
      have "\<not> any_needs_training (lib_index L) idx'" by simp
      moreover have "any_dim (lib_index L) idx' = de_dim d"
        using acc bld dim unfolding accept_laws_def by (metis snd_conv)
      ultimately show ?thesis using 1(5) False inner by (simp add: core_untrained_eq)
    qed
  qed
  with core_load_wf [OF laws run] show ?thesis by (simp add: replayable_def)
qed

lemma load_saved:
  assumes laws: "engine_laws L \<alpha> ok" and acc: "accept_laws (lib_index L) \<alpha>"
    and st: "storable L t c" and len: "core_len c \<le> usize_max t"
    and save: "fst (core_save L c buffer) = Inr ()" and bs: "bs = wr_out (snd (core_save L c buffer))"
  shows "\<exists>c0. core_load L t bs = Some (Inr c0) \<and> replayable L \<alpha> ok c0
    \<and> core_contents c0 = core_contents c
    \<and> co_dim c0 = co_dim c \<and> co_metric c0 = co_metric c \<and> co_kind c0 = co_kind c"
proof -
  let ?d = "payload_of (co_kind c) (co_dim c) (co_metric c) (co_store c)"
  note fits = storable_fits [OF st len]
  have inv: "store_inv (co_store c)" using st by (simp add: storable_def)
  have "bs = payload_bytes (lib_meta L) ?d"
    by (simp add: bs core_save_def encode_fits [OF fits])
  then have dec: "decode (lib_meta L) t bs = Inr (?d, [])"
    by (simp add: w_payload.round_trip_exact [OF fits])
  have dist: "distinct (map row_id (de_rows ?d))" using store_inv_distinct [OF inv] by simp
  from dec dist show ?thesis
  proof (cases rule: core_load_decoded)
    case (refused e)
    from st obtain x where x: "any_new (lib_index L) (co_kind c) (co_dim c) (co_metric c) = Inr x"
      by (auto simp: storable_def is_ok_iff)
    with refused(1) obtain idx' s where tr: "\<not> any_needs_training (lib_index L) x"
      and s: "st_rows s = st_rows (co_store c)"
      and bld: "build_into (lib_index L) (store_items s) x = (Inl e, idx')" by auto
    have items: "store_items s = store_items (co_store c)" by (simp add: store_items_def s)
    have "any_dim (lib_index L) x = co_dim c" using acc x unfolding accept_laws_def by blast
    moreover have "\<alpha> x = Map.empty" using engine_lawsD(4) [OF laws] x by (auto simp: new_laws_def)
    moreover have "\<forall>e \<in> set (store_items s). length (fst (snd e)) = co_dim c"
      using fits unfolding items by (auto simp: store_items_def row_entry_def payload_fits_def
          list_all_iff row_fits_def)
    ultimately have "is_ok (fst (build_into (lib_index L) (store_items s) x))"
      using acc tr store_items_distinct [OF inv] unfolding accept_laws_def items by metis
    with bld show ?thesis by simp
  next
    case (loaded c0)
    with core_load_replayable [OF laws acc loaded(1)] show ?thesis
      by (auto simp: store_contents_def)
  qed
qed

end
