(* ===== verification/Iqdb_Allowed.thy ===== *)
theory Iqdb_Allowed
  imports Iqdb_Map_Spec
begin

text \<open>
  The specification of durable contents. A write that was acknowledged determines what is
  stored under its identifier; a write that was refused, or cut off, may or may not have been
  performed. So what a database may hold is, for each identifier, a set of values: after an
  acknowledged write the one it gave, and after each refused write also the one it would have
  given.
\<close>

type_synonym 'v allowed = "vector_id \<Rightarrow> 'v option set"

definition within :: "(vector_id \<rightharpoonup> 'v) \<Rightarrow> 'v allowed \<Rightarrow> bool" where
  "within M A \<longleftrightarrow> (\<forall>i. M i \<in> A i)"

definition written :: "'v write_req \<Rightarrow> 'v allowed \<Rightarrow> 'v allowed" where
  "written r A = A(req_id r := {req_result r})"

definition attempted :: "'v write_req \<Rightarrow> 'v allowed \<Rightarrow> 'v allowed" where
  "attempted r A = A(req_id r := insert (req_result r) (A (req_id r)))"

definition exactly :: "(vector_id \<rightharpoonup> 'v) \<Rightarrow> 'v allowed" where
  "exactly M = (\<lambda>i. {M i})"

text \<open>The identifiers that may have a value.\<close>

definition possible :: "'v allowed \<Rightarrow> vector_id set" where
  "possible A = {i. \<exists>v. Some v \<in> A i}"

lemma within_written: "within M A \<Longrightarrow> within (req_apply r M) (written r A)"
  by (simp add: within_def written_def req_apply_lookup)

lemma within_attempted:
  "within M A \<Longrightarrow> within M (attempted r A)" "within M A \<Longrightarrow> within (req_apply r M) (attempted r A)"
  by (simp_all add: within_def attempted_def req_apply_lookup)

lemma written_attempted: "within M (written r A) \<Longrightarrow> within M (attempted r A)"
  by (auto simp: within_def written_def attempted_def split: if_splits)

lemma within_exactly [simp]: "within M (exactly N) \<longleftrightarrow> M = N"
  by (auto simp: within_def exactly_def)

text \<open>Replaying an old log over newer contents stays within what either may hold.\<close>

lemma within_replay:
  assumes "within (reqs_apply rs N) A" and "within M A"
  shows "within (reqs_apply rs M) A"
  using assms unfolding within_def reqs_apply_lookup by (auto split: option.splits)

lemma within_dom: "within M A \<Longrightarrow> dom M \<subseteq> possible A"
proof
  fix i
  assume M: "within M A" and "i \<in> dom M"
  then obtain v where "M i = Some v" by blast
  with M have "Some v \<in> A i" unfolding within_def by metis
  then show "i \<in> possible A" by (auto simp: possible_def)
qed

lemma possible_exactly [simp]: "possible (exactly M) = dom M"
  by (force simp: possible_def exactly_def dom_def intro: sym)

end
