(* ===== verification/Iqdb_Recovery.thy ===== *)
theory Iqdb_Recovery
  imports Iqdb_Durability Iqdb_Allowed
begin

text \<open>
  The contract of the snapshot and log (\<open>wal_laws\<close>, \<open>load_law\<close>), and the invariant that both
  the live engine and what snapshot and log together hold are within what the writes so far
  allow. Acknowledged and refused writes keep it, and so does a checkpoint, one that fails part
  way included; loading the files restores it and determines the contents.
\<close>

section \<open>The contract of the persisted index\<close>

definition snapshot_of ::
    "('fl, 'hn, 'iv, 'cx, 'cc, 'cs, 'm, 'p, 'h, 'z) core_lib
      \<Rightarrow> ('fl, 'hn, 'iv, 'cx, 'cc, 'm) iqdb_core \<Rightarrow> u8 list
      \<Rightarrow> bool" where
  "snapshot_of L c bs \<longleftrightarrow>
     fst (core_save L c buffer) = Inr () \<and> bs = wr_out (snd (core_save L c buffer))"

text \<open>
  What the files of a persisted index hold, read off the index: the payload of the snapshot, the
  logged writes, and how many of those have been synced; with the two settings the index was
  opened with.
\<close>

record 'm image =
  im_snapshot :: "u8 list"
  im_log :: "(vec \<times> 'm option) write_req list"
  im_synced :: nat
  im_wal :: bool
  im_fsync :: fsync_policy

definition same_settings :: "'m image \<Rightarrow> 'm image \<Rightarrow> bool" where
  "same_settings a b \<longleftrightarrow> im_wal a = im_wal b \<and> im_fsync a = im_fsync b"

text \<open>The image after a record was appended: nothing is un-synced by that.\<close>

definition appended :: "(vec \<times> 'm option) write_req \<Rightarrow> 'm image \<Rightarrow> 'm image \<Rightarrow> bool" where
  "appended r a b \<longleftrightarrow> im_wal a \<and> same_settings a b \<and> im_snapshot b = im_snapshot a \<and> im_log b = im_log a @ [r]
     \<and> im_synced a \<le> im_synced b \<and> im_synced b \<le> length (im_log b)"

text \<open>
  A write. With the write-ahead log enabled, an acknowledged write was logged and applied, and
  under \<open>FsyncPolicy::Always\<close> the log was synced before the call returned; the record of a
  refused one is in the log or not (the append may have failed, or only its sync), and the
  engine has seen the write or not. With the log disabled no write touches the files.
\<close>

definition write_law ::
    "('ps \<Rightarrow> 'm image) \<Rightarrow> ('ps \<Rightarrow> 'co)
      \<Rightarrow> (vec \<times> 'm option) write_req \<Rightarrow> ('ps \<Rightarrow> ((error + unit) \<times> 'ps) option)
      \<Rightarrow> ('co \<Rightarrow> ((iqdb_error + unit) \<times> 'co) option) \<Rightarrow> bool" where
  "write_law disk index r write apply \<longleftrightarrow>
     (\<forall>p res p'. write p = Some (res, p') \<longrightarrow>
        (case res of
           Inr _ \<Rightarrow> apply (index p) = Some (Inr (), index p')
             \<and> (if im_wal (disk p) then appended r (disk p) (disk p')
                  \<and> (im_fsync (disk p) = Always \<longrightarrow> im_synced (disk p') = length (im_log (disk p')))
                else disk p' = disk p)
         | Inl _ \<Rightarrow> (index p' = index p \<or> (\<exists>x. apply (index p) = Some (x, index p')))
             \<and> (disk p' = disk p \<or> appended r (disk p) (disk p'))))"

text \<open>
  Opening writes a snapshot and takes its settings from the configuration; a checkpoint replaces
  the snapshot and then empties the log, and may fail before, between or after; nothing but a
  write and a checkpoint touches the files.
\<close>

definition wal_laws ::
    "('fl, 'hn, 'iv, 'cx, 'cc, 'cs, 'm, 'p, 'h, 'z) core_lib
      \<Rightarrow> ('fl, 'hn, 'iv, 'cx, 'cc, 'm, 'ps, 'pa, 'x, 'fs) persistence
      \<Rightarrow> ('ps \<Rightarrow> 'm image)
      \<Rightarrow> bool" where
  "wal_laws L P disk \<longleftrightarrow>
     persist_field P
     \<and> (\<forall>c p. disk (ps_set_index P c p) = disk p)
     \<and> (\<forall>core cfg fs p. ps_open_with P core cfg fs = Inr p \<longrightarrow>
          ps_index P p = core \<and> snapshot_of L core (im_snapshot (disk p)) \<and> im_log (disk p) = []
          \<and> im_synced (disk p) = 0
          \<and> im_wal (disk p) = pc_wal_enabled cfg \<and> im_fsync (disk p) = pc_fsync_policy cfg)
     \<and> (\<forall>i v m. write_law disk (ps_index P) (Put i (v, m)) (ps_insert P i v m) (core_insert L i v m))
     \<and> (\<forall>i. write_law disk (ps_index P) (Del i) (ps_delete P i) (core_delete L i))
     \<and> (\<forall>p r p'. ps_checkpoint P p = (r, p') \<longrightarrow> ps_index P p' = ps_index P p
          \<and> same_settings (disk p) (disk p')
          \<and> (im_snapshot (disk p') = im_snapshot (disk p) \<and> \<not> is_ok r
             \<or> snapshot_of L (ps_index P p) (im_snapshot (disk p')))
          \<and> (im_log (disk p') = [] \<and> im_synced (disk p') = 0
               \<and> snapshot_of L (ps_index P p) (im_snapshot (disk p'))
             \<or> im_log (disk p') = im_log (disk p) \<and> im_synced (disk p') = im_synced (disk p) \<and> \<not> is_ok r))"

lemma wal_lawsD:
  assumes "wal_laws L P disk"
  shows "persist_field P"
    and "ps_index P (ps_set_index P c p) = c" and "disk (ps_set_index P c p) = disk p"
    and "write_law disk (ps_index P) (Put i (v, m)) (ps_insert P i v m) (core_insert L i v m)"
    and "write_law disk (ps_index P) (Del i) (ps_delete P i) (core_delete L i)"
  using assms unfolding wal_laws_def persist_field_def by blast+

lemma wal_laws_open:
  assumes "wal_laws L P disk" and "ps_open_with P core cfg fs = Inr p"
  shows "ps_index P p = core" and "snapshot_of L core (im_snapshot (disk p))" and "im_log (disk p) = []"
    and "im_synced (disk p) = 0"
    and "im_wal (disk p) = pc_wal_enabled cfg" and "im_fsync (disk p) = pc_fsync_policy cfg"
  using assms unfolding wal_laws_def by blast+

lemma wal_laws_checkpoint:
  assumes "wal_laws L P disk" and "ps_checkpoint P p = (r, p')"
  shows "ps_index P p' = ps_index P p" and "same_settings (disk p) (disk p')"
    and "im_snapshot (disk p') = im_snapshot (disk p) \<and> \<not> is_ok r
      \<or> snapshot_of L (ps_index P p) (im_snapshot (disk p'))"
    and "im_log (disk p') = [] \<and> im_synced (disk p') = 0 \<and> snapshot_of L (ps_index P p) (im_snapshot (disk p'))
      \<or> im_log (disk p') = im_log (disk p) \<and> im_synced (disk p') = im_synced (disk p) \<and> \<not> is_ok r"
  using assms unfolding wal_laws_def by blast+

lemma write_law_applied:
  assumes "write_law disk index r write apply" and "write p = Some (Inr u, p')"
  shows "apply (index p) = Some (Inr (), index p')"
  using assms unfolding write_law_def by fastforce

lemma write_law_acknowledged:
  assumes "write_law disk index r write apply" and "write p = Some (Inr u, p')" and "im_wal (disk p)"
  shows "appended r (disk p) (disk p')"
    and "im_fsync (disk p) = Always \<Longrightarrow> im_synced (disk p') = length (im_log (disk p'))"
  using assms unfolding write_law_def by fastforce+

lemma write_law_refused:
  assumes "write_law disk index r write apply" and "write p = Some (Inl e, p')"
  shows "index p' = index p \<or> (\<exists>x. apply (index p) = Some (x, index p'))"
    and "disk p' = disk p \<or> appended r (disk p) (disk p')"
  using assms unfolding write_law_def by fastforce+

section \<open>Stops and reopening\<close>

text \<open>
  The log a stopped process leaves: all records if every one was synced, otherwise some of the
  un-synced ones at its end may be gone.
\<close>

definition survives :: "nat \<Rightarrow> 'r list \<Rightarrow> 'r list \<Rightarrow> bool" where
  "survives n log l \<longleftrightarrow> prefix l log \<and> n \<le> length l"

lemma survives_self: "n \<le> length log \<Longrightarrow> survives n log log"
  by (simp add: survives_def)

lemma survives_all [simp]: "survives (length log) log l \<longleftrightarrow> l = log"
  by (auto simp: survives_def prefix_def)

lemma survives_nil [simp]: "survives n [] l \<longleftrightarrow> n = 0 \<and> l = []"
  by (auto simp: survives_def)

lemma survives_snoc:
  assumes "survives m (log @ [r]) l" and "n \<le> m"
  shows "survives n log l \<or> l = log @ [r]"
  using assms by (auto simp: survives_def)

text \<open>
  The call a process is stopped in, if any, as far as the files can tell: the writes it may have
  logged, and whether it writes snapshots.
\<close>

fun op_reqs :: "usize \<Rightarrow> ('m, 'flt) db_op \<Rightarrow> (vec \<times> 'm option) write_req list" where
  "op_reqs d (OUpsert i v m) = (if length v = d then [Put i (v, m)] else [])"
| "op_reqs d (ODelete i) = [Del i]"
| "op_reqs d (OGet i) = []"
| "op_reqs d (OSearch q k flt) = []"
| "op_reqs d OLen = []"
| "op_reqs d OOptimize = []"
| "op_reqs d OFlush = []"

definition pending :: "usize \<Rightarrow> ('m, 'flt) db_op option \<Rightarrow> (vec \<times> 'm option) write_req list" where
  "pending d call = (case call of None \<Rightarrow> [] | Some op \<Rightarrow> op_reqs d op)"

lemma pending_cases: "pending d call = [] \<or> (\<exists>r. pending d call = [r] \<and> log_dims d [r])"
proof (cases call)
  case (Some op)
  then show ?thesis by (cases op) (simp_all add: pending_def log_dims_def)
qed (simp add: pending_def)

lemma pending_simps [simp]: "pending d None = []" "pending d (Some op) = op_reqs d op"
  by (simp_all add: pending_def)

text \<open>
  What a process that stops while \<open>call\<close> runs (\<open>None\<close>: between two calls) may leave behind: of
  the log, with the record of a write in progress, what \<open>survives\<close>, of which at least the
  synced records, the first \<open>n\<close>, are on the disk for good; in a checkpoint the new snapshot may
  already be in place, and the log empty.
\<close>

definition left_behind ::
    "('fl, 'hn, 'iv, 'cx, 'cc, 'cs, 'm, 'p, 'h, 'z) core_lib
      \<Rightarrow> ('fl, 'hn, 'iv, 'cx, 'cc, 'm, 'ps, 'pa, 'x, 'fs) persistence
      \<Rightarrow> ('ps \<Rightarrow> 'm image) \<Rightarrow> usize \<Rightarrow> ('m, 'flt) db_op option \<Rightarrow> 'ps
      \<Rightarrow> u8 list \<Rightarrow> (vec \<times> 'm option) write_req list \<Rightarrow> nat \<Rightarrow> bool" where
  "left_behind L P disk d call p bs l n \<longleftrightarrow>
     n \<le> length l
     \<and> ((bs = im_snapshot (disk p) \<or> call = Some OFlush \<and> snapshot_of L (ps_index P p) bs)
          \<and> survives (im_synced (disk p)) (im_log (disk p) @ pending d call) l \<and> im_synced (disk p) \<le> n
        \<or> call = Some OFlush \<and> snapshot_of L (ps_index P p) bs \<and> l = [])"

text \<open>What is still left if the un-synced end of what was left is lost later.\<close>

lemma left_behind_survives:
  assumes "left_behind L P disk d call p bs l n" and "survives n l l'"
  shows "left_behind L P disk d call p bs l' n"
  using assms by (auto simp: left_behind_def survives_def intro: prefix_order.trans)

text \<open>
  Loading finds the files a stopped process left (\<open>files\<close>, a function of their snapshot, their
  log and how much of it is synced); opened with the write-ahead log enabled it decodes the
  snapshot, replays the log on it and takes its settings from the configuration. Whether it
  also syncs what it has replayed is left open.
\<close>

definition load_law ::
    "('fl, 'hn, 'iv, 'cx, 'cc, 'cs, 'm, 'p, 'h, 'z) core_lib
      \<Rightarrow> ('fl, 'hn, 'iv, 'cx, 'cc, 'm, 'ps, 'pa, 'x, 'fs) persistence
      \<Rightarrow> target
      \<Rightarrow> ('ps \<Rightarrow> 'm image)
      \<Rightarrow> (u8 list \<Rightarrow> (vec \<times> 'm option) write_req list \<Rightarrow> nat \<Rightarrow> 'fs) \<Rightarrow> 'pa \<Rightarrow> durability
      \<Rightarrow> bool" where
  "load_law L P t disk files path dur \<longleftrightarrow>
     (let cfg = persist_cfg P path dur in
      \<forall>bs l n. n \<le> length l \<longrightarrow> ps_exists P path (files bs l n)
        \<and> (pc_wal_enabled cfg \<longrightarrow>
            (\<forall>c0 c1. core_load L t bs = Some (Inr c0) \<longrightarrow> replay L l c0 = Some (Inr c1) \<longrightarrow>
              (\<exists>p' k. ps_load P cfg (files bs l n) = Some (Inr p') \<and> ps_index P p' = c1
                 \<and> n \<le> k \<and> k \<le> length l
                 \<and> disk p' = \<lparr>im_snapshot = bs, im_log = l, im_synced = k,
                      im_wal = pc_wal_enabled cfg, im_fsync = pc_fsync_policy cfg\<rparr>))))"

lemma load_law_exists:
  "load_law L P t disk files path dur \<Longrightarrow> n \<le> length l \<Longrightarrow> ps_exists P path (files bs l n)"
  unfolding load_law_def Let_def by blast

lemma load_law_load:
  assumes "load_law L P t disk files path dur" and "core_load L t bs = Some (Inr c0)"
    and "replay L l c0 = Some (Inr c1)" and "n \<le> length l"
  obtains p' k where "ps_load P (persist_cfg P path dur) (files bs l n) = Some (Inr p')" "ps_index P p' = c1"
    "n \<le> k" "k \<le> length l"
    "disk p' = \<lparr>im_snapshot = bs, im_log = l, im_synced = k, im_wal = True, im_fsync = du_fsync dur\<rparr>"
proof -
  have cfg: "pc_wal_enabled (persist_cfg P path dur)" "pc_fsync_policy (persist_cfg P path dur) = du_fsync dur"
    by (simp_all add: persist_cfg_def)
  from assms(1) have "\<forall>bs l n c0 c1. n \<le> length l \<longrightarrow> core_load L t bs = Some (Inr c0) \<longrightarrow>
      replay L l c0 = Some (Inr c1) \<longrightarrow>
      (\<exists>p' k. ps_load P (persist_cfg P path dur) (files bs l n) = Some (Inr p') \<and> ps_index P p' = c1
         \<and> n \<le> k \<and> k \<le> length l
         \<and> disk p' = \<lparr>im_snapshot = bs, im_log = l, im_synced = k, im_wal = True, im_fsync = du_fsync dur\<rparr>)"
    by (simp add: load_law_def cfg)
  with assms(2-4) that show thesis by blast
qed

section \<open>Limits\<close>

text \<open>
  What the format can hold: rows within its limits, and no more identifiers that may be in use
  than a \<open>usize\<close> can count.
\<close>

definition allowed_fits ::
    "('fl, 'hn, 'iv, 'cx, 'cc, 'cs, 'm, 'p, 'h, 'z) core_lib \<Rightarrow> target \<Rightarrow> usize
      \<Rightarrow> (vec \<times> 'm option) allowed \<Rightarrow> bool" where
  "allowed_fits L t d A \<longleftrightarrow>
     (\<forall>i v m. Some (v, m) \<in> A i \<longrightarrow> row_fits (lib_meta L) d (Row i v m))
     \<and> finite (possible A) \<and> card (possible A) \<le> usize_max t"

definition header_fits ::
    "('fl, 'hn, 'iv, 'cx, 'cc, 'cs, 'm, 'p, 'h, 'z) core_lib \<Rightarrow> target
      \<Rightarrow> ('fl, 'hn, 'iv, 'cx, 'cc, 'm) iqdb_core \<Rightarrow> bool" where
  "header_fits L t c \<longleftrightarrow>
     kind_fits t (co_kind c) \<and> co_dim c \<le> usize_max t \<and> co_metric c \<noteq> OtherMetric
     \<and> is_ok (any_new (lib_index L) (co_kind c) (co_dim c) (co_metric c))"

definition same_ids ::
    "('fl, 'hn, 'iv, 'cx, 'cc, 'm) iqdb_core \<Rightarrow> ('fl, 'hn, 'iv, 'cx, 'cc, 'm) iqdb_core \<Rightarrow> bool" where
  "same_ids a b \<longleftrightarrow> co_dim a = co_dim b \<and> co_metric a = co_metric b \<and> co_kind a = co_kind b"

lemma same_ids_refl [simp]: "same_ids c c"
  by (simp add: same_ids_def)

lemma header_fits_same: "header_fits L t c \<Longrightarrow> same_ids c' c \<Longrightarrow> header_fits L t c'"
  by (simp add: header_fits_def same_ids_def)

lemma within_storable:
  assumes inv: "store_inv (co_store c)" and hd: "header_fits L t c" and fits: "allowed_fits L t (co_dim c) A"
    and M: "within (core_contents c) A"
  shows "storable L t c \<and> core_len c \<le> usize_max t"
proof -
  have "card (dom (core_contents c)) \<le> card (possible A)"
    using within_dom [OF M] fits by (simp add: allowed_fits_def card_mono)
  then have "core_len c \<le> usize_max t"
    using fits by (simp add: core_len_def store_len_card [OF inv] allowed_fits_def)
  moreover have "row_fits (lib_meta L) (co_dim c) (Row i v m)" if "core_contents c i = Some (v, m)" for i v m
  proof -
    from M that have "Some (v, m) \<in> A i" unfolding within_def by metis
    with fits show ?thesis by (simp add: allowed_fits_def)
  qed
  ultimately show ?thesis using inv hd by (simp add: storable_def header_fits_def)
qed

lemma allowed_fits_exactly:
  assumes "allowed_fits L t d A" and "within M A"
  shows "allowed_fits L t d (exactly M)"
proof -
  have "card (dom M) \<le> card (possible A)" "finite (dom M)"
    using within_dom [OF assms(2)] assms(1) by (auto simp: allowed_fits_def card_mono intro: finite_subset)
  moreover have "Some (v, m) \<in> A i" if "Some (v, m) \<in> exactly M i" for i v m
    using that assms(2) by (auto simp: exactly_def within_def)
  ultimately show ?thesis using assms(1) by (auto simp: allowed_fits_def)
qed

section \<open>The invariant\<close>

text \<open>Files that load, and whose replayed contents are within what is allowed.\<close>

definition recoverable ::
    "('fl, 'hn, 'iv, 'cx, 'cc, 'cs, 'm, 'p, 'h, 'z) core_lib \<Rightarrow> target
      \<Rightarrow> (('fl, 'hn, 'iv) any_index \<Rightarrow> 'm index_contents) \<Rightarrow> ('cx \<Rightarrow> bool)
      \<Rightarrow> ('fl, 'hn, 'iv, 'cx, 'cc, 'm) iqdb_core \<Rightarrow> (vec \<times> 'm option) allowed
      \<Rightarrow> u8 list \<Rightarrow> (vec \<times> 'm option) write_req list \<Rightarrow> bool" where
  "recoverable L t \<alpha> ok c A bs l \<longleftrightarrow>
     log_dims (co_dim c) l
     \<and> (\<exists>c0. core_load L t bs = Some (Inr c0) \<and> replayable L \<alpha> ok c0
          \<and> same_ids c0 c \<and> within (reqs_apply l (core_contents c0)) A)"

definition durable ::
    "('fl, 'hn, 'iv, 'cx, 'cc, 'cs, 'm, 'p, 'h, 'z) core_lib
      \<Rightarrow> ('fl, 'hn, 'iv, 'cx, 'cc, 'm, 'ps, 'pa, 'x, 'fs) persistence
      \<Rightarrow> target
      \<Rightarrow> ('ps \<Rightarrow> 'm image)
      \<Rightarrow> (('fl, 'hn, 'iv) any_index \<Rightarrow> 'm index_contents)
      \<Rightarrow> ('cx \<Rightarrow> bool) \<Rightarrow> fsync_policy \<Rightarrow> (vec \<times> 'm option) allowed \<Rightarrow> 'ps \<Rightarrow> bool" where
  "durable L P t disk \<alpha> ok pol A p \<longleftrightarrow>
     store_inv (co_store (ps_index P p)) \<and> header_fits L t (ps_index P p)
     \<and> allowed_fits L t (co_dim (ps_index P p)) A \<and> within (core_contents (ps_index P p)) A
     \<and> im_wal (disk p) \<and> im_fsync (disk p) = pol \<and> im_synced (disk p) \<le> length (im_log (disk p))
     \<and> (\<forall>l. survives (im_synced (disk p)) (im_log (disk p)) l
          \<longrightarrow> recoverable L t \<alpha> ok (ps_index P p) A (im_snapshot (disk p)) l)"

lemma durableD:
  assumes "durable L P t disk \<alpha> ok pol A p"
  shows "store_inv (co_store (ps_index P p))" and "header_fits L t (ps_index P p)"
    and "allowed_fits L t (co_dim (ps_index P p)) A" and "within (core_contents (ps_index P p)) A"
    and "im_wal (disk p)" and "im_fsync (disk p) = pol" and "im_synced (disk p) \<le> length (im_log (disk p))"
    and "survives (im_synced (disk p)) (im_log (disk p)) l
      \<Longrightarrow> recoverable L t \<alpha> ok (ps_index P p) A (im_snapshot (disk p)) l"
  using assms unfolding durable_def by blast+

lemma recoverable_same: "recoverable L t \<alpha> ok c A bs l \<Longrightarrow> same_ids c' c \<Longrightarrow> recoverable L t \<alpha> ok c' A bs l"
  by (auto simp: recoverable_def same_ids_def)

lemma recoverable_mono:
  "recoverable L t \<alpha> ok c A bs l \<Longrightarrow> (\<And>M. within M A \<Longrightarrow> within M B) \<Longrightarrow> recoverable L t \<alpha> ok c B bs l"
  unfolding recoverable_def by blast

lemma recoverable_snoc:
  assumes "recoverable L t \<alpha> ok c A bs l" and "log_dims (co_dim c) [r]"
    and "\<And>M. within M A \<Longrightarrow> within (req_apply r M) B"
  shows "recoverable L t \<alpha> ok c B bs (l @ [r])"
proof -
  have "log_dims (co_dim c) (l @ [r])" using assms(1,2) by (fastforce simp: recoverable_def log_dims_def)
  then show ?thesis using assms(1,3) by (auto simp: recoverable_def reqs_apply_append)
qed

lemma recoverable_saved:
  assumes laws: "engine_laws L \<alpha> ok" and acc: "accept_laws (lib_index L) \<alpha>"
    and c: "store_inv (co_store c)" "header_fits L t c" "allowed_fits L t (co_dim c) A" "within (core_contents c) A"
    and snap: "snapshot_of L c bs" and log: "log_dims (co_dim c) l"
    and old: "\<exists>N. within (reqs_apply l N) A"
  shows "recoverable L t \<alpha> ok c A bs l"
proof -
  from load_saved [OF laws acc _ _ _ _, of t c bs] within_storable [OF c] snap
  obtain c0 where c0: "core_load L t bs = Some (Inr c0)" "replayable L \<alpha> ok c0" "same_ids c0 c"
    "core_contents c0 = core_contents c" by (auto simp: snapshot_of_def same_ids_def)
  from old within_replay c(4) have "within (reqs_apply l (core_contents c)) A" by blast
  with c0 log show ?thesis by (auto simp: recoverable_def)
qed

lemma durable_open:
  assumes laws: "engine_laws L \<alpha> ok" and acc: "accept_laws (lib_index L) \<alpha>"
    and wal: "wal_laws L P disk" and run: "ps_open_with P core cfg fs = Inr p"
    and on: "pc_wal_enabled cfg"
    and core: "store_inv (co_store core)" "header_fits L t core" "allowed_fits L t (co_dim core) A"
      "within (core_contents core) A"
  shows "durable L P t disk \<alpha> ok (pc_fsync_policy cfg) A p \<and> ps_index P p = core"
proof -
  note img = wal_laws_open [OF wal run]
  have "recoverable L t \<alpha> ok core A (im_snapshot (disk p)) []"
    by (rule recoverable_saved [OF laws acc core img(2)])
      (use core(4) in \<open>auto simp: log_dims_def reqs_apply_def\<close>)
  with core on img show ?thesis by (simp add: durable_def)
qed

text \<open>Searches, rebuilds and cache changes do not touch what is stored.\<close>

lemma durable_set_index:
  assumes dur: "durable L P t disk \<alpha> ok pol A p" and wal: "wal_laws L P disk"
    and same: "co_store c = co_store (ps_index P p)" "same_ids c (ps_index P p)"
  shows "durable L P t disk \<alpha> ok pol A (ps_set_index P c p)"
  using dur same wal_lawsD(2,3) [OF wal]
  by (auto simp: durable_def recoverable_def same_ids_def header_fits_def)

section \<open>Writes\<close>

text \<open>What an engine stores after seeing a write, whatever its index said.\<close>

fun core_write ::
    "('fl, 'hn, 'iv, 'cx, 'cc, 'cs, 'm, 'p, 'h, 'z) core_lib
      \<Rightarrow> (vec \<times> 'm option) write_req \<Rightarrow> ('fl, 'hn, 'iv, 'cx, 'cc, 'm) iqdb_core
      \<Rightarrow> ((iqdb_error + unit) \<times> ('fl, 'hn, 'iv, 'cx, 'cc, 'm) iqdb_core) option" where
  "core_write L (Put i vm) c = core_insert L i (fst vm) (snd vm) c"
| "core_write L (Del i) c = core_delete L i c"

lemma core_write_fun: "core_write L (Put i (v, m)) = core_insert L i v m" "core_write L (Del i) = core_delete L i"
  by (simp_all add: fun_eq_iff)

lemma core_write_store:
  assumes "store_inv (co_store c)"
  obtains res c' where "core_write L r c = Some (res, c')" "store_inv (co_store c')" "same_ids c' c"
    "core_contents c' = req_apply r (core_contents c)"
proof (cases r)
  case (Put i vm)
  from core_insert_store [OF assms, of L i "fst vm" "snd vm"] obtain res c' where
    run: "core_insert L i (fst vm) (snd vm) c = Some (res, c')" "store_inv (co_store c')"
      "core_contents c' = (core_contents c)(i \<mapsto> (fst vm, snd vm))" by blast
  with core_insert_ids [OF run(1)] Put that [of res c'] show thesis by (simp add: same_ids_def)
next
  case (Del i)
  from core_delete_store [OF assms, of L i] obtain res c' where
    run: "core_delete L i c = Some (res, c')" "store_inv (co_store c')"
      "core_contents c' = (core_contents c)(i := None)" by blast
  with core_delete_ids [OF run(1)] Del that [of res c'] show thesis by (simp add: same_ids_def)
qed

text \<open>
  One step of engine and files: each has seen the write or not. If what is allowed afterwards
  covers the combination that came about, with what may be lost of the log, the invariant is
  kept.
\<close>

lemma durable_step:
  assumes dur: "durable L P t disk \<alpha> ok pol A p"
    and idx: "ps_index P p' = ps_index P p \<and> (\<forall>M. within M A \<longrightarrow> within M B)
      \<or> (\<exists>x. core_write L r (ps_index P p) = Some (x, ps_index P p')) \<and> (\<forall>M. within M A \<longrightarrow> within (req_apply r M) B)"
    and disk: "disk p' = disk p \<and> (\<forall>M. within M A \<longrightarrow> within M B)
      \<or> appended r (disk p) (disk p') \<and> (\<forall>M. within M A \<longrightarrow> within (req_apply r M) B)
        \<and> (im_synced (disk p') = length (im_log (disk p')) \<or> (\<forall>M. within M A \<longrightarrow> within M B))"
    and log: "log_dims (co_dim (ps_index P p)) [r]" and fits: "allowed_fits L t (co_dim (ps_index P p)) B"
  shows "durable L P t disk \<alpha> ok pol B p' \<and> same_ids (ps_index P p') (ps_index P p)"
proof -
  let ?c = "ps_index P p" and ?c' = "ps_index P p'" and ?bs = "im_snapshot (disk p)"
  note D = durableD [OF dur]
  from core_write_store [OF D(1), of L r] obtain x c' where
    w: "core_write L r ?c = Some (x, c')" "store_inv (co_store c')" "same_ids c' ?c"
      "core_contents c' = req_apply r (core_contents ?c)" .
  have new: "store_inv (co_store ?c')" "same_ids ?c' ?c" "within (core_contents ?c') B"
    using idx w D(1,4) by auto
  have rec: "recoverable L t \<alpha> ok ?c B ?bs l" if l: "survives (im_synced (disk p')) (im_log (disk p')) l" for l
  proof -
    from disk show ?thesis
    proof
      assume "disk p' = disk p \<and> (\<forall>M. within M A \<longrightarrow> within M B)"
      with recoverable_mono [OF D(8)] l show ?thesis by metis
    next
      assume ap: "appended r (disk p) (disk p') \<and> (\<forall>M. within M A \<longrightarrow> within (req_apply r M) B)
        \<and> (im_synced (disk p') = length (im_log (disk p')) \<or> (\<forall>M. within M A \<longrightarrow> within M B))"
      then have sv: "survives (im_synced (disk p')) (im_log (disk p) @ [r]) l" "im_synced (disk p) \<le> im_synced (disk p')"
        using l by (simp_all add: appended_def)
      have full: "recoverable L t \<alpha> ok ?c B ?bs (im_log (disk p) @ [r])"
        by (rule recoverable_snoc [OF D(8) [OF survives_self [OF D(7)]] log]) (use ap in blast)
      show ?thesis
      proof (cases "l = im_log (disk p) @ [r]")
        case False
        with survives_snoc [OF sv] have old: "survives (im_synced (disk p)) (im_log (disk p)) l" by blast
        have "im_log (disk p') = im_log (disk p) @ [r]" using ap by (simp add: appended_def)
        with False l survives_all [of "im_log (disk p')" l] have "im_synced (disk p') \<noteq> length (im_log (disk p'))"
          by metis
        with ap have "\<And>M. within M A \<Longrightarrow> within M B" by blast
        from recoverable_mono [OF D(8) [OF old] this] show ?thesis .
      qed (use full in simp)
    qed
  qed
  have img: "im_wal (disk p')" "im_fsync (disk p') = pol" "im_synced (disk p') \<le> length (im_log (disk p'))"
    "im_snapshot (disk p') = ?bs"
    using disk D(5-7) by (auto simp: appended_def same_settings_def)
  have "recoverable L t \<alpha> ok ?c' B (im_snapshot (disk p')) l"
    if "survives (im_synced (disk p')) (im_log (disk p')) l" for l
    using recoverable_same [OF rec [OF that] new(2)] by (simp add: img(4))
  moreover have "header_fits L t ?c'" using D(2) new(2) by (rule header_fits_same)
  ultimately show ?thesis using new fits img by (simp add: durable_def same_ids_def)
qed

lemma durable_acknowledged:
  assumes dur: "durable L P t disk \<alpha> ok pol A p" and run: "core_write L r (ps_index P p) = Some (x, ps_index P p')"
    and disk: "appended r (disk p) (disk p')" "im_synced (disk p') = length (im_log (disk p'))"
    and log: "log_dims (co_dim (ps_index P p)) [r]"
    and fits: "allowed_fits L t (co_dim (ps_index P p)) (written r A)"
  shows "durable L P t disk \<alpha> ok pol (written r A) p' \<and> same_ids (ps_index P p') (ps_index P p)"
  by (rule durable_step [OF dur _ _ log fits]) (use run disk in \<open>blast intro: within_written\<close>)+

lemma durable_attempted:
  assumes dur: "durable L P t disk \<alpha> ok pol A p"
    and idx: "ps_index P p' = ps_index P p \<or> (\<exists>x. core_write L r (ps_index P p) = Some (x, ps_index P p'))"
    and disk: "disk p' = disk p \<or> appended r (disk p) (disk p')"
    and log: "log_dims (co_dim (ps_index P p)) [r]"
    and fits: "allowed_fits L t (co_dim (ps_index P p)) (attempted r A)"
  shows "durable L P t disk \<alpha> ok pol (attempted r A) p' \<and> same_ids (ps_index P p') (ps_index P p)"
  by (rule durable_step [OF dur _ _ log fits]) (use idx disk in \<open>blast intro: within_attempted\<close>)+

section \<open>Checkpoints\<close>

text \<open>
  A checkpoint that stops between replacing the snapshot and emptying the log leaves the old
  log beside a snapshot of the live engine; replaying it there is harmless. A checkpoint that
  succeeds leaves exactly what the live engine holds.
\<close>

lemma recoverable_snapshot:
  assumes laws: "engine_laws L \<alpha> ok" and acc: "accept_laws (lib_index L) \<alpha>"
    and dur: "durable L P t disk \<alpha> ok pol A p" and snap: "snapshot_of L (ps_index P p) bs"
    and l: "survives (im_synced (disk p)) (im_log (disk p)) l"
  shows "recoverable L t \<alpha> ok (ps_index P p) A bs l"
proof (rule recoverable_saved [OF laws acc durableD(1-4) [OF dur] snap])
  from durableD(8) [OF dur l] show "log_dims (co_dim (ps_index P p)) l" "\<exists>N. within (reqs_apply l N) A"
    by (auto simp: recoverable_def)
qed

lemma recoverable_compacted:
  assumes laws: "engine_laws L \<alpha> ok" and acc: "accept_laws (lib_index L) \<alpha>"
    and dur: "durable L P t disk \<alpha> ok pol A p" and snap: "snapshot_of L (ps_index P p) bs"
  shows "recoverable L t \<alpha> ok (ps_index P p) A bs []"
  by (rule recoverable_saved [OF laws acc durableD(1-4) [OF dur] snap])
    (use durableD(4) [OF dur] in \<open>auto simp: log_dims_def reqs_apply_def\<close>)

lemma durable_checkpoint:
  assumes laws: "engine_laws L \<alpha> ok" and acc: "accept_laws (lib_index L) \<alpha>"
    and dur: "durable L P t disk \<alpha> ok pol A p" and wal: "wal_laws L P disk"
    and run: "ps_checkpoint P p = (r, p')"
  shows "durable L P t disk \<alpha> ok pol A p' \<and> ps_index P p' = ps_index P p"
proof -
  note ck = wal_laws_checkpoint [OF wal run] and D = durableD [OF dur]
  have "recoverable L t \<alpha> ok (ps_index P p) A (im_snapshot (disk p')) l"
    if l: "survives (im_synced (disk p')) (im_log (disk p')) l" for l
  proof (cases "snapshot_of L (ps_index P p) (im_snapshot (disk p'))")
    case True
    with recoverable_snapshot [OF laws acc dur True] recoverable_compacted [OF laws acc dur True] ck(4) l
    show ?thesis by auto
  next
    case False
    with ck(3,4) D(8) l show ?thesis by auto
  qed
  with ck D show ?thesis by (auto simp: durable_def same_settings_def)
qed

lemma durable_compacted:
  assumes laws: "engine_laws L \<alpha> ok" and acc: "accept_laws (lib_index L) \<alpha>"
    and dur: "durable L P t disk \<alpha> ok pol A p" and wal: "wal_laws L P disk"
    and run: "ps_checkpoint P p = (Inr (), p')"
  shows "durable L P t disk \<alpha> ok pol (exactly (core_contents (ps_index P p'))) p'"
proof -
  let ?M = "core_contents (ps_index P p)"
  note ck = wal_laws_checkpoint [OF wal run] and D = durableD [OF dur]
  from ck(4) have new: "im_log (disk p') = []" "im_synced (disk p') = 0"
    "snapshot_of L (ps_index P p) (im_snapshot (disk p'))" by auto
  have fits: "allowed_fits L t (co_dim (ps_index P p)) (exactly ?M)" by (rule allowed_fits_exactly [OF D(3,4)])
  have "recoverable L t \<alpha> ok (ps_index P p) (exactly ?M) (im_snapshot (disk p')) []"
    by (rule recoverable_saved [OF laws acc D(1,2) fits _ new(3)]) (auto simp: log_dims_def reqs_apply_def)
  with new ck(1,2) D fits show ?thesis by (simp add: durable_def same_settings_def)
qed

section \<open>Loading\<close>

text \<open>
  What a stop leaves behind: with the record of a write in progress in the log, the files of a
  database that has performed it; otherwise those of one that has not.
\<close>

lemma left_behind_written:
  assumes dur: "durable L P t disk \<alpha> ok pol A p" and left: "left_behind L P disk (co_dim (ps_index P p)) call p bs l n"
    and r: "pending (co_dim (ps_index P p)) call = [r]" "l = im_log (disk p) @ [r]"
  shows "recoverable L t \<alpha> ok (ps_index P p) (written r A) bs l"
proof -
  let ?c = "ps_index P p"
  note D = durableD [OF dur]
  from r(1) left have bs: "bs = im_snapshot (disk p)" by (auto simp: left_behind_def)
  from r(1) pending_cases [of "co_dim ?c" call] have dims: "log_dims (co_dim ?c) [r]" by auto
  show ?thesis unfolding bs r(2)
    by (rule recoverable_snoc [OF D(8) [OF survives_self [OF D(7)]] dims within_written])
qed

lemma left_behind_recoverable:
  assumes laws: "engine_laws L \<alpha> ok" and acc: "accept_laws (lib_index L) \<alpha>"
    and dur: "durable L P t disk \<alpha> ok pol A p" and left: "left_behind L P disk (co_dim (ps_index P p)) call p bs l n"
  shows "recoverable L t \<alpha> ok (ps_index P p) A bs l
    \<or> (\<exists>r. pending (co_dim (ps_index P p)) call = [r] \<and> l = im_log (disk p) @ [r]
         \<and> recoverable L t \<alpha> ok (ps_index P p) (written r A) bs l)"
proof -
  let ?c = "ps_index P p"
  note D = durableD [OF dur]
  consider (emptied) "l = []" "snapshot_of L ?c bs"
    | (kept) "bs = im_snapshot (disk p) \<or> snapshot_of L ?c bs" "survives (im_synced (disk p)) (im_log (disk p)) l"
    | (logged) r where "pending (co_dim ?c) call = [r]" "l = im_log (disk p) @ [r]"
    using left pending_cases [of "co_dim ?c" call] survives_snoc unfolding left_behind_def by fastforce
  then show ?thesis
  proof cases
    case emptied
    with recoverable_compacted [OF laws acc dur] show ?thesis by blast
  next
    case kept
    with D(8) recoverable_snapshot [OF laws acc dur] show ?thesis by blast
  next
    case (logged r)
    with left_behind_written [OF dur left logged] show ?thesis by blast
  qed
qed

text \<open>
  What is allowed after a reopening that found \<open>M\<close>: just that, if all that was found of the log
  is synced; otherwise its end may still be lost.
\<close>

definition settled :: "nat \<Rightarrow> 'r list \<Rightarrow> (vector_id \<rightharpoonup> 'v) \<Rightarrow> 'v allowed \<Rightarrow> 'v allowed" where
  "settled n l M A = (if n = length l then exactly M else A)"

text \<open>
  After a stop the files load, and what the loaded engine holds is within what was allowed. The
  invariant holds again, for anything that all that may still be left of the log allows.
\<close>

lemma durable_load:
  assumes laws: "engine_laws L \<alpha> ok" and acc: "accept_laws (lib_index L) \<alpha>"
    and rec: "recoverable L t \<alpha> ok c A bs l" and hd: "header_fits L t c" and fits: "allowed_fits L t (co_dim c) A"
    and load: "load_law L P t disk files path dur" and n: "n \<le> length l"
  shows "\<exists>p'. ps_load P (persist_cfg P path dur) (files bs l n) = Some (Inr p')
    \<and> within (core_contents (ps_index P p')) A \<and> same_ids (ps_index P p') c
    \<and> store_inv (co_store (ps_index P p'))
    \<and> ((\<forall>l'. survives n l l' \<longrightarrow> recoverable L t \<alpha> ok c A bs l') \<longrightarrow>
         durable L P t disk \<alpha> ok (du_fsync dur) (settled n l (core_contents (ps_index P p')) A) p')"
proof -
  from rec obtain c0 where c0: "core_load L t bs = Some (Inr c0)" "replayable L \<alpha> ok c0"
      "same_ids c0 c" "within (reqs_apply l (core_contents c0)) A"
    and dims: "log_dims (co_dim c) l" by (auto simp: recoverable_def)
  have "log_dims (co_dim c0) l" using dims c0(3) by (simp add: same_ids_def)
  from replay_log [OF laws acc c0(2) this] obtain c1 where
    c1: "replay L l c0 = Some (Inr c1)" "replayable L \<alpha> ok c1"
      "core_contents c1 = reqs_apply l (core_contents c0)" "same_ids c1 c0"
    by (auto simp: same_ids_def)
  from load_law_load [OF load c0(1) c1(1) n] obtain p' k where
    p': "ps_load P (persist_cfg P path dur) (files bs l n) = Some (Inr p')" "ps_index P p' = c1"
      "n \<le> k" "k \<le> length l"
      "disk p' = \<lparr>im_snapshot = bs, im_log = l, im_synced = k, im_wal = True, im_fsync = du_fsync dur\<rparr>" .
  have ids: "same_ids c1 c" using c1(4) c0(3) by (simp add: same_ids_def)
  have inv: "store_inv (co_store c1)" using c1(2) by (simp add: replayable_def core_wf_def)
  have M: "within (core_contents c1) A" using c0(4) c1(3) by simp
  have "durable L P t disk \<alpha> ok (du_fsync dur) (settled n l (core_contents c1) A) p'"
    if left: "\<forall>l'. survives n l l' \<longrightarrow> recoverable L t \<alpha> ok c A bs l'"
  proof -
    let ?B = "settled n l (core_contents c1) A"
    have "recoverable L t \<alpha> ok c1 ?B bs l'" if l': "survives k l l'" for l'
    proof (cases "n = length l")
      case True
      with p'(3,4) have "k = length l" by simp
      with l' have "l' = l" by simp
      moreover have "recoverable L t \<alpha> ok c1 (exactly (core_contents c1)) bs l"
        using c0 c1 ids dims by (auto simp: recoverable_def same_ids_def)
      ultimately show ?thesis using True by (simp add: settled_def)
    next
      case False
      from l' p'(3) have "survives n l l'" by (simp add: survives_def)
      with left have "recoverable L t \<alpha> ok c A bs l'" by blast
      from recoverable_same [OF this ids] False show ?thesis by (simp add: settled_def)
    qed
    moreover have "allowed_fits L t (co_dim c1) ?B" "within (core_contents c1) ?B"
      using allowed_fits_exactly [OF fits M] fits M ids by (simp_all add: settled_def same_ids_def)
    ultimately show ?thesis using p'(2,4,5) inv header_fits_same [OF hd ids] by (simp add: durable_def)
  qed
  with p' M ids inv show ?thesis by auto
qed

end
