(* ===== verification/Iqdb_Life.thy ===== *)
theory Iqdb_Life
  imports Iqdb_Recovery
begin

text \<open>
  The life of a file-backed database: it is created, used through its handle, and reopened
  after the process has stopped at any moment, any number of times. \<open>db_life db A\<close> relates
  the handle to what its acknowledged and refused writes allow it to hold.
\<close>

section \<open>Steps that leave the stored data alone\<close>

lemma durable_mut:
  assumes wal: "wal_laws L P disk" and dur: "durable L P t disk \<alpha> ok pol A p"
    and run: "storage_core_mut P f (Persisted p) = (r, s)"
    and frame: "\<forall>r c'. f (ps_index P p) = (r, c') \<longrightarrow> core_frame (ps_index P p) c'"
  shows "\<exists>p'. s = Persisted p' \<and> durable L P t disk \<alpha> ok pol A p' \<and> core_frame (ps_index P p) (ps_index P p')"
proof -
  obtain c' where c': "f (ps_index P p) = (r, c')" "s = Persisted (ps_set_index P c' p)"
    using run by (auto simp: apsnd_eq)
  have "ps_index P (ps_set_index P c' p) = c'" using wal unfolding wal_laws_def persist_field_def by blast
  with frame c'(1) durable_set_index [OF dur wal, of c'] c'(2) show ?thesis
    by (auto simp: core_frame_def same_ids_def)
qed

section \<open>Handles\<close>

definition durable_db ::
    "('fl, 'hn, 'iv, 'cx, 'cc, 'cs, 'm, 'p, 'h, 'z) core_lib
      \<Rightarrow> ('fl, 'hn, 'iv, 'cx, 'cc, 'm, 'ps, 'pa, 'x, 'fs) persistence
      \<Rightarrow> target
      \<Rightarrow> ('ps \<Rightarrow> 'm image)
      \<Rightarrow> (('fl, 'hn, 'iv) any_index \<Rightarrow> 'm index_contents)
      \<Rightarrow> ('cx \<Rightarrow> bool) \<Rightarrow> fsync_policy
      \<Rightarrow> (vec \<times> 'm option) allowed \<Rightarrow> ('fl, 'hn, 'iv, 'cx, 'cc, 'm, 'ps) database
      \<Rightarrow> bool" where
  "durable_db L P t disk \<alpha> ok pol A db \<longleftrightarrow>
     (\<exists>p. lk_value (db_inner db) = Persisted p \<and> durable L P t disk \<alpha> ok pol A p
        \<and> co_dim (ps_index P p) = db_dim db \<and> co_metric (ps_index P p) = db_metric db)"

lemma durable_db_frame:
  assumes "durable_db L P t disk \<alpha> ok pol A db" and "lk_value (db_inner db) = Persisted p"
    and "durable L P t disk \<alpha> ok pol A p'" and "core_frame (ps_index P p) (ps_index P p')"
  shows "durable_db L P t disk \<alpha> ok pol A (db_set (Persisted p') db)"
  using assms by (auto simp: durable_db_def core_frame_def)

lemma durable_db_search:
  assumes wal: "wal_laws L P disk" and dur: "durable_db L P t disk \<alpha> ok pol A db"
    and run: "search_inner L P V q k flt db = (res, db')"
  shows "durable_db L P t disk \<alpha> ok pol A db'"
proof (cases "length q = db_dim db")
  case False
  with run dur show ?thesis by (simp add: search_inner_def check_dim_def)
next
  case True
  have field: "persist_field P" using wal by (simp add: wal_laws_def)
  from dur obtain p where p: "lk_value (db_inner db) = Persisted p" "durable L P t disk \<alpha> ok pol A p"
    by (auto simp: durable_db_def)
  from run have slow: "search_slow L P V q k flt db = (res, db')"
    by (simp add: search_inner_slow [OF field True])
  show ?thesis
  proof (cases "core_is_empty (ps_index P p)")
    case True
    with slow p dur show ?thesis by (simp add: search_slow_def db_write_eq) (metis db_set_same)
  next
    case False
    obtain r1 s1 where er: "storage_core_mut P (core_ensure_ready L) (Persisted p) = (r1, s1)" by fastforce
    obtain p1 where p1: "s1 = Persisted p1" "durable L P t disk \<alpha> ok pol A p1" "core_frame (ps_index P p) (ps_index P p1)"
      using durable_mut [OF wal p(2) er] core_ensure_ready_frame by blast
    show ?thesis
    proof (cases r1)
      case (Inl e)
      with slow p(1) False er p1(1) have "db' = db_set (Persisted p1) db"
        by (auto simp: search_slow_def db_write_eq)
      with durable_db_frame [OF dur p(1) p1(2,3)] show ?thesis by simp
    next
      case (Inr u)
      obtain r2 s2 where se: "storage_core_mut P (core_search L q (db_params V db k flt)) (Persisted p1) = (r2, s2)"
        by fastforce
      have "\<forall>r c'. core_search L q (db_params V db k flt) (ps_index P p1) = (r, c')
          \<longrightarrow> core_frame (ps_index P p1) c'"
        by (intro allI impI) (rule core_search_frame)
      note frame = this
      obtain p2 where
      p2: "s2 = Persisted p2" "durable L P t disk \<alpha> ok pol A p2" "core_frame (ps_index P p1) (ps_index P p2)"
      using durable_mut [OF wal p1(2) se frame] by blast
      from slow p(1) False er p1(1) Inr se p2(1) have "db' = db_set (Persisted p2) db"
        by (auto simp: search_slow_def db_write_eq storage_search_def)
      with durable_db_frame [OF dur p(1) p2(2) core_frame_trans [OF p1(3) p2(3)]] show ?thesis by simp
    qed
  qed
qed

text \<open>
  What a call allows. A write of a vector of another dimension is not one. An acknowledged write
  determines the contents of its identifier if the log is synced before a write returns
  (\<open>safe\<close>: \<open>FsyncPolicy::Always\<close>); a refused one may have been performed, and one acknowledged
  under another policy may be lost.
\<close>

definition op_effect ::
    "bool \<Rightarrow> usize \<Rightarrow> ('m, 'flt) db_op \<Rightarrow> (error + ('m, 'h) db_out) \<Rightarrow> (vec \<times> 'm option) allowed
      \<Rightarrow> (vec \<times> 'm option) allowed" where
  "op_effect safe d op r A = fold (if safe \<and> is_ok r then written else attempted) (op_reqs d op) A"

lemma op_effect_simps [simp]:
  "op_effect safe d (OUpsert i v m) r A =
     (if length v \<noteq> d then A
      else if safe \<and> is_ok r then written (Put i (v, m)) A else attempted (Put i (v, m)) A)"
  "op_effect safe d (ODelete i) r A = (if safe \<and> is_ok r then written (Del i) A else attempted (Del i) A)"
  "op_effect safe d (OGet i) r A = A"
  "op_effect safe d (OSearch q k flt) r A = A"
  "op_effect safe d OLen r A = A"
  "op_effect safe d OOptimize r A = A"
  "op_effect safe d OFlush r A = A"
  by (simp_all add: op_effect_def)

text \<open>What is allowed after a stop while \<open>call\<close> runs: a write in progress may have been performed.\<close>

definition call_effect ::
    "usize \<Rightarrow> ('m, 'flt) db_op option \<Rightarrow> (vec \<times> 'm option) allowed \<Rightarrow> (vec \<times> 'm option) allowed" where
  "call_effect d call A = fold attempted (pending d call) A"

lemma call_effect_none [simp]: "call_effect d None A = A"
  by (simp add: call_effect_def)

lemma within_call_effect: "within M A \<Longrightarrow> within M (call_effect d call A)"
  using pending_cases [of d call] by (auto simp: call_effect_def intro: within_attempted)

lemma call_effect_mono: "A i \<subseteq> call_effect d call A i"
  using pending_cases [of d call] by (auto simp: call_effect_def attempted_def)

lemma durable_db_write:
  assumes dur: "durable_db L P t disk \<alpha> ok pol A db" and here: "lk_value (db_inner db) = Persisted p"
    and law: "write_law disk (ps_index P) rq w (core_write L rq)" and run: "w p = Some (res, p')"
    and log: "log_dims (db_dim db) [rq]"
    and fits: "allowed_fits L t (db_dim db) (if pol = Always \<and> is_ok res then written rq A else attempted rq A)"
  shows "durable_db L P t disk \<alpha> ok pol (if pol = Always \<and> is_ok res then written rq A else attempted rq A)
    (db_set (Persisted p') db)"
proof -
  from dur here have p: "durable L P t disk \<alpha> ok pol A p" "co_dim (ps_index P p) = db_dim db"
    "co_metric (ps_index P p) = db_metric db" by (auto simp: durable_db_def)
  note D = durableD(5,6) [OF p(1)]
  have "durable L P t disk \<alpha> ok pol (if pol = Always \<and> is_ok res then written rq A else attempted rq A) p'
    \<and> same_ids (ps_index P p') (ps_index P p)"
  proof (cases res)
    case (Inr u)
    note run = run [unfolded Inr]
    note applied = write_law_applied [OF law run] and logged = write_law_acknowledged [OF law run D(1)]
    show ?thesis
    proof (cases "pol = Always")
      case True
      with durable_acknowledged [OF p(1) applied logged(1) logged(2)] log fits p(2) D(2) Inr show ?thesis by simp
    next
      case False
      with durable_attempted [OF p(1), of p' rq] applied logged(1) log fits p(2) show ?thesis by auto
    qed
  next
    case (Inl e)
    with durable_attempted [OF p(1)] write_law_refused [OF law run [unfolded Inl]] log fits p(2)
    show ?thesis by simp
  qed
  with p show ?thesis by (auto simp: durable_db_def same_ids_def)
qed

lemma durable_db_exec:
  assumes laws: "engine_laws L \<alpha> ok" and acc: "accept_laws (lib_index L) \<alpha>"
    and wal: "wal_laws L P disk" and dur: "durable_db L P t disk \<alpha> ok pol A db"
    and run: "db_exec L P V op db = Some (r, db')"
    and fits: "allowed_fits L t (db_dim db) (op_effect (pol = Always) (db_dim db) op r A)"
  shows "durable_db L P t disk \<alpha> ok pol (op_effect (pol = Always) (db_dim db) op r A) db'"
proof -
  from dur obtain p where p: "lk_value (db_inner db) = Persisted p" "durable L P t disk \<alpha> ok pol A p"
    by (auto simp: durable_db_def)
  show ?thesis
  proof (cases op)
    case (OUpsert i v m)
    show ?thesis
    proof (cases "length v = db_dim db")
      case False
      with OUpsert run dur show ?thesis by (auto simp: db_upsert_def check_dim_def)
    next
      case True
      with OUpsert run p(1) obtain res p' where
        ins: "ps_insert P i v m p = Some (res, p')" "db' = db_set (Persisted p') db" "is_ok r = is_ok res"
        by (auto simp: db_upsert_def check_dim_def db_write_panicking_eq)
      have law: "write_law disk (ps_index P) (Put i (v, m)) (ps_insert P i v m) (core_write L (Put i (v, m)))"
        unfolding core_write_fun by (rule wal_lawsD(4) [OF wal])
      have "log_dims (db_dim db) [Put i (v, m)]" using True by (simp add: log_dims_def)
      with durable_db_write [OF dur p(1) law, of res p'] fits ins OUpsert True show ?thesis by simp
    qed
  next
    case (OGet i)
    with run dur show ?thesis by auto
  next
    case (ODelete i)
    with run p(1) obtain res p' where
      del: "ps_delete P i p = Some (res, p')" "db' = db_set (Persisted p') db" "is_ok r = is_ok res"
      by (auto simp: db_delete_def db_write_panicking_eq)
    have law: "write_law disk (ps_index P) (Del i) (ps_delete P i) (core_write L (Del i))"
      unfolding core_write_fun by (rule wal_lawsD(5) [OF wal])
    from durable_db_write [OF dur p(1) law, of res p'] fits del ODelete show ?thesis
      by (simp add: log_dims_def)
  next
    case (OSearch q k flt)
    with run durable_db_search [OF wal dur, of V q k flt] show ?thesis
      by (cases "search_inner L P V q k flt db") auto
  next
    case OLen
    with run dur show ?thesis by auto
  next
    case OOptimize
    obtain r1 s1 where opt: "storage_core_mut P (core_optimize L) (Persisted p) = (r1, s1)" by fastforce
    obtain p1 where
      p1: "s1 = Persisted p1" "durable L P t disk \<alpha> ok pol A p1" "core_frame (ps_index P p) (ps_index P p1)"
      using durable_mut [OF wal p(2) opt] core_optimize_frame by blast
    from run OOptimize p(1) opt p1(1) have "db' = db_set (Persisted p1) db"
      by (auto simp: db_optimize_def db_write_eq simp del: storage_core_mut.simps)
    with durable_db_frame [OF dur p(1) p1(2,3)] OOptimize show ?thesis by simp
  next
    case OFlush
    obtain r1 p1 where ck: "ps_checkpoint P p = (r1, p1)" by fastforce
    from durable_checkpoint [OF laws acc p(2) wal ck]
    have p1: "durable L P t disk \<alpha> ok pol A p1" "ps_index P p1 = ps_index P p" by auto
    from run OFlush p(1) ck have "db' = db_set (Persisted p1) db"
      by (auto simp: db_flush_def db_write_eq)
    with durable_db_frame [OF dur p(1) p1(1)] p1(2) OFlush show ?thesis by simp
  qed
qed

text \<open>A checkpoint that succeeds makes what the engine holds what is allowed.\<close>

lemma durable_db_compacted:
  assumes laws: "engine_laws L \<alpha> ok" and acc: "accept_laws (lib_index L) \<alpha>"
    and wal: "wal_laws L P disk" and dur: "durable_db L P t disk \<alpha> ok pol A db"
    and run: "db_exec L P V OFlush db = Some (r, db')" and ok: "is_ok r"
  shows "durable_db L P t disk \<alpha> ok pol (exactly (db_contents P db')) db'"
proof -
  from dur obtain p where p: "lk_value (db_inner db) = Persisted p" "durable L P t disk \<alpha> ok pol A p"
    "co_dim (ps_index P p) = db_dim db" "co_metric (ps_index P p) = db_metric db"
    by (auto simp: durable_db_def)
  obtain r1 p1 where ck: "ps_checkpoint P p = (r1, p1)" by fastforce
  from run p(1) ck ok have db': "db' = db_set (Persisted p1) db" and r1: "r1 = Inr ()"
    by (cases r1; auto simp: db_flush_def db_write_eq)+
  from wal_laws_checkpoint(1) [OF wal ck] have "ps_index P p1 = ps_index P p" .
  with durable_compacted [OF laws acc p(2) wal ck [unfolded r1]] p(3,4) db' show ?thesis
    by (simp add: durable_db_def db_core_def)
qed

section \<open>Opening and reopening\<close>

lemma open_with_dim:
  assumes "open_with L P path cfg fs = Some (Inr db)"
  shows "db_dim db \<noteq> 0"
  using assms
  by (auto simp: open_with_def config_into_parts_def require_nonzero_dim_def Let_def ok_iff split: if_splits)

lemma open_created:
  assumes laws: "engine_laws L \<alpha> ok" and acc: "accept_laws (lib_index L) \<alpha>"
    and wal: "wal_laws L P disk" and absent: "\<not> ps_exists P path fs"
    and run: "open_with L P path cfg fs = Some (Inr db)"
    and limits: "kind_fits t (config_index_kind cfg)" "cfg_dim cfg \<le> usize_max t" "cfg_metric cfg \<noteq> OtherMetric"
  shows "durable_db L P t disk \<alpha> ok (du_fsync (cfg_durability cfg)) (exactly Map.empty) db"
proof -
  let ?pcfg = "persist_cfg P path (cfg_durability cfg)"
  from run absent obtain core p where
    core: "core_new L (cfg_dim cfg) (cfg_metric cfg) (cfg_core cfg) = Inr core"
    and p: "ps_open_with P core ?pcfg fs = Inr p"
    and db: "db = \<lparr>db_dim = cfg_dim cfg, db_metric = cfg_metric cfg, db_inner = rwlock_new (Persisted p)\<rparr>"
    by (auto simp: open_with_def config_into_parts_def Let_def ok_iff split: sum.splits)
  have settings: "pc_wal_enabled ?pcfg" "pc_fsync_policy ?pcfg = du_fsync (cfg_durability cfg)"
    by (simp_all add: persist_cfg_def)
  from core have new: "co_store core = store_new" "co_dim core = cfg_dim cfg" "co_metric core = cfg_metric cfg"
    "co_kind core = config_index_kind cfg"
    "is_ok (any_new (lib_index L) (config_index_kind cfg) (cfg_dim cfg) (cfg_metric cfg))"
    by (auto simp: core_new_def ok_iff config_index_kind_def)
  then have hd: "header_fits L t core" using limits by (simp add: header_fits_def)
  have inv: "store_inv (co_store core)" and emp: "core_contents core = Map.empty"
    by (simp_all add: new(1) store_inv_new store_contents_new)
  have fits: "allowed_fits L t (co_dim core) (exactly Map.empty)"
    unfolding allowed_fits_def possible_exactly by (auto simp: exactly_def)
  from durable_open [OF laws acc wal p settings(1) inv hd fits] emp db new settings(2) show ?thesis
    by (auto simp: durable_db_def rwlock_new_def)
qed

text \<open>Opening over recoverable files.\<close>

lemma open_existing:
  assumes laws: "engine_laws L \<alpha> ok" and acc: "accept_laws (lib_index L) \<alpha>"
    and wal: "wal_laws L P disk" and load: "load_law L P t disk files path (cfg_durability cfg)"
    and rec: "recoverable L t \<alpha> ok c A bs l" and hd: "header_fits L t c" and fits: "allowed_fits L t (co_dim c) A"
    and n: "n \<le> length l"
  shows "\<exists>res. open_with L P path cfg (files bs l n) = Some res
    \<and> (\<forall>db'. res = Inr db' \<longrightarrow>
          ((\<forall>l'. survives n l l' \<longrightarrow> recoverable L t \<alpha> ok c A bs l') \<longrightarrow>
             durable_db L P t disk \<alpha> ok (du_fsync (cfg_durability cfg)) (settled n l (db_contents P db') A) db')
          \<and> store_inv (co_store (db_core P db')) \<and> within (db_contents P db') A \<and> db_dim db' = co_dim c \<and> db_metric db' = co_metric c)
    \<and> (cfg_dim cfg \<noteq> 0 \<and> (cfg_dim cfg \<noteq> co_dim c \<or> cfg_metric cfg \<noteq> co_metric c) \<longrightarrow>
          res = Inl (Config ''reopened database dim/metric does not match the requested values''))
    \<and> (cfg_dim cfg \<noteq> 0 \<and> cfg_dim cfg = co_dim c \<and> cfg_metric cfg = co_metric c
        \<and> (cc_cache (cfg_core cfg) = None \<or> is_ok (any_new (lib_index L) Flat (cfg_dim cfg) (cfg_metric cfg)))
       \<longrightarrow> is_ok res)"
proof -
  let ?pol = "du_fsync (cfg_durability cfg)"
  let ?all = "\<forall>l'. survives n l l' \<longrightarrow> recoverable L t \<alpha> ok c A bs l'"
  from durable_load [OF laws acc rec hd fits load n] obtain p' where
    p': "ps_load P (persist_cfg P path (cfg_durability cfg)) (files bs l n) = Some (Inr p')"
      "?all \<Longrightarrow> durable L P t disk \<alpha> ok ?pol (settled n l (core_contents (ps_index P p')) A) p'"
      "within (core_contents (ps_index P p')) A"
      "co_dim (ps_index P p') = co_dim c" "co_metric (ps_index P p') = co_metric c"
      "store_inv (co_store (ps_index P p'))"
    by (auto simp: same_ids_def)
  have ex: "ps_exists P path (files bs l n)" by (rule load_law_exists [OF load n])
  note idx = wal_lawsD(2) [OF wal]
  have cached: "(?all \<longrightarrow> durable L P t disk \<alpha> ok ?pol (settled n l (core_contents c') A) (ps_set_index P c' p'))
      \<and> store_inv (co_store c') \<and> within (core_contents c') A \<and> co_dim c' = co_dim c \<and> co_metric c' = co_metric c"
    if "core_set_cache L cache (ps_index P p') = (r, c')" for cache r c'
    using core_set_cache_frame [OF that] durable_set_index [OF p'(2) wal, of c'] p'(3-6)
    by (auto simp: core_frame_def same_ids_def)
  have sc: "is_ok (fst (core_set_cache L cache (ps_index P p')))
      \<longleftrightarrow> is_ok (any_new (lib_index L) Flat (co_dim c) (co_metric c))" for cache
    by (simp add: core_set_cache_def p'(4,5) Let_def split: sum.split)
  show ?thesis
  proof (cases "cfg_dim cfg = 0 \<or> cfg_dim cfg \<noteq> co_dim c \<or> cfg_metric cfg \<noteq> co_metric c")
    case True
    then show ?thesis
      using ex p'(1,4,5) by (auto simp: open_with_def config_into_parts_def require_nonzero_dim_def Let_def)
  next
    case False
    then have m: "cfg_dim cfg = co_dim c" "cfg_metric cfg = co_metric c" "co_dim c \<noteq> 0" by auto
    show ?thesis
    proof (cases "cc_cache (cfg_core cfg)")
      case None
      with m ex p' show ?thesis
        by (auto simp: open_with_def config_into_parts_def require_nonzero_dim_def Let_def
            durable_db_def rwlock_new_def db_core_def)
    next
      case (Some cc)
      obtain r c' where r: "core_set_cache L (Some cc) (ps_index P p') = (r, c')" by fastforce
      show ?thesis
        using m ex p' Some r cached [OF r] sc [of "Some cc"] idx
        by (cases r) (auto simp: open_with_def config_into_parts_def require_nonzero_dim_def Let_def
            durable_db_def rwlock_new_def db_core_def)
    qed
  qed
qed

text \<open>What a stopped process leaves of a durable database is recoverable.\<close>

lemma left_behind_db:
  assumes laws: "engine_laws L \<alpha> ok" and acc: "accept_laws (lib_index L) \<alpha>"
    and dur: "durable_db L P t disk \<alpha> ok pol A db" and here: "lk_value (db_inner db) = Persisted p"
    and left: "left_behind L P disk (db_dim db) call p bs l n"
  shows "n \<le> length l" and "header_fits L t (ps_index P p)" and "co_dim (ps_index P p) = db_dim db"
    and "co_metric (ps_index P p) = db_metric db" and "allowed_fits L t (db_dim db) A"
    and "recoverable L t \<alpha> ok (ps_index P p) A bs l
      \<or> (\<exists>r. pending (db_dim db) call = [r] \<and> l = im_log (disk p) @ [r]
           \<and> recoverable L t \<alpha> ok (ps_index P p) (written r A) bs l)"
    and "\<forall>l'. survives n l l' \<longrightarrow> recoverable L t \<alpha> ok (ps_index P p) (call_effect (db_dim db) call A) bs l'"
    and "recoverable L t \<alpha> ok (ps_index P p) (call_effect (db_dim db) call A) bs l"
proof -
  from dur here have p: "durable L P t disk \<alpha> ok pol A p" "co_dim (ps_index P p) = db_dim db"
    "co_metric (ps_index P p) = db_metric db" by (auto simp: durable_db_def)
  from durableD(2,3) [OF p(1)] p show "header_fits L t (ps_index P p)" "co_dim (ps_index P p) = db_dim db"
    "co_metric (ps_index P p) = db_metric db" "allowed_fits L t (db_dim db) A" by simp_all
  from left show n: "n \<le> length l" by (simp add: left_behind_def)
  have two: "recoverable L t \<alpha> ok (ps_index P p) A bs l'
      \<or> (\<exists>r. pending (db_dim db) call = [r] \<and> l' = im_log (disk p) @ [r]
           \<and> recoverable L t \<alpha> ok (ps_index P p) (written r A) bs l')" if "survives n l l'" for l'
    using left_behind_recoverable [OF laws acc p(1)] left_behind_survives [OF left that] p(2) by simp
  with survives_self [OF n] show "recoverable L t \<alpha> ok (ps_index P p) A bs l
      \<or> (\<exists>r. pending (db_dim db) call = [r] \<and> l = im_log (disk p) @ [r]
           \<and> recoverable L t \<alpha> ok (ps_index P p) (written r A) bs l)" by blast
  have "recoverable L t \<alpha> ok (ps_index P p) (call_effect (db_dim db) call A) bs l'" if "survives n l l'" for l'
    using two [OF that]
  proof (elim disjE exE conjE)
    fix r
    assume "pending (db_dim db) call = [r]" "recoverable L t \<alpha> ok (ps_index P p) (written r A) bs l'"
    then show ?thesis by (auto simp: call_effect_def intro: recoverable_mono written_attempted)
  qed (blast intro: recoverable_mono within_call_effect)
  with survives_self [OF n]
  show "\<forall>l'. survives n l l' \<longrightarrow> recoverable L t \<alpha> ok (ps_index P p) (call_effect (db_dim db) call A) bs l'"
    and "recoverable L t \<alpha> ok (ps_index P p) (call_effect (db_dim db) call A) bs l" by blast+
qed

lemma torn_recoverable:
  assumes dur: "durable_db L P t disk \<alpha> ok pol A db" and here: "lk_value (db_inner db) = Persisted p"
    and call: "op_reqs (db_dim db) op = [r]" and left: "left_behind L P disk (db_dim db) (Some op) p bs l n"
    and l: "l = im_log (disk p) @ [r]"
  shows "recoverable L t \<alpha> ok (ps_index P p) (written r A) bs l"
proof -
  from dur here have p: "durable L P t disk \<alpha> ok pol A p" "co_dim (ps_index P p) = db_dim db"
    by (auto simp: durable_db_def)
  from left_behind_written [OF p(1) _ _ l, of "Some op" bs] left call p(2) show ?thesis by simp
qed

section \<open>Lives\<close>

text \<open>
  A database is created, used, checkpointed, and reopened after its process has stopped, at any
  moment: between two calls or in the middle of one (\<open>stopped\<close>). Each session has the
  durability settings it was opened with. Reopening finds definite contents, which are settled
  if the whole log it found is synced; what is not can still be lost by a later stop (the
  process had ended and then the power fails).
\<close>

inductive db_life ::
    "('fl, 'hn, 'iv, 'cx, 'cc, 'cs, 'm, 'p, 'h, 'z) core_lib
      \<Rightarrow> ('fl, 'hn, 'iv, 'cx, 'cc, 'm, 'ps, 'pa, 'x, 'fs) persistence
      \<Rightarrow> ('p, 'flt) vocabulary \<Rightarrow> target
      \<Rightarrow> ('ps \<Rightarrow> 'm image)
      \<Rightarrow> (u8 list \<Rightarrow> (vec \<times> 'm option) write_req list \<Rightarrow> nat \<Rightarrow> 'fs) \<Rightarrow> 'pa
      \<Rightarrow> (durability \<Rightarrow> bool) \<Rightarrow> durability
      \<Rightarrow> ('fl, 'hn, 'iv, 'cx, 'cc, 'm, 'ps) database \<Rightarrow> (vec \<times> 'm option) allowed
      \<Rightarrow> bool"
  for L P V t disk files path usable where
  created: "\<not> ps_exists P path fs \<Longrightarrow> open_with L P path cfg fs = Some (Inr db) \<Longrightarrow>
    kind_fits t (config_index_kind cfg) \<Longrightarrow> cfg_dim cfg \<le> usize_max t \<Longrightarrow> cfg_metric cfg \<noteq> OtherMetric \<Longrightarrow>
    db_life L P V t disk files path usable (cfg_durability cfg) db (exactly Map.empty)"
| used: "db_life L P V t disk files path usable dur db A \<Longrightarrow> db_exec L P V op db = Some (r, db') \<Longrightarrow>
    allowed_fits L t (db_dim db) (op_effect (du_fsync dur = Always) (db_dim db) op r A) \<Longrightarrow>
    db_life L P V t disk files path usable dur db' (op_effect (du_fsync dur = Always) (db_dim db) op r A)"
| flushed: "db_life L P V t disk files path usable dur db A \<Longrightarrow> db_exec L P V OFlush db = Some (r, db') \<Longrightarrow>
    is_ok r \<Longrightarrow> db_life L P V t disk files path usable dur db' (exactly (db_contents P db'))"
| stopped: "db_life L P V t disk files path usable dur db A \<Longrightarrow> lk_value (db_inner db) = Persisted p \<Longrightarrow>
    left_behind L P disk (db_dim db) (call :: ('m, 'flt) db_op option) p bs l n \<Longrightarrow>
    allowed_fits L t (db_dim db) (call_effect (db_dim db) call A) \<Longrightarrow>
    usable (cfg_durability cfg) \<Longrightarrow> open_with L P path cfg (files bs l n) = Some (Inr db') \<Longrightarrow>
    db_life L P V t disk files path usable (cfg_durability cfg) db'
      (settled n l (db_contents P db') (call_effect (db_dim db) call A))"

lemma db_life_durable:
  assumes "db_life L P V t disk files path usable dur db A"
    and laws: "engine_laws L \<alpha> ok" and acc: "accept_laws (lib_index L) \<alpha>" and wal: "wal_laws L P disk"
    and load: "\<forall>dur. usable dur \<longrightarrow> load_law L P t disk files path dur"
  shows "durable_db L P t disk \<alpha> ok (du_fsync dur) A db \<and> db_dim db \<noteq> 0"
  using assms(1)
proof (induction rule: db_life.induct)
  case (created fs cfg db)
  then have "db_dim db \<noteq> 0" by (blast dest: open_with_dim)
  with created show ?case using open_created [OF laws acc wal] by blast
next
  case (used dur db A op r db')
  then have "durable_db L P t disk \<alpha> ok (du_fsync dur) (op_effect (du_fsync dur = Always) (db_dim db) op r A) db'"
    using durable_db_exec [OF laws acc wal] by blast
  with used db_exec_dim [OF used.hyps(2)] show ?case by simp
next
  case (flushed dur db A r db')
  with durable_db_compacted [OF laws acc wal] db_exec_dim [OF flushed.hyps(2)] show ?case by metis
next
  case (stopped dur db A p call bs l n cfg db')
  from stopped.hyps(5) load have ld: "load_law L P t disk files path (cfg_durability cfg)" by blast
  from stopped.IH have "durable_db L P t disk \<alpha> ok (du_fsync dur) A db" by blast
  note left = left_behind_db [OF laws acc this stopped.hyps(2,3)]
  from open_existing [OF laws acc wal ld left(8,2) _ left(1)] left(3,7) stopped.hyps(4,6)
  have "durable_db L P t disk \<alpha> ok (du_fsync (cfg_durability cfg))
      (settled n l (db_contents P db') (call_effect (db_dim db) call A)) db'" by fastforce
  with stopped.hyps(6) show ?case by (blast dest: open_with_dim)
qed

section \<open>Runs of calls in a life\<close>

text \<open>What a sequence of calls with their results allows, and that it stays within the limits.\<close>

fun calls_effect ::
    "bool \<Rightarrow> usize \<Rightarrow> (('m, 'flt) db_op \<times> (error + ('m, 'h) db_out)) list \<Rightarrow> (vec \<times> 'm option) allowed
      \<Rightarrow> (vec \<times> 'm option) allowed" where
  "calls_effect safe d [] A = A"
| "calls_effect safe d ((op, r) # cs) A = calls_effect safe d cs (op_effect safe d op r A)"

fun calls_fit ::
    "('fl, 'hn, 'iv, 'cx, 'cc, 'cs, 'm, 'p, 'h, 'z) core_lib \<Rightarrow> target \<Rightarrow> bool \<Rightarrow> usize
      \<Rightarrow> (('m, 'flt) db_op \<times> (error + ('m, 'g) db_out)) list \<Rightarrow> (vec \<times> 'm option) allowed \<Rightarrow> bool" where
  "calls_fit L t safe d [] A \<longleftrightarrow> True"
| "calls_fit L t safe d ((op, r) # cs) A \<longleftrightarrow>
     allowed_fits L t d (op_effect safe d op r A) \<and> calls_fit L t safe d cs (op_effect safe d op r A)"

lemma db_life_run:
  assumes "db_life L P V t disk files path usable dur db A"
    and "db_run L P V (map fst cs) db = Some (map snd cs, db')"
    and "calls_fit L t (du_fsync dur = Always) (db_dim db) cs A"
  shows "db_life L P V t disk files path usable dur db' (calls_effect (du_fsync dur = Always) (db_dim db) cs A)"
  using assms
proof (induction cs arbitrary: db A)
  case (Cons x cs)
  let ?safe = "du_fsync dur = Always"
  obtain op r where x: "x = (op, r)" by fastforce
  from Cons.prems(2) x obtain db1 where
    one: "db_exec L P V op db = Some (r, db1)" "db_run L P V (map fst cs) db1 = Some (map snd cs, db')"
    by (auto split: Option.bind_splits)
  from Cons.prems(3) x have fit: "allowed_fits L t (db_dim db) (op_effect ?safe (db_dim db) op r A)"
    "calls_fit L t ?safe (db_dim db) cs (op_effect ?safe (db_dim db) op r A)" by auto
  have "db_life L P V t disk files path usable dur db1 (op_effect ?safe (db_dim db) op r A)"
    by (rule db_life.used [OF Cons.prems(1) one(1) fit(1)])
  from Cons.IH [OF this one(2)] fit(2) db_exec_dim [OF one(1)] x show ?case by simp
qed simp

end
