(* ===== verification/Iqdb_Persist_Instance.thy ===== *)
theory Iqdb_Persist_Instance
  imports Iqdb_Life
begin

text \<open>
  The persistence parameter instantiated: a snapshot and a log held as values, under the two
  settings it was opened with. It satisfies \<open>wal_laws\<close> and \<open>load_law\<close> over any index library;
  the witnesses of the durability properties use it, with the list indexes of
  \<open>Iqdb_Lib_Instance\<close>.
\<close>

record ('co, 'm) file_ps =
  fp_core :: 'co
  fp_snapshot :: "u8 list"
  fp_log :: "(vec \<times> 'm option) write_req list"
  fp_synced :: nat
  fp_wal :: bool
  fp_fsync :: fsync_policy

type_synonym 'm file_system = "(u8 list \<times> (vec \<times> 'm option) write_req list) option"

text \<open>
  A write is logged and applied, and with \<open>Always\<close> the log is synced; with the log disabled it
  is only applied.
\<close>

definition fp_logged :: "(vec \<times> 'm option) write_req \<Rightarrow> ('co, 'm) file_ps \<Rightarrow> ('co, 'm) file_ps" where
  "fp_logged r p =
     (if fp_wal p
      then p\<lparr>fp_log := fp_log p @ [r],
             fp_synced := if fp_fsync p = Always then length (fp_log p) + 1 else fp_synced p\<rparr>
      else p)"

definition fp_write ::
    "(vec \<times> 'm option) write_req \<Rightarrow> ((iqdb_error + unit) \<times> 'co) option \<Rightarrow> ('co, 'm) file_ps
      \<Rightarrow> ((error + unit) \<times> ('co, 'm) file_ps) option" where
  "fp_write r applied p =
     map_option (\<lambda>(res, c). (map_err Index res, (fp_logged r p)\<lparr>fp_core := c\<rparr>)) applied"

definition fp_open ::
    "'co \<Rightarrow> u8 list \<Rightarrow> (vec \<times> 'm option) write_req list \<Rightarrow> (unit, 'x) persist_config_scheme
      \<Rightarrow> ('co, 'm) file_ps" where
  "fp_open c bs log cfg = \<lparr>fp_core = c, fp_snapshot = bs, fp_log = log, fp_synced = length log,
     fp_wal = pc_wal_enabled cfg, fp_fsync = pc_fsync_policy cfg\<rparr>"

definition file_persist ::
    "('fl, 'hn, 'iv, 'cx, 'cc, 'cs, 'm, 'p, 'h, 'z) core_lib \<Rightarrow> target
      \<Rightarrow> ('fl, 'hn, 'iv, 'cx, 'cc, 'm, (('fl, 'hn, 'iv, 'cx, 'cc, 'm) iqdb_core, 'm) file_ps,
           unit, unit, 'm file_system) persistence" where
  "file_persist L t =
     \<lparr>ps_config_new = (\<lambda>path. \<lparr>pc_path = path, pc_wal_enabled = False, pc_fsync_policy = Never,
        pc_compression = NoCompression, \<dots> = ()\<rparr>),
      ps_exists = (\<lambda>path fs. fs \<noteq> None),
      ps_load = (\<lambda>cfg fs. case fs of
          None \<Rightarrow> Some (Inl (Persist (OtherPersistError 1)))
        | Some (bs, log) \<Rightarrow>
            (let kept = if pc_wal_enabled cfg then log else [] in
             case core_load L t bs of
               None \<Rightarrow> None
             | Some (Inl e) \<Rightarrow> Some (Inl (Persist e))
             | Some (Inr c) \<Rightarrow>
                 (case replay L kept c of
                    None \<Rightarrow> None
                  | Some (Inl e) \<Rightarrow> Some (Inl (Index e))
                  | Some (Inr c') \<Rightarrow> Some (Inr (fp_open c' bs kept cfg))))),
      ps_open_with = (\<lambda>c cfg fs. case core_save L c buffer of
          (Inl e, _) \<Rightarrow> Inl (Persist e)
        | (Inr _, w) \<Rightarrow> Inr (fp_open c (wr_out w) [] cfg)),
      ps_index = fp_core,
      ps_set_index = (\<lambda>c p. p\<lparr>fp_core := c\<rparr>),
      ps_insert = (\<lambda>i v m p. fp_write (Put i (v, m)) (core_insert L i v m (fp_core p)) p),
      ps_delete = (\<lambda>i p. fp_write (Del i) (core_delete L i (fp_core p)) p),
      ps_checkpoint = (\<lambda>p. case core_save L (fp_core p) buffer of
          (Inl e, _) \<Rightarrow> (Inl (Persist e), p)
        | (Inr _, w) \<Rightarrow> (Inr (), p\<lparr>fp_snapshot := wr_out w, fp_log := [], fp_synced := 0\<rparr>))\<rparr>"

definition file_disk :: "('co, 'm) file_ps \<Rightarrow> 'm image" where
  "file_disk p = \<lparr>im_snapshot = fp_snapshot p, im_log = fp_log p, im_synced = min (fp_synced p) (length (fp_log p)),
     im_wal = fp_wal p, im_fsync = fp_fsync p\<rparr>"

text \<open>Loading syncs what it replays.\<close>

abbreviation file_left :: "u8 list \<Rightarrow> (vec \<times> 'm option) write_req list \<Rightarrow> nat \<Rightarrow> 'm file_system" where
  "file_left \<equiv> \<lambda>bs log synced. Some (bs, log)"

lemma file_persist_sel [simp]:
  "ps_index (file_persist L t) = fp_core"
  "ps_set_index (file_persist L t) c p = p\<lparr>fp_core := c\<rparr>"
  "ps_exists (file_persist L t) path fs \<longleftrightarrow> fs \<noteq> None"
  by (simp_all add: file_persist_def)

lemma file_disk_core [simp]: "file_disk (p\<lparr>fp_core := c\<rparr>) = file_disk p"
  by (simp add: file_disk_def)

lemma file_disk_open [simp]:
  "file_disk (fp_open c bs log cfg) = \<lparr>im_snapshot = bs, im_log = log, im_synced = length log,
     im_wal = pc_wal_enabled cfg, im_fsync = pc_fsync_policy cfg\<rparr>" "fp_core (fp_open c bs log cfg) = c"
  by (simp_all add: file_disk_def fp_open_def)

lemma file_disk_logged:
  "fp_wal p \<Longrightarrow> appended r (file_disk p) (file_disk (fp_logged r p))
     \<and> (fp_fsync p = Always \<longrightarrow> im_synced (file_disk (fp_logged r p)) = length (im_log (file_disk (fp_logged r p))))"
  "\<not> fp_wal p \<Longrightarrow> fp_logged r p = p"
  by (auto simp: fp_logged_def file_disk_def appended_def same_settings_def)

lemma fp_write_law: "write_law file_disk fp_core r (\<lambda>p. fp_write r (app (fp_core p)) p) app"
  unfolding write_law_def
proof (intro allI impI)
  fix p :: "('a, 'b) file_ps" and res p'
  assume run: "fp_write r (app (fp_core p)) p = Some (res, p')"
  then obtain x c where x: "app (fp_core p) = Some (x, c)" "res = map_err Index x"
    "p' = (fp_logged r p)\<lparr>fp_core := c\<rparr>" by (auto simp: fp_write_def)
  have "im_wal (file_disk p) = fp_wal p" "im_fsync (file_disk p) = fp_fsync p" by (simp_all add: file_disk_def)
  with x file_disk_logged [of p r] show "case res of
      Inr _ \<Rightarrow> app (fp_core p) = Some (Inr (), fp_core p')
        \<and> (if im_wal (file_disk p) then appended r (file_disk p) (file_disk p')
             \<and> (im_fsync (file_disk p) = Always \<longrightarrow> im_synced (file_disk p') = length (im_log (file_disk p')))
           else file_disk p' = file_disk p)
    | Inl _ \<Rightarrow> (fp_core p' = fp_core p \<or> (\<exists>x. app (fp_core p) = Some (x, fp_core p')))
        \<and> (file_disk p' = file_disk p \<or> appended r (file_disk p) (file_disk p'))"
    by (cases x; cases "fp_wal p") (simp_all add: map_err_def)
qed

lemma file_wal_laws:
  fixes L :: "('fl, 'hn, 'iv, 'cx, 'cc, 'cs, 'm, 'p, 'h, 'z) core_lib"
  shows "wal_laws L (file_persist L t) file_disk"
  unfolding wal_laws_def
proof (intro conjI allI impI)
  show "persist_field (file_persist L t)" by (simp add: persist_field_def)
  show "file_disk (ps_set_index (file_persist L t) c p) = file_disk p" for c p
    by simp
next
  fix core cfg fs p
  assume "ps_open_with (file_persist L t) core cfg fs = Inr p"
  then have "\<exists>w. core_save L core buffer = (Inr (), w) \<and> p = fp_open core (wr_out w) [] cfg"
    by (auto simp: file_persist_def split: prod.splits sum.splits)
  then show "ps_index (file_persist L t) p = core" and "snapshot_of L core (im_snapshot (file_disk p))"
    and "im_log (file_disk p) = []" and "im_synced (file_disk p) = 0"
    and "im_wal (file_disk p) = pc_wal_enabled cfg" and "im_fsync (file_disk p) = pc_fsync_policy cfg"
    by (auto simp: snapshot_of_def)
next
  fix i v m
  show "write_law file_disk (ps_index (file_persist L t)) (Put i (v, m)) (ps_insert (file_persist L t) i v m)
      (core_insert L i v m)"
    using fp_write_law [of "Put i (v, m)" "core_insert L i v m"] by (simp add: file_persist_def)
  show "write_law file_disk (ps_index (file_persist L t)) (Del i) (ps_delete (file_persist L t) i) (core_delete L i)"
    using fp_write_law [of "Del i" "core_delete L i"] by (simp add: file_persist_def)
next
  fix p p' :: "(('fl, 'hn, 'iv, 'cx, 'cc, 'm) iqdb_core, 'm) file_ps" and r
  let ?sv = "core_save L (fp_core p) buffer"
  assume "ps_checkpoint (file_persist L t) p = (r, p')"
  then have "p' = p \<and> \<not> is_ok r
      \<or> fst ?sv = Inr () \<and> p' = p\<lparr>fp_snapshot := wr_out (snd ?sv), fp_log := [], fp_synced := 0\<rparr>"
    by (auto simp: file_persist_def split: prod.splits sum.splits)
  then show "ps_index (file_persist L t) p' = ps_index (file_persist L t) p"
    and "same_settings (file_disk p) (file_disk p')"
    and "im_snapshot (file_disk p') = im_snapshot (file_disk p) \<and> \<not> is_ok r
      \<or> snapshot_of L (ps_index (file_persist L t) p) (im_snapshot (file_disk p'))"
    and "im_log (file_disk p') = [] \<and> im_synced (file_disk p') = 0
        \<and> snapshot_of L (ps_index (file_persist L t) p) (im_snapshot (file_disk p'))
      \<or> im_log (file_disk p') = im_log (file_disk p) \<and> im_synced (file_disk p') = im_synced (file_disk p) \<and> \<not> is_ok r"
    by (auto simp: file_disk_def snapshot_of_def same_settings_def)
qed

lemma file_load_law: "load_law L (file_persist L t) t file_disk file_left path dur"
proof -
  have "ps_load (file_persist L t) cfg (Some (bs, l)) = Some (Inr (fp_open c1 bs l cfg))"
    if "pc_wal_enabled cfg" "core_load L t bs = Some (Inr c0)" "replay L l c0 = Some (Inr c1)" for cfg bs l c0 c1
    using that by (simp add: file_persist_def)
  then show ?thesis by (simp add: load_law_def Let_def)
qed

section \<open>The list indexes accept what they are given\<close>

lemma la_insert_dim: "any_dim list_lib (snd (any_insert list_lib i v m x)) = any_dim list_lib x"
  by (cases x) (simp_all add: list_lib_def li_core_def li_insert_def)

lemma la_insert_any: "la_insert i v m x = any_insert list_lib i v m x"
  by (cases x) (simp_all add: list_lib_def li_core_def)

lemma la_insert_accepts:
  assumes "\<not> any_needs_training list_lib x" and "length v = any_dim list_lib x" and "la_contents x i = None"
  shows "is_ok (fst (any_insert list_lib i v m x))"
  using assms
  by (cases x) (simp_all add: list_lib_def li_core_def li_insert_def li_contents_def map_of_eq_None_iff)

lemma la_build_dim: "any_dim list_lib (snd (la_build es x)) = any_dim list_lib x"
proof (induction es arbitrary: x)
  case (Cons e es)
  obtain i v m where e: "e = (i, v, m)" by (cases e) auto
  show ?case
    using Cons.IH la_insert_dim [of i v m x]
    by (auto simp: e la_insert_any split: prod.splits sum.splits)
qed simp

lemma la_build_accepts:
  assumes "\<not> any_needs_training list_lib x" and "distinct (map fst es)"
    and "\<forall>e \<in> set es. length (fst (snd e)) = any_dim list_lib x"
    and "\<forall>e \<in> set es. la_contents x (fst e) = None"
  shows "is_ok (fst (la_build es x))"
  using assms
proof (induction es arbitrary: x)
  case (Cons e es)
  obtain i v m where e: "e = (i, v, m)" by (cases e) auto
  with Cons.prems la_insert_accepts [of x v i m]
  have "is_ok (fst (la_insert i v m x))" by (simp add: la_insert_any)
  then obtain x1 where x1: "la_insert i v m x = (Inr (), x1)"
    by (metis is_ok_unit prod.collapse)
  note ok = la_insert_ok [OF x1]
  have "any_dim list_lib x1 = any_dim list_lib x"
    using la_insert_dim [of i v m x] x1 by (simp add: la_insert_any)
  moreover have "\<forall>e \<in> set es. la_contents x1 (fst e) = None"
    using Cons.prems(2,4) ok(3) e by force
  ultimately have "is_ok (fst (la_build es x1))" using Cons.IH [of x1] Cons.prems ok(2) by simp
  with e x1 show ?case by simp
qed simp

lemma list_accept_laws: "accept_laws list_lib la_contents"
  unfolding accept_laws_def
proof (intro conjI allI impI)
  fix k d mt x
  assume "any_new list_lib k d mt = Inr x"
  then show "any_dim list_lib x = d"
    by (cases k) (auto simp: any_new_def list_lib_def li_new_def li_core_def ok_iff split: if_splits)
next
  fix i v m x
  show "any_dim list_lib (snd (any_insert list_lib i v m x)) = any_dim list_lib x" by (rule la_insert_dim)
  assume "\<not> any_needs_training list_lib x \<and> length v = any_dim list_lib x \<and> la_contents x i = None"
  then show "is_ok (fst (any_insert list_lib i v m x))" by (simp add: la_insert_accepts)
next
  fix i x
  show "any_dim list_lib (snd (any_delete list_lib i x)) = any_dim list_lib x"
    by (cases x) (simp_all add: list_lib_def li_core_def li_delete_def)
  show "is_ok (fst (any_delete list_lib i x)) \<or> fst (any_delete list_lib i x) = Inl NotFound"
    by (cases x) (simp_all add: list_lib_def li_core_def li_delete_def)
next
  fix items x
  have b: "build_into list_lib = la_build" by (simp add: list_lib_def)
  show "any_dim list_lib (snd (build_into list_lib items x)) = any_dim list_lib x"
    by (simp add: b la_build_dim)
  assume "\<not> any_needs_training list_lib x \<and> la_contents x = Map.empty \<and> distinct (map fst items)
    \<and> (\<forall>e \<in> set items. length (fst (snd e)) = any_dim list_lib x)"
  then show "is_ok (fst (build_into list_lib items x))" by (auto simp: b intro: la_build_accepts)
qed

end
