(* ===== verification/Iqdb_Handle_Props.thy ===== *)
theory Iqdb_Handle_Props
  imports Iqdb_Persist_Instance
begin

text \<open>
  The properties of the public handle, each with an application to a concrete database: the
  list indexes of \<open>demo_lib\<close>, a snapshot and log held as values, and a vocabulary that
  accepts every vector.
\<close>

section \<open>A concrete database\<close>

definition demo_vocab :: "(nat, unit) vocabulary" where
  "demo_vocab = \<lparr>vector_new = Inr, params_new = (\<lambda>k mt. k), params_filter_update = (\<lambda>flt p. p)\<rparr>"

abbreviation demo_files where
  "demo_files \<equiv> file_persist demo_lib Ptr64"

definition demo_cfg :: "index_kind \<Rightarrow> nat iqdb_config" where
  "demo_cfg k = config_index k (config_new 2 Euclidean)"

lemma demo_cfg_sel [simp]:
  "cfg_dim (demo_cfg k) = 2" "cfg_metric (demo_cfg k) = Euclidean"
  "cfg_core (demo_cfg k) = \<lparr>cc_index = k, cc_cache = None\<rparr>" "config_index_kind (demo_cfg k) = k"
  by (simp_all add: demo_cfg_def config_defs)

type_synonym demo_core = "(demo_meta list_index, demo_meta list_index, demo_meta list_index, demo_meta memo, nat,
   demo_meta) iqdb_core"

type_synonym demo_db = "(demo_core, (demo_core, demo_meta) file_ps) iqdb"

definition demo_mem :: "index_kind \<Rightarrow> demo_db" where
  "demo_mem k = \<lparr>db_dim = 2, db_metric = Euclidean, db_inner = rwlock_new (Memory (demo_core k False))\<rparr>"

lemma demo_mem_open: "open_in_memory_with demo_lib (demo_cfg k) = Inr (demo_mem k)"
  using demo_core_new [of k False]
  by (simp add: open_in_memory_with_def config_into_parts_def require_nonzero_dim_def demo_mem_def)

lemma demo_field: "persist_field demo_files"
  using file_wal_laws unfolding wal_laws_def by blast

section \<open>The in-memory database\<close>

lemma db_get_contents:
  assumes "store_inv (co_store (db_core P db))"
  shows "db_get P V db i = Some (case db_contents P db i of
      None \<Rightarrow> Inr None
    | Some (v, m) \<Rightarrow> and_then (map_err from_iqdb (vector_new V v)) (\<lambda>w. Inr (Some (w, m))))"
  by (simp add: db_get_def core_get_row_contents [OF assms])

lemma open_in_memory_core:
  assumes "open_in_memory_with L cfg = Inr db"
  shows "in_memory db \<and> db_dim db = cfg_dim cfg \<and> db_contents P db = Map.empty"
  using assms
  by (auto simp: open_in_memory_with_def config_into_parts_def ok_iff in_memory_def db_core_def
      rwlock_new_def core_new_def store_inv_new store_contents_new)

lemma open_in_memory_typed:
  assumes "open_in_memory_with L cfg = Inr db"
  shows "mem_typed db \<and> db_dim db = cfg_dim cfg"
  using assms
  by (auto simp: open_in_memory_with_def config_into_parts_def ok_iff mem_typed_def
      rwlock_new_def core_new_def store_inv_new store_contents_new)

text \<open>
  C11. The in-memory database is a map: whatever the index library does, a sequence of upserts
  of vectors of the right dimension and of deletes never panics, and then \<open>get\<close> returns the
  last vector and metadata written under an identifier, nothing for one that was deleted or
  never written, and \<open>len\<close> counts the live identifiers.
\<close>

theorem handle_history:
  assumes "open_in_memory_with L cfg = Inr db"
    and "\<forall>i v m. Put i (v, m) \<in> set rs \<longrightarrow> length v = cfg_dim cfg \<and> vector_new V v = Inr v"
  shows "\<exists>db'. run_reqs (db_put L P) (db_del L P) rs db = Some db'
     \<and> (\<forall>i. db_get P V db' i = Some (Inr (Option.bind (last_req i rs) req_result)))
     \<and> db_len P db' = card {i. Option.bind (last_req i rs) req_result \<noteq> None}"
proof -
  from open_in_memory_core [OF assms(1)]
  have mem: "in_memory db" and dim: "db_dim db = cfg_dim cfg" and empty: "db_contents P db = Map.empty"
    by auto
  have "mem.admissible db rs" using assms(2) dim by (auto simp: mem.admissible_def)
  from mem.run_ok [OF mem this, of L P] obtain db' where
    db': "run_reqs (db_put L P) (db_del L P) rs db = Some db'" "in_memory db'"
      "db_contents P db' = reqs_apply rs (db_contents P db)" by blast
  have at: "db_contents P db' i = Option.bind (last_req i rs) req_result" for i
    unfolding db'(3) reqs_apply_lookup by (simp add: empty split: option.split)
  have inv: "store_inv (co_store (db_core P db'))" using db'(2) by (auto simp: in_memory_def db_core_def)
  have valid: "vector_new V v = Inr v" if "Option.bind (last_req i rs) req_result = Some (v, m)" for i v m
  proof -
    from that obtain r where r: "last_req i rs = Some r" "req_result r = Some (v, m)"
      by (auto split: Option.bind_splits)
    from r(2) obtain j where "r = Put j (v, m)" by (cases r) auto
    with last_req_in [OF r(1)] assms(2) show ?thesis by auto
  qed
  have "db_get P V db' i = Some (Inr (Option.bind (last_req i rs) req_result))" for i
    unfolding db_get_contents [OF inv] at using valid [of i]
    by (auto simp: map_err_def split: option.split)
  moreover have "dom (db_contents P db') = {i. Option.bind (last_req i rs) req_result \<noteq> None}"
    using at by (auto simp: dom_def)
  ultimately show ?thesis using db'(1) mem.count_ok [OF db'(2), of P] by auto
qed

theorem handle_history_witness:
  "\<exists>db'. run_reqs (db_put demo_lib demo_files) (db_del demo_lib demo_files)
       [Put (U64 1) ([0, 0], None), Put (U64 2) ([5, 5], None), Del (U64 1)] (demo_mem demo_ivf) = Some db'
     \<and> db_get demo_files demo_vocab db' (U64 2) = Some (Inr (Some ([5, 5], None)))"
proof -
  let ?rs = "[Put (U64 1) ([0, 0], None), Put (U64 2) ([5, 5], None), Del (U64 1)]"
  have "\<forall>i v m. Put i (v, m) \<in> set ?rs \<longrightarrow>
      length v = cfg_dim (demo_cfg demo_ivf) \<and> vector_new demo_vocab v = Inr v"
    by (auto simp: demo_vocab_def)
  note history = handle_history [where rs = ?rs and P = demo_files, OF demo_mem_open this]
  have last: "Option.bind (last_req (U64 2) ?rs) req_result = Some ([5, 5], None)" by simp
  from history show ?thesis unfolding last [symmetric] by blast
qed

text \<open>
  C40. What cannot be used is refused before anything else happens. A zero dimension is refused
  by every constructor, with no index built and no file looked at; on an open database, a
  vector or query of another dimension is refused with both dimensions in the error, and the
  data, the log, the index and the cache are what they were.
\<close>

theorem handle_refuses:
  assumes "cfg_dim cfg = 0" and "length v \<noteq> db_dim db"
  shows "open_in_memory_with L cfg = Inl (Config ''dim must be non-zero'')
    \<and> open_with L P path cfg fs = Some (Inl (Config ''dim must be non-zero''))
    \<and> db_upsert L P i v m db = Some (Inl (Index (DimensionMismatch (db_dim db) (length v))), db)
    \<and> search_inner L P V v k flt db = (Inl (Index (DimensionMismatch (db_dim db) (length v))), db)
    \<and> db_search_batch L P V (v # qs) k db = (Inl (Index (DimensionMismatch (db_dim db) (length v))), db)"
  using assms
  by (simp add: open_in_memory_with_def open_with_def config_into_parts_def require_nonzero_dim_def
      db_upsert_def search_inner_def check_dim_def db_search_batch_def db_search_def)

theorem handle_refuses_witness:
  "db_upsert demo_lib demo_files (U64 1) [0, 0, 0] None (demo_mem Flat)
     = Some (Inl (Index (DimensionMismatch 2 3)), demo_mem Flat)"
proof -
  have zero: "cfg_dim (config_new 0 Cosine :: nat iqdb_config) = 0" by (simp add: config_defs)
  have "length [0, 0, 0 :: f32] \<noteq> db_dim (demo_mem Flat)" by (simp add: demo_mem_def)
  from handle_refuses [OF zero this, where L = demo_lib and P = demo_files and i = "U64 1" and m = None]
  have "db_upsert demo_lib demo_files (U64 1) [0, 0, 0] None (demo_mem Flat)
     = Some (Inl (Index (DimensionMismatch (db_dim (demo_mem Flat)) (length [0, 0, 0 :: f32]))), demo_mem Flat)"
    by blast
  moreover have "db_dim (demo_mem Flat) = 2" "length [0, 0, 0 :: f32] = 3" by (simp_all add: demo_mem_def)
  ultimately show ?thesis by (simp only:)
qed

text \<open>
  \<open>delete\<close> tells whether the identifier was there and removes it, so a second delete
  succeeds with \<open>false\<close> or not at all; every other entry stays.
\<close>

lemma handle_delete:
  assumes "in_memory db" and "db_delete L P i db = Some (Inr existed, db1)"
  shows "existed = (i \<in> dom (db_contents P db)) \<and> db_contents P db1 = (db_contents P db)(i := None)
    \<and> (\<exists>res db2. db_delete L P i db1 = Some (res, db2) \<and> res \<noteq> Inr True
         \<and> db_contents P db2 = db_contents P db1)"
proof -
  from db_delete_memory [OF assms(1), of L P i] assms(2)
  have one: "in_memory db1" "db_contents P db1 = (db_contents P db)(i := None)"
    "existed = (i \<in> dom (db_contents P db))" by auto
  from db_delete_memory [OF one(1), of L P i] one(2,3) show ?thesis by (auto simp: domIff)
qed

lemma handle_delete_witness:
  "\<exists>db1. db_delete demo_lib demo_files (U64 7) (demo_mem demo_ivf) = Some (Inr False, db1)
     \<and> db_contents demo_files db1 (U64 7) = None"
proof -
  let ?db = "demo_mem demo_ivf"
  have mem: "in_memory ?db" and empty: "db_contents demo_files ?db = Map.empty"
    using open_in_memory_core [OF demo_mem_open] by blast+
  obtain b db1 where run: "db_delete demo_lib demo_files (U64 7) ?db = Some (Inr b, db1)"
    by (simp add: db_delete_def db_write_panicking_eq demo_mem_def rwlock_new_def core_delete_def
        store_remove_def core_untrained_def map_err_def demo_defs)
  from handle_delete [OF mem this] run empty show ?thesis by auto
qed

section \<open>Searching\<close>

text \<open>
  What a search may answer: nothing for an empty database, the error of a failed rebuild, or
  what a trained index of the configured kind answers that holds exactly the stored vectors,
  under the metric of the handle and the caller's filter.
\<close>

definition answered ::
    "('fl, 'hn, 'iv, 'cx, 'cc, 'cs, 'm, 'p, 'h, 'z) core_lib
      \<Rightarrow> ('fl, 'hn, 'iv, 'cx, 'cc, 'm, 'ps, 'pa, 'x, 'fs) persistence
      \<Rightarrow> ('p, 'flt) vocabulary \<Rightarrow> (('fl, 'hn, 'iv) any_index \<Rightarrow> 'm index_contents)
      \<Rightarrow> ('fl, 'hn, 'iv, 'cx, 'cc, 'm, 'ps) database
      \<Rightarrow> vec \<Rightarrow> usize \<Rightarrow> 'flt option \<Rightarrow> error + 'h list \<Rightarrow> bool" where
  "answered L P V \<alpha> db q k flt res \<longleftrightarrow>
     (if db_contents P db = Map.empty then res = Inr []
      else (\<exists>e. fst (core_ensure_ready L (db_core P db)) = Inl e \<and> res = Inl (Index e))
        \<or> (\<exists>x. kind_matches (co_kind (db_core P db)) x \<and> \<not> any_needs_training (lib_index L) x
             \<and> \<alpha> x = db_contents P db
             \<and> res = map_err from_iqdb (fst (any_search (lib_index L) q
                 (params_filter_update V flt (params_new V k (db_metric db))) x))))"

lemma core_is_empty_contents:
  "core_store_ok c \<Longrightarrow> core_is_empty c \<longleftrightarrow> core_contents c = Map.empty"
  using store_len_card [of "co_store c"]
  by (auto simp: core_is_empty_def store_is_empty_def store_len_def)

lemma search_answered:
  assumes laws: "engine_laws L \<alpha> ok" and field: "persist_field P" and reach: "core_reach L True (db_core P db)"
    and dim: "length q = db_dim db" and run: "search_inner L P V q k flt db = (res, db')"
  shows "answered L P V \<alpha> db q k flt res \<and> core_reach L True (db_core P db')"
proof -
  let ?c = "db_core P db"
  from core_reach_inv [OF reach laws] have st: "core_store_ok ?c" by (simp add: core_wf_def)
  from run have "search_slow L P V q k flt db = (res, db')" by (simp add: search_inner_slow [OF field dim])
  with field show ?thesis
  proof (cases rule: search_slow_core)
    case empty
    with reach core_is_empty_contents [OF st] show ?thesis by (simp add: answered_def)
  next
    case (failed e)
    then have "core_reach L True (db_core P db')"
      using core_reach.step [OF reach core_step.ready [OF failed(1)]] by simp
    moreover have "db_contents P db \<noteq> Map.empty"
    proof
      assume "db_contents P db = Map.empty"
      with core_is_empty_contents [OF st] failed(1) show False
        by (auto simp: core_ensure_ready_def core_is_empty_def)
    qed
    ultimately show ?thesis using failed by (simp add: answered_def)
  next
    case (searched c1 r)
    then have "core_reach L True c1"
      using core_reach.step [OF reach core_step.ready [OF searched(2)]] by simp
    then have "core_reach L True (db_core P db')"
      using core_reach.step [OF _ core_step.search [OF searched(3)]] by fastforce
    with core_search_ready [OF laws reach searched(2,1,3)] searched core_is_empty_contents [OF st] show ?thesis
      by (auto simp: answered_def db_params_def)
  qed
qed

text \<open>
  C9. A search through the handle is a search of what is stored. Over an engine that no write
  has failed on, it answers \<open>[]\<close> when nothing is stored, and otherwise either reports why the
  index could not be built or gives what a trained index of the configured kind answers that
  holds exactly the stored vectors, under the handle's metric and the given filter. It leaves
  the stored data, and the engine in such a state.
\<close>

theorem handle_search_follows_store:
  assumes "engine_laws L \<alpha> ok" and "persist_field P" and "core_reach L True (db_core P db)"
    and "length q = db_dim db" and "search_inner L P V q k flt db = (res, db')"
  shows "answered L P V \<alpha> db q k flt res \<and> core_reach L True (db_core P db')
    \<and> db_contents P db' = db_contents P db"
  using search_answered [OF assms] search_inner_frame [OF assms(2,5)] by (simp add: core_frame_def)

text \<open>A database with one vector, written and searched before.\<close>

definition demo_searched :: demo_db where
  "demo_searched = db_set (Memory (demo_ready False)) (demo_mem demo_ivf)"

lemma demo_searched_reach: "core_reach demo_lib True (db_core demo_files demo_searched)"
  using demo_ready_reach [of False] by (simp add: demo_searched_def)

lemma demo_searched_contents: "db_contents demo_files demo_searched = [U64 1 \<mapsto> ([0, 0], None)]"
  by (simp add: demo_searched_def demo_ready_def demo_one_def store_contents_def rows_contents_def row_entry_def)

theorem handle_search_follows_store_witness:
  "\<exists>db'. db_contents demo_files db' = [U64 1 \<mapsto> ([0, 0], None)]
     \<and> answered demo_lib demo_files demo_vocab la_contents demo_searched [9, 9] 3 None
         (fst (search_inner demo_lib demo_files demo_vocab [9, 9] 3 None demo_searched))"
proof -
  have dim: "length [9, 9 :: f32] = db_dim demo_searched"
    by (simp add: demo_searched_def demo_mem_def)
  have run: "search_inner demo_lib demo_files demo_vocab [9, 9] 3 None demo_searched
      = (fst (search_inner demo_lib demo_files demo_vocab [9, 9] 3 None demo_searched),
         snd (search_inner demo_lib demo_files demo_vocab [9, 9] 3 None demo_searched))" by simp
  from handle_search_follows_store [OF demo_engine_laws demo_field demo_searched_reach dim run]
  show ?thesis unfolding demo_searched_contents by blast
qed

lemma answered_frame:
  assumes "answered L P V \<alpha> db1 q k flt (Inr hits)"
    and "core_frame (db_core P db) (db_core P db1)" and "db_metric db1 = db_metric db"
  shows "answered L P V \<alpha> db q k flt (Inr hits)"
  using assms by (auto simp: answered_def core_frame_def split: if_splits)

lemma search_inner_ids:
  "search_inner L P V q k flt db = (res, db') \<Longrightarrow> db_dim db' = db_dim db \<and> db_metric db' = db_metric db"
  by (auto simp: search_inner_def search_fast_def search_slow_def db_write_eq apsnd_eq
      split: sum.splits option.splits prod.splits)

lemma search_all_answered:
  assumes laws: "engine_laws L \<alpha> ok" and field: "persist_field P"
    and "search_all (\<lambda>q. search_inner L P V q k flt) qs db = (Inr hits, db')"
    and "core_reach L True (db_core P db)"
  shows "list_all2 (\<lambda>q h. answered L P V \<alpha> db q k flt (Inr h)) qs hits
    \<and> core_frame (db_core P db) (db_core P db')"
  using assms(3,4)
proof (induction qs arbitrary: db hits)
  case (Cons q qs)
  from Cons.prems(1) obtain h db1 rest where
    one: "search_inner L P V q k flt db = (Inr h, db1)"
    and more: "search_all (\<lambda>q. search_inner L P V q k flt) qs db1 = (Inr rest, db')" and hits: "hits = h # rest"
    by (auto simp: apfst_def map_prod_def map_sum_def split: prod.splits sum.splits)
  from one have dim: "length q = db_dim db" by (auto simp: search_inner_def check_dim_def split: if_splits)
  from search_answered [OF laws field Cons.prems(2) dim one] Cons.IH [OF more]
  have ans: "answered L P V \<alpha> db q k flt (Inr h)"
    and tail: "list_all2 (\<lambda>q h. answered L P V \<alpha> db1 q k flt (Inr h)) qs rest"
      "core_frame (db_core P db1) (db_core P db')" by auto
  note frame = search_inner_frame [OF field one]
  have "list_all2 (\<lambda>q h. answered L P V \<alpha> db q k flt (Inr h)) qs rest"
    using tail(1) by (rule list_all2_mono) (rule answered_frame [OF _ frame], simp_all add: search_inner_ids [OF one])
  with ans hits core_frame_trans [OF frame tail(2)] show ?case by simp
qed simp

text \<open>
  C23. A batch search that succeeds gives one answer per query, in order, and each is an answer
  the query could have got alone on the database the batch found: the rebuild that an earlier
  query of the batch triggers does not show in the later ones.
\<close>

theorem batch_search_answers:
  assumes "engine_laws L \<alpha> ok" and "persist_field P" and "core_reach L True (db_core P db)"
    and "db_search_batch_with L P V qs k flt db = (Inr hits, db')"
  shows "list_all2 (\<lambda>q h. answered L P V \<alpha> db q k (Some flt) (Inr h)) qs hits
    \<and> db_contents P db' = db_contents P db"
proof -
  have "(\<lambda>q. db_search_with L P V q k flt) = (\<lambda>q. search_inner L P V q k (Some flt))"
    by (intro ext) (simp add: db_search_with_def)
  with assms(4) have "search_all (\<lambda>q. search_inner L P V q k (Some flt)) qs db = (Inr hits, db')"
    by (simp add: db_search_batch_with_def)
  from search_all_answered [OF assms(1,2) this assms(3)] show ?thesis by (simp add: core_frame_def)
qed

theorem batch_search_answers_witness:
  "\<exists>h1 h2. answered demo_lib demo_files demo_vocab la_contents demo_searched [9, 9] 3 (Some ()) (Inr h1)
     \<and> answered demo_lib demo_files demo_vocab la_contents demo_searched [0, 0] 3 (Some ()) (Inr h2)"
proof -
  obtain res db' where run: "db_search_batch_with demo_lib demo_files demo_vocab [[9, 9], [0, 0]] 3 () demo_searched
      = (res, db')" by fastforce
  then have "is_ok res"
    by (auto simp: db_search_batch_with_def db_search_with_def search_inner_def search_fast_def check_dim_def
        db_write_eq demo_searched_def demo_mem_def rwlock_new_def core_is_empty_def store_is_empty_def
        core_needs_materialization_def storage_search_def core_search_def demo_ready_def demo_one_def
        li_core_def li_search_def map_err_def db_params_def demo_vocab_def demo_defs)
  then obtain hits where "res = Inr hits" by (cases res) auto
  with batch_search_answers [OF demo_engine_laws demo_field demo_searched_reach] run show ?thesis
    by (fastforce simp: list_all2_Cons1)
qed

section \<open>A poisoned lock\<close>

definition poison :: "bool \<Rightarrow> ('co, 'ps) iqdb \<Rightarrow> ('co, 'ps) iqdb" where
  "poison b db = db\<lparr>db_inner := (db_inner db)\<lparr>lk_poisoned := b\<rparr>\<rparr>"

lemma poison_sel [simp]:
  "db_dim (poison b db) = db_dim db" "db_metric (poison b db) = db_metric db"
  "lk_value (db_inner (poison b db)) = lk_value (db_inner db)"
  "check_dim (poison b db) n = check_dim db n"
  by (simp_all add: poison_def check_dim_def)

lemma poison_params [simp]: "db_params V (poison b db) k flt = db_params V db k flt"
  by (simp add: poison_def db_params_def)

lemma poison_core [simp]: "db_core P (poison b db) = db_core P db"
  by (simp add: db_core_def)

lemma db_write_poison:
  "db_write f (poison b db) = apsnd (poison b) (db_write f db)"
  "db_write_panicking g (poison b db) = map_option (apsnd (poison b)) (db_write_panicking g db)"
proof -
  have "db_set s (poison b db) = poison b (db_set s db)" for s by (simp add: db_set_def poison_def)
  then show "db_write f (poison b db) = apsnd (poison b) (db_write f db)"
    "db_write_panicking g (poison b db) = map_option (apsnd (poison b)) (db_write_panicking g db)"
    by (simp_all add: db_write_eq db_write_panicking_eq apsnd_compose option.map_comp comp_def)
qed

lemma search_inner_poison:
  "search_inner L P V q k flt (poison b db) = apsnd (poison b) (search_inner L P V q k flt db)"
proof -
  have fast: "search_fast L P V q k flt (poison b db) = apsnd (poison b) (search_fast L P V q k flt db)"
    unfolding search_fast_def db_write_poison poison_params ..
  have slow: "search_slow L P V q k flt (poison b d) = apsnd (poison b) (search_slow L P V q k flt d)" for d
    unfolding search_slow_def db_write_poison poison_params ..
  obtain r d where "search_fast L P V q k flt db = (r, d)" by fastforce
  then show ?thesis by (cases r) (simp_all add: search_inner_def fast slow split: sum.split)
qed

text \<open>
  A poisoned lock is no different from a sound one: every call on a handle whose lock a
  panicking writer has poisoned returns what it returns otherwise, and leaves the same
  database behind.
\<close>

lemma poison_is_recovered:
  "db_exec L P V op (poison b db) = map_option (apsnd (poison b)) (db_exec L P V op db)"
proof -
  have swap: "apfst f (apsnd g x) = apsnd g (apfst f x)" for f :: "'x \<Rightarrow> 'y" and g :: "'z \<Rightarrow> 'z" and x
    by (cases x) simp
  show ?thesis
    by (cases op) (simp_all add: db_upsert_def db_delete_def db_get_def db_len_def db_optimize_def db_flush_def
        db_write_poison search_inner_poison option.map_comp comp_def swap split: sum.split)
qed

end
