(* ===== verification/Iqdb_Concurrent_Props.thy ===== *)
theory Iqdb_Concurrent_Props
  imports Iqdb_Concurrent Iqdb_Handle_Props
begin

text \<open>
  The properties of a handle shared by threads: linearizability, and the type invariant of the
  stored data in every reachable state. That no call is stuck is a matter of the lock, in
  \<open>Iqdb_Lock_Props\<close>.
\<close>

section \<open>Two threads on one database\<close>

abbreviation demo_start :: "index_kind \<Rightarrow> (demo_core, (demo_core, demo_meta) file_ps, demo_meta, unit, vector_id) conc_state" where
  "demo_start k \<equiv> \<lparr>cs_db = demo_mem k, cs_thread = (\<lambda>_. Idle), cs_history = []\<rparr>"

abbreviation demo_reach where
  "demo_reach k \<equiv> conc_reach demo_lib demo_files demo_vocab (demo_mem k)"

text \<open>Thread 1 asks for the size of the empty database; thread 2 has a search under way.\<close>

definition demo_two :: "(demo_core, (demo_core, demo_meta) file_ps, demo_meta, unit, vector_id) conc_state" where
  "demo_two = take_effect 1 OLen (Inr (OutLen 0)) (demo_mem demo_ivf)
     (set_thread 2 (Called (OSearch [0, 0] 3 None)) [Invoke 2 (OSearch [0, 0] 3 None)]
       (set_thread 1 (Called OLen) [Invoke 1 OLen] (demo_start demo_ivf)))"

lemma demo_mem_len: "db_len demo_files (demo_mem demo_ivf) = 0"
proof -
  have "in_memory (demo_mem demo_ivf)" "db_contents demo_files (demo_mem demo_ivf) = Map.empty"
    using open_in_memory_core [OF demo_mem_open] by blast+
  with mem.count_ok [OF this(1), of demo_files] show ?thesis by simp
qed

lemma demo_two_reach: "demo_reach demo_ivf demo_two"
proof -
  let ?s0 = "demo_start demo_ivf"
  let ?s1 = "set_thread 1 (Called OLen) [Invoke 1 OLen] ?s0"
  let ?s2 = "set_thread 2 (Called (OSearch [0, 0] 3 None)) [Invoke 2 (OSearch [0, 0] 3 None)] ?s1"
  have "demo_reach demo_ivf ?s0" by (rule conc_reach.start)
  then have "demo_reach demo_ivf ?s1" by (rule conc_reach.step) (rule conc_step.call, simp)
  then have "demo_reach demo_ivf ?s2" by (rule conc_reach.step) (rule conc_step.call, simp)
  then show ?thesis unfolding demo_two_def
    by (rule conc_reach.step) (rule conc_step.whole, simp_all add: demo_mem_len)
qed

section \<open>Linearizability\<close>

text \<open>
  C7. The handle is linearizable. In every reachable interleaving of any number of threads,
  running the calls one after the other in the order in which they took effect gives the same
  results and the same database; and each thread's calls take effect between their invocation
  and their response, which carries that result. This holds although a search that builds the
  index gives the lock back in between.
\<close>

theorem conc_linearizable:
  assumes "persist_field P" and "conc_reach L P V db s"
  shows "db_run L P V (map fst (effects (cs_history s))) db = Some (map snd (effects (cs_history s)), cs_db s)
    \<and> (\<forall>t. thread_phase t (cs_history s) = Some (phase_of (cs_thread s t)))"
  using conc_reach_inv [OF assms(2,1)] by (simp add: conc_inv_def)

theorem conc_linearizable_witness:
  "db_run demo_lib demo_files demo_vocab [OLen] (demo_mem demo_ivf) = Some ([Inr (OutLen 0)], demo_mem demo_ivf)
    \<and> thread_phase 2 (cs_history demo_two) = Some (Pending (OSearch [0, 0] 3 None))"
  using conc_linearizable [OF demo_field demo_two_reach] by (simp add: demo_two_def)

section \<open>The type of the stored data\<close>

text \<open>
  C19. Whatever threads do to a shared in-memory database, every stored vector has the
  dimension the database was opened with, and no call panics.
\<close>

theorem conc_dimensions:
  assumes "open_in_memory_with L cfg = Inr db" and "conc_reach L P V db s"
  shows "(\<forall>i v m. db_contents P (cs_db s) i = Some (v, m) \<longrightarrow> length v = cfg_dim cfg)
    \<and> db_exec L P V op (cs_db s) \<noteq> None"
proof -
  from open_in_memory_typed [OF assms(1)] have init: "mem_typed db" "db_dim db = cfg_dim cfg" by auto
  with conc_reach_typed [OF assms(2)] have typed: "mem_typed (cs_db s)" "db_dim (cs_db s) = cfg_dim cfg" by auto
  then have "db_contents P (cs_db s) i = Some (v, m) \<Longrightarrow> length v = cfg_dim cfg" for i v m
    by (fastforce simp: mem_typed_def db_core_def dest: ranI)
  with db_exec_typed [OF typed(1), of L P V op] show ?thesis by auto
qed

theorem conc_dimensions_witness:
  "db_exec demo_lib demo_files demo_vocab (OUpsert (U64 1) [0, 0, 0] None) (cs_db demo_two) \<noteq> None"
  using conc_dimensions [OF demo_mem_open demo_two_reach] by blast

end
