(* ===== verification/Iqdb_Durability_Props.thy ===== *)
theory Iqdb_Durability_Props
  imports Iqdb_Handle_Props
begin

text \<open>
  The properties of a file-backed database: it survives a stop at any moment, it cannot be
  reopened under another type, and it answers as the in-memory one does.
\<close>

section \<open>A file-backed database\<close>

abbreviation demo_life where
  "demo_life \<equiv> db_life demo_lib demo_files demo_vocab Ptr64 file_disk file_left () (\<lambda>_. True)"

definition demo_files_of :: "u8 list \<Rightarrow> (vec \<times> demo_meta option) write_req list \<Rightarrow> demo_core \<Rightarrow>
    (demo_core, demo_meta) file_ps" where
  "demo_files_of bs log c = \<lparr>fp_core = c, fp_snapshot = bs, fp_log = log, fp_synced = length log,
     fp_wal = True, fp_fsync = Always\<rparr>"

definition demo_snapshot :: "u8 list" where
  "demo_snapshot = wr_out (snd (core_save demo_lib (demo_core demo_ivf False) buffer))"

definition demo_on :: "(demo_core, demo_meta) file_ps \<Rightarrow> demo_db" where
  "demo_on p = \<lparr>db_dim = 2, db_metric = Euclidean, db_inner = rwlock_new (Persisted p)\<rparr>"

lemma demo_kind_fits: "kind_fits t demo_ivf"
  by (simp add: demo_ivf_def)

lemma demo_core_storable: "storable demo_lib Ptr64 (demo_core demo_ivf False)"
  using demo_kind_fits [of Ptr64]
  by (simp add: storable_def demo_defs store_inv_def store_contents_def rows_contents_def)

lemma demo_core_saves: "core_save demo_lib (demo_core demo_ivf False) buffer
    = (Inr (), snd (core_save demo_lib (demo_core demo_ivf False) buffer))"
proof -
  have "core_len (demo_core demo_ivf False) \<le> usize_max Ptr64"
    by (simp add: core_len_def store_len_def demo_defs)
  from encode_fits [OF storable_fits [OF demo_core_storable this]] show ?thesis
    by (simp add: core_save_def prod_eq_iff)
qed

text \<open>Its log is synced before a write returns, which is the default.\<close>

lemma demo_always: "du_fsync (cfg_durability (demo_cfg k)) = Always"
  by (simp add: demo_cfg_def config_defs default_durability_def)

lemma demo_created:
  "open_with demo_lib demo_files () (demo_cfg demo_ivf) None
     = Some (Inr (demo_on (demo_files_of demo_snapshot [] (demo_core demo_ivf False))))"
proof -
  obtain w where w: "core_save demo_lib (demo_core demo_ivf False) buffer = (Inr (), w)"
    using demo_core_saves by blast
  have "ps_open_with demo_files (demo_core demo_ivf False) cfg None
      = Inr (demo_files_of demo_snapshot [] (demo_core demo_ivf False))"
    if "pc_wal_enabled cfg" "pc_fsync_policy cfg = Always" for cfg
    using that by (simp add: file_persist_def fp_open_def demo_files_of_def demo_snapshot_def w)
  then have "ps_open_with demo_files (demo_core demo_ivf False) (persist_cfg demo_files () (cfg_durability (demo_cfg demo_ivf))) None
      = Inr (demo_files_of demo_snapshot [] (demo_core demo_ivf False))"
    by (simp add: persist_cfg_def demo_always)
  then show ?thesis using demo_core_new [of demo_ivf False]
    by (simp add: open_with_def config_into_parts_def require_nonzero_dim_def Let_def demo_on_def)
qed

text \<open>One vector written since the database was created: it is in the log only.\<close>

definition demo_written :: "(demo_core, demo_meta) file_ps" where
  "demo_written = demo_files_of demo_snapshot [Put (U64 1) ([0, 0], None)] (demo_one False)"

lemma demo_first_write:
  "db_exec demo_lib demo_files demo_vocab (OUpsert (U64 1) [0, 0] None)
       (demo_on (demo_files_of demo_snapshot [] (demo_core demo_ivf False)))
     = Some (Inr OutUnit, demo_on demo_written)"
  using demo_insert [of False]
  by (simp add: db_upsert_def check_dim_def db_write_panicking_eq demo_on_def rwlock_new_def
      file_persist_def fp_write_def fp_logged_def demo_files_of_def demo_written_def map_err_def db_set_def)

definition demo_allowed :: "(vec \<times> demo_meta option) allowed" where
  "demo_allowed = written (Put (U64 1) ([0, 0], None)) (exactly Map.empty)"

lemma demo_allowed_at: "demo_allowed i = {if i = U64 1 then Some ([0, 0], None) else None}"
  by (simp add: demo_allowed_def written_def exactly_def)

lemma demo_allowed_fits: "allowed_fits demo_lib Ptr64 2 demo_allowed"
proof -
  have "possible demo_allowed = {U64 1}" by (auto simp: possible_def demo_allowed_at)
  then show ?thesis by (auto simp: allowed_fits_def demo_allowed_at row_fits_def split: if_splits)
qed

lemma demo_life_written: "demo_life (cfg_durability (demo_cfg demo_ivf)) (demo_on demo_written) demo_allowed"
proof -
  let ?db = "demo_on (demo_files_of demo_snapshot [] (demo_core demo_ivf False))"
  have start: "demo_life (cfg_durability (demo_cfg demo_ivf)) ?db (exactly Map.empty)"
    by (rule db_life.created [where fs = None, OF _ demo_created]) (simp_all add: demo_kind_fits)
  have "op_effect True (db_dim ?db) (OUpsert (U64 1) [0, 0] None) (Inr OutUnit) (exactly Map.empty) = demo_allowed"
    by (simp add: demo_on_def demo_allowed_def)
  with db_life.used [OF start demo_first_write] demo_allowed_fits show ?thesis by (simp add: demo_on_def demo_always)
qed

text \<open>Stopped between two calls it leaves its snapshot and its log.\<close>

lemma demo_left:
  "left_behind demo_lib demo_files file_disk d None demo_written demo_snapshot [Put (U64 1) ([0, 0], None)] 1"
  by (simp add: left_behind_def demo_written_def demo_files_of_def file_disk_def survives_def)

text \<open>The hypotheses of the properties below, for this database.\<close>

lemma demo_accepts: "accept_laws (lib_index demo_lib) la_contents"
  by (simp add: list_accept_laws)

lemma demo_loads: "\<forall>dur. True \<longrightarrow> load_law demo_lib demo_files Ptr64 file_disk file_left () dur"
  by (simp add: file_load_law)

lemma demo_here: "lk_value (db_inner (demo_on p)) = Persisted p"
  by (simp add: demo_on_def rwlock_new_def)

lemma demo_same:
  "cfg_dim (demo_cfg k) = db_dim (demo_on p)" "cfg_metric (demo_cfg k) = db_metric (demo_on p)"
  "cc_cache (cfg_core (demo_cfg k)) = None
     \<or> is_ok (any_new (lib_index demo_lib) Flat (db_dim (demo_on p)) (db_metric (demo_on p)))"
  by (simp_all add: demo_on_def)

section \<open>Recovery\<close>

definition all_valid :: "('p, 'flt) vocabulary \<Rightarrow> (vec \<times> 'm option) allowed \<Rightarrow> bool" where
  "all_valid V A \<longleftrightarrow> (\<forall>i v m. Some (v, m) \<in> A i \<longrightarrow> vector_new V v = Inr v)"

lemma within_reads:
  assumes inv: "store_inv (co_store (db_core P db))" and M: "within (db_contents P db) A" and valid: "all_valid V A"
  shows "db_get P V db i = Some (Inr (db_contents P db i)) \<and> db_contents P db i \<in> A i
    \<and> db_len P db = card (dom (db_contents P db))"
proof -
  have at: "db_contents P db i \<in> A i" using M by (simp add: within_def)
  have "db_get P V db i = Some (Inr (db_contents P db i))"
  proof (cases "db_contents P db i")
    case (Some vm)
    with valid at have "vector_new V (fst vm) = Inr (fst vm)" by (cases vm) (auto simp: all_valid_def)
    with Some show ?thesis by (cases vm) (simp add: db_get_contents [OF inv] map_err_def)
  qed (simp add: db_get_contents [OF inv])
  with at show ?thesis by (simp add: db_len_def core_len_def store_len_card [OF inv])
qed

lemma durable_db_reads:
  assumes "durable_db L P t disk \<alpha> ok pol A db" and "all_valid V A"
  shows "db_get P V db i = Some (Inr (db_contents P db i)) \<and> db_contents P db i \<in> A i
    \<and> db_len P db = card (dom (db_contents P db))"
  using assms within_reads [of P db A V] by (auto simp: durable_db_def durable_def db_core_def)

lemma reopened:
  assumes laws: "engine_laws L \<alpha> ok" and acc: "accept_laws (lib_index L) \<alpha>" and wal: "wal_laws L P disk"
    and load: "load_law L P t disk files path (cfg_durability cfg)"
    and rec: "recoverable L t \<alpha> ok c A bs l" and hd: "header_fits L t c" and fits: "allowed_fits L t (co_dim c) A"
    and n: "n \<le> length l" and valid: "all_valid V A"
    and dim: "cfg_dim cfg \<noteq> 0" "cfg_dim cfg = co_dim c" "cfg_metric cfg = co_metric c"
    and cache: "cc_cache (cfg_core cfg) = None \<or> is_ok (any_new (lib_index L) Flat (co_dim c) (co_metric c))"
  shows "\<exists>db'. open_with L P path cfg (files bs l n) = Some (Inr db')
    \<and> (\<forall>i. db_get P V db' i = Some (Inr (db_contents P db' i)) \<and> db_contents P db' i \<in> A i)
    \<and> db_len P db' = card (dom (db_contents P db'))"
proof -
  from open_existing [OF laws acc wal load rec hd fits n] obtain res where
    res: "open_with L P path cfg (files bs l n) = Some res" "is_ok res"
      "\<And>db'. res = Inr db' \<Longrightarrow>
         store_inv (co_store (db_core P db')) \<and> within (db_contents P db') A"
    using dim cache by auto
  from res(2) obtain db' where db': "res = Inr db'" by (cases res) auto
  from within_reads [OF _ _ valid] res(1) res(3) [OF db'] db' show ?thesis by blast
qed

text \<open>
  C2. An acknowledged write survives. Take a file-backed database through any life: created,
  used by any calls, refused writes and checkpoints that fail part way included, and reopened
  any number of times, each session under the fsync policy it asked for. Let its process stop
  now, between two calls or in the middle of any call, and leave any log that policy permits.
  As long as what may be stored is within the limits of the file format (rows that it can
  hold and whose keys are not empty, a countable number of them), reopening the files under the
  dimension and metric of the database succeeds. Before and after the stop every identifier
  reads what its last write under \<open>FsyncPolicy::Always\<close>, or since a successful \<open>flush\<close>, gave it, or
  what a write since then would have that was refused, was in progress, or was acknowledged
  under a policy that does not sync every write. Where there is no such write the two reads agree.
\<close>

theorem crash_recovery:
  assumes laws: "engine_laws L \<alpha> ok" and acc: "accept_laws (lib_index L) \<alpha>" and wal: "wal_laws L P disk"
    and load: "\<forall>dur. usable dur \<longrightarrow> load_law L P t disk files path dur"
    and life: "db_life L P V t disk files path usable dur db A"
    and here: "lk_value (db_inner db) = Persisted p" and left: "left_behind L P disk (db_dim db) call p bs l n"
    and room: "call \<noteq> None \<Longrightarrow> allowed_fits L t (db_dim db) (call_effect (db_dim db) call A)"
    and valid: "all_valid V (call_effect (db_dim db) call A)"
    and us: "usable (cfg_durability cfg)"
    and same: "cfg_dim cfg = db_dim db" "cfg_metric cfg = db_metric db"
    and cache: "cc_cache (cfg_core cfg) = None \<or> is_ok (any_new (lib_index L) Flat (db_dim db) (db_metric db))"
  shows "\<exists>db'. open_with L P path cfg (files bs l n) = Some (Inr db')
    \<and> (\<forall>i. \<exists>x \<in> A i. db_get P V db i = Some (Inr x))
    \<and> (\<forall>i. \<exists>x \<in> call_effect (db_dim db) call A i. db_get P V db' i = Some (Inr x))
    \<and> (\<forall>i x. call_effect (db_dim db) call A i = {x}
        \<longrightarrow> db_get P V db i = Some (Inr x) \<and> db_get P V db' i = Some (Inr x))
    \<and> db_len P db' = card {i. db_get P V db' i \<noteq> Some (Inr None)}"
proof -
  let ?B = "call_effect (db_dim db) call A"
  have AB: "A i \<subseteq> ?B i" for i by (rule call_effect_mono)
  have validA: "all_valid V A" using valid AB unfolding all_valid_def by blast
  from db_life_durable [OF life laws acc wal load] same(1)
  have dur: "durable_db L P t disk \<alpha> ok (du_fsync dur) A db" and nz: "cfg_dim cfg \<noteq> 0" by auto
  note left = left_behind_db [OF laws acc dur here left]
  have fits: "allowed_fits L t (db_dim db) ?B" using room left(5) by (cases call) simp_all
  from load us have "load_law L P t disk files path (cfg_durability cfg)" by blast
  from reopened [OF laws acc wal this left(8,2) _ left(1) valid nz] left(3,4) fits same cache obtain db' where
    db': "open_with L P path cfg (files bs l n) = Some (Inr db')"
      "\<And>i. db_get P V db' i = Some (Inr (db_contents P db' i))" "\<And>i. db_contents P db' i \<in> ?B i"
      "db_len P db' = card (dom (db_contents P db'))" by auto
  have live: "db_get P V db i = Some (Inr (db_contents P db i))" "db_contents P db i \<in> A i" for i
    using durable_db_reads [OF dur validA] by blast+
  have "dom (db_contents P db') = {i. db_get P V db' i \<noteq> Some (Inr None)}" by (auto simp: db'(2))
  moreover have "db_contents P db i = x \<and> db_contents P db' i = x" if "?B i = {x}" for i x
    using live(2) [of i] db'(3) [of i] AB [of i] that by auto
  ultimately show ?thesis using db' live by auto
qed

text \<open>Stopped in the middle of deleting another identifier, with the record in the log.\<close>

theorem crash_recovery_witness:
  "\<exists>db'. open_with demo_lib demo_files () (demo_cfg demo_ivf)
       (Some (demo_snapshot, [Put (U64 1) ([0, 0], None), Del (U64 2)])) = Some (Inr db')
     \<and> db_get demo_files demo_vocab db' (U64 1) = Some (Inr (Some ([0, 0], None)))"
proof -
  let ?call = "Some (ODelete (U64 2)) :: (demo_meta, unit) db_op option"
  have left: "left_behind demo_lib demo_files file_disk (db_dim (demo_on demo_written)) ?call demo_written demo_snapshot
      [Put (U64 1) ([0, 0], None), Del (U64 2)] 1"
    by (simp add: left_behind_def demo_written_def demo_files_of_def file_disk_def survives_def)
  have B: "call_effect (db_dim (demo_on demo_written)) ?call demo_allowed = demo_allowed"
    by (auto simp: fun_eq_iff call_effect_def attempted_def demo_allowed_at)
  have fits: "allowed_fits demo_lib Ptr64 (db_dim (demo_on demo_written))
      (call_effect (db_dim (demo_on demo_written)) ?call demo_allowed)"
    unfolding B using demo_allowed_fits by (simp add: demo_on_def)
  have valid: "all_valid demo_vocab (call_effect (db_dim (demo_on demo_written)) ?call demo_allowed)"
    by (auto simp: all_valid_def demo_vocab_def)
  have "demo_allowed (U64 1) = {Some ([0, 0], None)}" by (simp add: demo_allowed_at)
  with crash_recovery [OF demo_engine_laws demo_accepts file_wal_laws demo_loads demo_life_written demo_here
      left fits valid TrueI demo_same] show ?thesis unfolding B by blast
qed

text \<open>
  C15. A write that was in progress when the process stopped is all or nothing: if the log ends
  in its record, the reopened database reads what the write gives under its identifier,
  and what was allowed before it everywhere else; otherwise it reads what was allowed before the
  write under every identifier, as if the write had not been called.
\<close>

theorem torn_write_recovery:
  assumes laws: "engine_laws L \<alpha> ok" and acc: "accept_laws (lib_index L) \<alpha>" and wal: "wal_laws L P disk"
    and load: "\<forall>dur. usable dur \<longrightarrow> load_law L P t disk files path dur"
    and life: "db_life L P V t disk files path usable dur db A"
    and here: "lk_value (db_inner db) = Persisted p"
    and call: "op_reqs (db_dim db) op = [rq]" and left: "left_behind L P disk (db_dim db) (Some op) p bs l n"
    and fits: "allowed_fits L t (db_dim db) (written rq A)"
    and valid: "all_valid V A" "all_valid V (written rq A)" and us: "usable (cfg_durability cfg)"
    and same: "cfg_dim cfg = db_dim db" "cfg_metric cfg = db_metric db"
    and cache: "cc_cache (cfg_core cfg) = None \<or> is_ok (any_new (lib_index L) Flat (db_dim db) (db_metric db))"
  shows "\<exists>db'. open_with L P path cfg (files bs l n) = Some (Inr db')
    \<and> (if l = im_log (disk p) @ [rq]
       then db_get P V db' (req_id rq) = Some (Inr (req_result rq))
         \<and> (\<forall>i. i \<noteq> req_id rq \<longrightarrow> (\<exists>x \<in> A i. db_get P V db' i = Some (Inr x)))
       else \<forall>i. \<exists>x \<in> A i. db_get P V db' i = Some (Inr x))"
proof -
  from db_life_durable [OF life laws acc wal load] same(1)
  have dur: "durable_db L P t disk \<alpha> ok (du_fsync dur) A db" and nz: "cfg_dim cfg \<noteq> 0" by auto
  from load us have ld: "load_law L P t disk files path (cfg_durability cfg)" by blast
  note kept = left_behind_db [OF laws acc dur here left]
  note open_them = reopened [OF laws acc wal ld _ kept(2) _ kept(1) _ nz]
  show ?thesis
  proof (cases "l = im_log (disk p) @ [rq]")
    case True
    have "recoverable L t \<alpha> ok (ps_index P p) (written rq A) bs l"
      using torn_recoverable [OF dur here call left] True by blast
    from open_them [OF this _ valid(2)] kept(3,4) same cache fits obtain db' where
      db': "open_with L P path cfg (files bs l n) = Some (Inr db')"
        "\<And>i. db_get P V db' i = Some (Inr (db_contents P db' i))" "\<And>i. db_contents P db' i \<in> written rq A i"
      by auto
    from db'(3) [of "req_id rq"] have "db_contents P db' (req_id rq) = req_result rq" by (simp add: written_def)
    moreover have "db_contents P db' i \<in> A i" if "i \<noteq> req_id rq" for i
      using db'(3) [of i] that by (simp add: written_def)
    ultimately show ?thesis using db'(1,2) True by auto
  next
    case False
    with kept(6) call have "recoverable L t \<alpha> ok (ps_index P p) A bs l" by auto
    from open_them [OF this _ valid(1)] kept(3-5) same cache False show ?thesis by auto
  qed
qed

theorem torn_write_recovery_witness:
  "\<exists>db'. open_with demo_lib demo_files () (demo_cfg demo_ivf)
       (Some (demo_snapshot, [Put (U64 1) ([0, 0], None), Del (U64 1)])) = Some (Inr db')
     \<and> db_get demo_files demo_vocab db' (U64 1) = Some (Inr None)"
proof -
  let ?rq = "Del (U64 1) :: (vec \<times> demo_meta option) write_req"
  let ?op = "ODelete (U64 1) :: (demo_meta, unit) db_op"
  let ?l = "[Put (U64 1) ([0, 0], None), ?rq]"
  have at: "written ?rq demo_allowed i = {None}" for i by (simp add: written_def demo_allowed_at)
  have valid: "all_valid demo_vocab demo_allowed" "all_valid demo_vocab (written ?rq demo_allowed)"
    by (auto simp: all_valid_def demo_vocab_def)
  have call: "op_reqs (db_dim (demo_on demo_written)) ?op = [?rq]" by simp
  have log: "im_log (file_disk demo_written) @ [?rq] = ?l"
    by (simp add: file_disk_def demo_files_of_def demo_written_def)
  have left: "left_behind demo_lib demo_files file_disk (db_dim (demo_on demo_written)) (Some ?op) demo_written
      demo_snapshot ?l 2"
    by (simp add: left_behind_def demo_written_def demo_files_of_def file_disk_def survives_def)
  have room: "allowed_fits demo_lib Ptr64 (db_dim (demo_on demo_written)) (written ?rq demo_allowed)"
    by (simp add: allowed_fits_def at possible_def)
  from torn_write_recovery [OF demo_engine_laws demo_accepts file_wal_laws demo_loads demo_life_written
      demo_here call left room valid TrueI demo_same]
  show ?thesis unfolding log by auto
qed

text \<open>
  C32. A database keeps its type: at any time of its life, reopening it under another dimension
  or metric is refused with a configuration error, and under a zero dimension with another.
\<close>

theorem reopen_rejects_mismatch:
  assumes laws: "engine_laws L \<alpha> ok" and acc: "accept_laws (lib_index L) \<alpha>" and wal: "wal_laws L P disk"
    and load: "\<forall>dur. usable dur \<longrightarrow> load_law L P t disk files path dur"
    and life: "db_life L P V t disk files path usable dur db A"
    and here: "lk_value (db_inner db) = Persisted p" and left: "left_behind L P disk (db_dim db) call p bs l n"
    and room: "call \<noteq> None \<Longrightarrow> allowed_fits L t (db_dim db) (call_effect (db_dim db) call A)" and us: "usable (cfg_durability cfg)"
    and differs: "cfg_dim cfg \<noteq> db_dim db \<or> cfg_metric cfg \<noteq> db_metric db"
  shows "open_with L P path cfg (files bs l n) = Some (Inl (Config (if cfg_dim cfg = 0 then ''dim must be non-zero''
     else ''reopened database dim/metric does not match the requested values'')))"
proof -
  from db_life_durable [OF life laws acc wal load] have dur: "durable_db L P t disk \<alpha> ok (du_fsync dur) A db" by blast
  note kept = left_behind_db [OF laws acc dur here left]
  have fits: "allowed_fits L t (db_dim db) (call_effect (db_dim db) call A)"
    using room kept(5) by (cases call) simp_all
  from load us have ld: "load_law L P t disk files path (cfg_durability cfg)" by blast
  show ?thesis
  proof (cases "cfg_dim cfg = 0")
    case True
    then show ?thesis by (simp add: open_with_def config_into_parts_def require_nonzero_dim_def)
  next
    case False
    with open_existing [OF laws acc wal ld kept(8,2) _ kept(1)] kept(3,4) fits differs show ?thesis by auto
  qed
qed

theorem reopen_rejects_mismatch_witness:
  "open_with demo_lib demo_files () (config_new 3 Euclidean) (Some (demo_snapshot, [Put (U64 1) ([0, 0], None)]))
     = Some (Inl (Config ''reopened database dim/metric does not match the requested values''))"
proof -
  let ?cfg = "config_new 3 Euclidean :: nat iqdb_config"
  have dim: "cfg_dim ?cfg = 3" by (simp add: config_defs)
  then have "cfg_dim ?cfg \<noteq> db_dim (demo_on demo_written) \<or> cfg_metric ?cfg \<noteq> db_metric (demo_on demo_written)"
    by (simp add: demo_on_def)
  from reopen_rejects_mismatch [OF demo_engine_laws demo_accepts file_wal_laws demo_loads demo_life_written demo_here
      demo_left _ TrueI this] show ?thesis by (simp add: dim)
qed

section \<open>The two backends\<close>

text \<open>The in-memory handle over the same engine.\<close>

definition in_mem ::
    "('fl, 'hn, 'iv, 'cx, 'cc, 'm, 'ps, 'pa, 'x, 'fs) persistence
      \<Rightarrow> ('fl, 'hn, 'iv, 'cx, 'cc, 'm, 'ps) database
      \<Rightarrow> ('fl, 'hn, 'iv, 'cx, 'cc, 'm, 'ps) database" where
  "in_mem P db = db_set (Memory (db_core P db)) db"

text \<open>Calls the file-backed handle can refuse where the in-memory one cannot.\<close>

fun touches_files :: "('m, 'flt) db_op \<Rightarrow> bool" where
  "touches_files (OUpsert i v m) = True"
| "touches_files (ODelete i) = True"
| "touches_files OFlush = True"
| "touches_files _ = False"

lemma in_mem_sel [simp]:
  "db_dim (in_mem P db) = db_dim db" "db_metric (in_mem P db) = db_metric db"
  "db_core P (in_mem P db) = db_core P db" "lk_value (db_inner (in_mem P db)) = Memory (db_core P db)"
  by (simp_all add: in_mem_def)

lemma in_mem_set: "in_mem P (db_set (Persisted p) db) = db_set (Memory (ps_index P p)) db"
  by (simp add: in_mem_def)

lemma set_in_mem: "db_set s (in_mem P db) = db_set s db"
  by (simp add: in_mem_def)

text \<open>A mutation of the core is the same under both backends.\<close>

lemma mut_in_mem:
  assumes "persist_field P" and "storage_core_mut P f (Persisted p) = (r, s)"
  shows "\<exists>p'. s = Persisted p' \<and> storage_core_mut P f (Memory (ps_index P p)) = (r, Memory (ps_index P p'))"
  using assms by (auto simp: apsnd_eq persist_field_def)

lemma search_in_mem:
  assumes field: "persist_field P" and here: "lk_value (db_inner db) = Persisted p"
    and run: "search_inner L P V q k flt db = (res, db')"
  shows "search_inner L P V q k flt (in_mem P db) = (res, in_mem P db')
    \<and> (\<exists>p'. lk_value (db_inner db') = Persisted p')"
proof (cases "length q = db_dim db")
  case False
  with run here show ?thesis by (auto simp: search_inner_def check_dim_def)
next
  case True
  let ?par = "db_params V db k flt"
  have par: "db_params V (in_mem P db) k flt = ?par" by (simp add: db_params_def)
  have core: "db_core P db = ps_index P p" using here by (simp add: db_core_def)
  from run have slow: "search_slow L P V q k flt db = (res, db')"
    by (simp add: search_inner_slow [OF field True])
  have mem: "search_inner L P V q k flt (in_mem P db) = search_slow L P V q k flt (in_mem P db)"
    using True by (simp add: search_inner_slow [OF field])
  obtain r1 s1 where er: "storage_core_mut P (core_ensure_ready L) (Persisted p) = (r1, s1)" by fastforce
  from mut_in_mem [OF field er] obtain p1 where p1: "s1 = Persisted p1"
    "storage_core_mut P (core_ensure_ready L) (Memory (ps_index P p)) = (r1, Memory (ps_index P p1))" by blast
  obtain r2 s2 where se: "storage_core_mut P (core_search L q ?par) (Persisted p1) = (r2, s2)" by fastforce
  from mut_in_mem [OF field se] obtain p2 where p2: "s2 = Persisted p2"
    "storage_core_mut P (core_search L q ?par) (Memory (ps_index P p1)) = (r2, Memory (ps_index P p2))" by blast
  note unfolded = search_slow_def db_write_eq storage_search_def
  show ?thesis
  proof (cases "core_is_empty (ps_index P p)")
    case True
    then have "search_slow L P V q k flt (in_mem P db) = (Inr [], db_set (Memory (ps_index P p)) db)"
      by (simp add: unfolded core set_in_mem)
    moreover from True slow here have "res = Inr []" "db' = db_set (Persisted p) db"
      by (auto simp: unfolded)
    ultimately show ?thesis by (simp add: mem in_mem_set)
  next
    case False
    note sections = er p1 se p2 here core par False
    show ?thesis
    proof (cases r1)
      case (Inl e)
      from slow have "res = Inl (from_iqdb e)" "db' = db_set (Persisted p1) db"
        by (auto simp: unfolded sections Inl simp del: storage_core_mut.simps)
      then show ?thesis by (simp add: mem unfolded sections Inl in_mem_set set_in_mem del: storage_core_mut.simps)
    next
      case (Inr u)
      from slow have "res = map_err from_iqdb r2" "db' = db_set (Persisted p2) db"
        by (auto simp: unfolded sections Inr simp del: storage_core_mut.simps)
      then show ?thesis by (simp add: mem unfolded sections Inr in_mem_set set_in_mem del: storage_core_mut.simps)
    qed
  qed
qed

lemma exec_in_mem:
  assumes wal: "wal_laws L P disk" and here: "lk_value (db_inner db) = Persisted p"
    and run: "db_exec L P V op db = Some (r, db')" and ack: "touches_files op \<longrightarrow> is_ok r"
  shows "db_exec L P V op (in_mem P db) = Some (r, in_mem P db')
    \<and> (\<exists>p'. lk_value (db_inner db') = Persisted p')"
proof -
  have field: "persist_field P" using wal by (simp add: wal_laws_def)
  have core: "db_core P db = ps_index P p" using here by (simp add: db_core_def)
  show ?thesis
  proof (cases op)
    case (OUpsert i v m)
    show ?thesis
    proof (cases "length v = db_dim db")
      case True
      with OUpsert run ack here obtain p' where
        ins: "ps_insert P i v m p = Some (Inr (), p')" "db' = db_set (Persisted p') db" "r = Inr OutUnit"
        by (auto simp: db_upsert_def check_dim_def db_write_panicking_eq dest!: is_ok_unit)
      note applied = write_law_applied [OF wal_lawsD(4) [OF wal] ins(1)]
      with OUpsert True ins core applied show ?thesis
        by (simp add: db_upsert_def check_dim_def db_write_panicking_eq in_mem_set set_in_mem map_err_def)
    next
      case False
      with OUpsert run ack show ?thesis by (auto simp: db_upsert_def check_dim_def)
    qed
  next
    case (OGet i)
    with run here show ?thesis by (auto simp: db_get_def)
  next
    case (ODelete i)
    with run ack here obtain p' where
      del: "ps_delete P i p = Some (Inr (), p')" "db' = db_set (Persisted p') db"
        "r = Inr (OutBool (core_contains (ps_index P p) i))"
      by (auto simp: db_delete_def db_write_panicking_eq dest!: is_ok_unit)
    note applied = write_law_applied [OF wal_lawsD(5) [OF wal] del(1)]
    with ODelete del core applied show ?thesis
      by (simp add: db_delete_def db_write_panicking_eq in_mem_set set_in_mem map_err_def)
  next
    case (OSearch q k flt)
    obtain hits db1 where s: "search_inner L P V q k flt db = (hits, db1)" by fastforce
    from search_in_mem [OF field here s] s OSearch run show ?thesis by auto
  next
    case OLen
    with run here show ?thesis by (auto simp: db_len_def)
  next
    case OOptimize
    obtain r1 s1 where opt: "storage_core_mut P (core_optimize L) (Persisted p) = (r1, s1)" by fastforce
    from mut_in_mem [OF field opt] obtain p1 where p1: "s1 = Persisted p1"
      "storage_core_mut P (core_optimize L) (Memory (ps_index P p)) = (r1, Memory (ps_index P p1))" by blast
    from OOptimize run have "db' = db_set (Persisted p1) db"
      by (auto simp: db_optimize_def db_write_eq here opt p1 simp del: storage_core_mut.simps)
    with OOptimize run show ?thesis
      by (auto simp: db_optimize_def db_write_eq here core opt p1 in_mem_set set_in_mem simp del: storage_core_mut.simps)
  next
    case OFlush
    obtain r1 p1 where ck: "ps_checkpoint P p = (r1, p1)" by fastforce
    note same = wal_laws_checkpoint(1) [OF wal ck]
    from OFlush run here ck have "db' = db_set (Persisted p1) db" "r = map_sum (\<lambda>e. e) (\<lambda>_. OutUnit) r1"
      by (auto simp: db_flush_def db_write_eq)
    with OFlush ack same core show ?thesis
      by (cases r1) (simp_all add: db_flush_def db_write_eq in_mem_set set_in_mem)
  qed
qed

lemma run_in_mem:
  assumes wal: "wal_laws L P disk" and "lk_value (db_inner db) = Persisted p"
    and "db_run L P V ops db = Some (rs, db')"
    and "\<forall>(op, r) \<in> set (zip ops rs). touches_files op \<longrightarrow> is_ok r"
  shows "db_run L P V ops (in_mem P db) = Some (rs, in_mem P db') \<and> length rs = length ops
    \<and> (\<exists>p'. lk_value (db_inner db') = Persisted p')"
  using assms(2-)
proof (induction ops arbitrary: db p rs)
  case (Cons op ops)
  from Cons.prems(2) obtain r1 db1 rs1 where
    step: "db_exec L P V op db = Some (r1, db1)" "db_run L P V ops db1 = Some (rs1, db')" "rs = r1 # rs1"
    by (auto split: Option.bind_splits)
  from Cons.prems(3) step(3) have "touches_files op \<longrightarrow> is_ok r1" by simp
  from exec_in_mem [OF wal Cons.prems(1) step(1) this] obtain p1 where
    one: "db_exec L P V op (in_mem P db) = Some (r1, in_mem P db1)" "lk_value (db_inner db1) = Persisted p1" by blast
  from Cons.IH [OF one(2) step(2)] Cons.prems(3) step(3) one(1) show ?case by simp
qed simp

text \<open>
  C16. The two backends answer alike: as long as the files take every write and checkpoint, a
  sequence of calls on a file-backed database returns exactly what it returns on an in-memory
  one over the same engine, and leaves the same engine.
\<close>

theorem backends_agree:
  assumes "wal_laws L P disk" and "lk_value (db_inner db) = Persisted p"
    and "db_run L P V ops db = Some (rs, db')"
    and "\<forall>(op, r) \<in> set (zip ops rs). touches_files op \<longrightarrow> is_ok r"
  shows "db_run L P V ops (in_mem P db) = Some (rs, in_mem P db')"
  using run_in_mem [OF assms] by blast

theorem backends_agree_witness:
  "db_run demo_lib demo_files demo_vocab [OUpsert (U64 1) [0, 0] None, OLen]
       (in_mem demo_files (demo_on (demo_files_of demo_snapshot [] (demo_core demo_ivf False))))
     = Some ([Inr OutUnit, Inr (OutLen 1)], in_mem demo_files (demo_on demo_written))"
proof -
  let ?db = "demo_on (demo_files_of demo_snapshot [] (demo_core demo_ivf False))"
  have len: "db_len demo_files (demo_on demo_written) = 1"
    by (simp add: demo_written_def demo_on_def db_len_def rwlock_new_def demo_files_of_def db_core_def
        core_len_def store_len_def demo_one_def)
  have "db_run demo_lib demo_files demo_vocab [OUpsert (U64 1) [0, 0] None, OLen] ?db
      = Some ([Inr OutUnit, Inr (OutLen 1)], demo_on demo_written)"
    by (simp add: demo_first_write len del: db_exec.simps(1))
  from backends_agree [OF file_wal_laws demo_here this] show ?thesis by simp
qed

end
