(* ===== verification/Iqdb_Crash_Props.thy ===== *)
theory Iqdb_Crash_Props
  imports Iqdb_Concurrent_Props Iqdb_Durability_Props
begin

text \<open>
  Threads, files and crashes together: the process of a file-backed database that threads share
  stops in any reachable state of any interleaving, between critical sections or inside the
  write of any of its threads.
\<close>

text \<open>Two threads on the file-backed database: one is about to write, the other has read.\<close>

abbreviation demo_base :: demo_db where
  "demo_base \<equiv> demo_on (demo_files_of demo_snapshot [] (demo_core demo_ivf False))"

definition demo_shared :: "(demo_core, (demo_core, demo_meta) file_ps, demo_meta, unit, vector_id) conc_state" where
  "demo_shared = set_thread 2 (Called (ODelete (U64 1))) [Invoke 2 (ODelete (U64 1))]
     (take_effect 1 (OUpsert (U64 1) [0, 0] None) (Inr OutUnit) (demo_on demo_written)
       (set_thread 1 (Called (OUpsert (U64 1) [0, 0] None)) [Invoke 1 (OUpsert (U64 1) [0, 0] None)]
         \<lparr>cs_db = demo_base, cs_thread = (\<lambda>_. Idle), cs_history = []\<rparr>))"

lemma demo_shared_reach: "conc_reach demo_lib demo_files demo_vocab demo_base demo_shared"
proof -
  let ?s0 = "\<lparr>cs_db = demo_base, cs_thread = (\<lambda>_. Idle), cs_history = []\<rparr>
    :: (demo_core, (demo_core, demo_meta) file_ps, demo_meta, unit, vector_id) conc_state"
  let ?s1 = "set_thread 1 (Called (OUpsert (U64 1) [0, 0] None)) [Invoke 1 (OUpsert (U64 1) [0, 0] None)] ?s0"
  let ?s2 = "take_effect 1 (OUpsert (U64 1) [0, 0] None) (Inr OutUnit) (demo_on demo_written) ?s1"
  have "conc_reach demo_lib demo_files demo_vocab demo_base ?s0" by (rule conc_reach.start)
  then have "conc_reach demo_lib demo_files demo_vocab demo_base ?s1"
    by (rule conc_reach.step) (rule conc_step.call, simp)
  then have "conc_reach demo_lib demo_files demo_vocab demo_base ?s2"
    by (rule conc_reach.step) (rule conc_step.whole, simp_all add: demo_first_write del: db_exec.simps)
  then show ?thesis unfolding demo_shared_def
    by (rule conc_reach.step) (rule conc_step.call, simp)
qed

lemma demo_base_life: "demo_life (cfg_durability (demo_cfg demo_ivf)) demo_base (exactly Map.empty)"
  by (rule db_life.created [where fs = None, OF _ demo_created]) (simp_all add: demo_kind_fits)

lemma db_run_dim: "db_run L P V ops db = Some (rs, db') \<Longrightarrow> db_dim db' = db_dim db"
proof (induction ops arbitrary: db rs)
  case (Cons op ops)
  from Cons.prems obtain r db1 rs1 where
    one: "db_exec L P V op db = Some (r, db1)" "db_run L P V ops db1 = Some (rs1, db')"
    by (auto split: Option.bind_splits)
  from Cons.IH [OF one(2)] db_exec_dim [OF one(1)] show ?case by simp
qed simp

text \<open>The call a stop cuts off: none, or one that a thread has invoked and that has not taken effect.\<close>

definition cut_off :: "('co, 'ps, 'm, 'flt, 'h) conc_state \<Rightarrow> ('m, 'flt) db_op option \<Rightarrow> bool" where
  "cut_off s call \<longleftrightarrow> (\<forall>op. call = Some op \<longrightarrow> (\<exists>th. cs_thread s th = Called op))"

text \<open>
  C8. A shared database survives a crash in any interleaving. Let any number of threads call
  into a file-backed database and its process stop in any reachable state, with calls under
  way, between their critical sections or inside the write section of any one of them, its
  record written or not. The calls that had taken effect, in the order in which they did and
  under the fsync policy of the session, say what every identifier may hold; as long as that
  is within the limits of the file format, reopening succeeds and reads such a value for each,
  or what the call that was cut off gives, and a read just before the stop found such a value.
\<close>

theorem concurrent_crash_recovery:
  assumes laws: "engine_laws L \<alpha> ok" and acc: "accept_laws (lib_index L) \<alpha>" and wal: "wal_laws L P disk"
    and load: "\<forall>dur. usable dur \<longrightarrow> load_law L P t disk files path dur"
    and life: "db_life L P V t disk files path usable dur db A" and conc: "conc_reach L P V db s"
    and took: "B = calls_effect (du_fsync dur = Always) (db_dim db) (effects (cs_history s)) A"
    and fits: "calls_fit L t (du_fsync dur = Always) (db_dim db) (effects (cs_history s)) A"
      "allowed_fits L t (db_dim db) (call_effect (db_dim db) call B)"
    and valid: "all_valid V (call_effect (db_dim db) call B)"
    and here: "lk_value (db_inner (cs_db s)) = Persisted p" and "cut_off s call"
    and left: "left_behind L P disk (db_dim db) call p bs l n" and us: "usable (cfg_durability cfg)"
    and same: "cfg_dim cfg = db_dim (cs_db s)" "cfg_metric cfg = db_metric (cs_db s)"
    and cache: "cc_cache (cfg_core cfg) = None
      \<or> is_ok (any_new (lib_index L) Flat (db_dim (cs_db s)) (db_metric (cs_db s)))"
  shows "\<exists>db'. open_with L P path cfg (files bs l n) = Some (Inr db')
    \<and> (\<forall>i. \<exists>x \<in> B i. db_get P V (cs_db s) i = Some (Inr x))
    \<and> (\<forall>i. \<exists>x \<in> call_effect (db_dim db) call B i. db_get P V db' i = Some (Inr x))"
proof -
  have field: "persist_field P" by (rule wal_lawsD(1) [OF wal])
  have run: "db_run L P V (map fst (effects (cs_history s))) db = Some (map snd (effects (cs_history s)), cs_db s)"
    using conc_reach_inv [OF conc field] by (simp add: conc_inv_def)
  have dim: "db_dim (cs_db s) = db_dim db" by (rule db_run_dim [OF run])
  from db_life_run [OF life run fits(1)]
  have "db_life L P V t disk files path usable dur (cs_db s) B" by (simp add: took)
  from db_life_durable [OF this laws acc wal load] same(1)
  have dur: "durable_db L P t disk \<alpha> ok (du_fsync dur) B (cs_db s)" and nz: "cfg_dim cfg \<noteq> 0" by auto
  have validB: "all_valid V B"
    using valid call_effect_mono [of B _ "db_dim db" call] unfolding all_valid_def by blast
  note kept = left_behind_db [OF laws acc dur here, unfolded dim, OF left]
  from load us have ld: "load_law L P t disk files path (cfg_durability cfg)" by blast
  from reopened [OF laws acc wal ld kept(8,2) _ kept(1) valid nz] kept(3,4) fits(2) same cache dim
    durable_db_reads [OF dur validB] show ?thesis by auto
qed

text \<open>The second thread is cut off inside its delete, its record in the log.\<close>

theorem concurrent_crash_recovery_witness:
  "\<exists>db' x. open_with demo_lib demo_files () (demo_cfg demo_ivf)
       (Some (demo_snapshot, [Put (U64 1) ([0, 0], None), Del (U64 1)])) = Some (Inr db')
     \<and> x \<in> {Some ([0, 0], None), None} \<and> db_get demo_files demo_vocab db' (U64 1) = Some (Inr x)"
proof -
  let ?call = "Some (ODelete (U64 1)) :: (demo_meta, unit) db_op option"
  let ?safe = "du_fsync (cfg_durability (demo_cfg demo_ivf)) = Always"
  have safe: ?safe by (rule demo_always)
  have calls: "effects (cs_history demo_shared) = [(OUpsert (U64 1) [0, 0] None, Inr OutUnit)]"
    by (simp add: demo_shared_def)
  have dim: "db_dim demo_base = 2" by (simp add: demo_on_def)
  have eff: "demo_allowed = calls_effect ?safe (db_dim demo_base) (effects (cs_history demo_shared)) (exactly Map.empty)"
    by (simp add: calls dim demo_allowed_def safe)
  have fits: "calls_fit demo_lib Ptr64 ?safe (db_dim demo_base) (effects (cs_history demo_shared)) (exactly Map.empty)"
    using demo_allowed_fits by (simp add: calls dim demo_allowed_def safe)
  have at: "call_effect (db_dim demo_base) ?call demo_allowed i
      = (if i = U64 1 then {Some ([0, 0], None), None} else {None})" for i
    by (auto simp: call_effect_def attempted_def demo_allowed_at)
  have poss: "possible (call_effect (db_dim demo_base) ?call demo_allowed) = {U64 1}"
    by (auto simp: possible_def at)
  have room: "allowed_fits demo_lib Ptr64 (db_dim demo_base) (call_effect (db_dim demo_base) ?call demo_allowed)"
    unfolding allowed_fits_def poss at by (auto simp: row_fits_def dim split: if_splits)
  have valid: "all_valid demo_vocab (call_effect (db_dim demo_base) ?call demo_allowed)"
    by (auto simp: all_valid_def demo_vocab_def)
  have "cs_thread demo_shared 2 = Called (ODelete (U64 1))" by (simp add: demo_shared_def)
  then have cut: "cut_off demo_shared ?call" unfolding cut_off_def by blast
  have left: "left_behind demo_lib demo_files file_disk (db_dim demo_base) ?call demo_written demo_snapshot
      [Put (U64 1) ([0, 0], None), Del (U64 1)] 2"
    by (simp add: left_behind_def demo_written_def demo_files_of_def file_disk_def survives_def)
  have db: "cs_db demo_shared = demo_on demo_written" by (simp add: demo_shared_def)
  have here: "lk_value (db_inner (cs_db demo_shared)) = Persisted demo_written" unfolding db by (rule demo_here)
  note same = demo_same [of demo_ivf demo_written, folded db]
  from concurrent_crash_recovery [OF demo_engine_laws demo_accepts file_wal_laws demo_loads demo_base_life
      demo_shared_reach eff fits room valid here cut left TrueI same] obtain db' where
    "open_with demo_lib demo_files () (demo_cfg demo_ivf)
       (Some (demo_snapshot, [Put (U64 1) ([0, 0], None), Del (U64 1)])) = Some (Inr db')"
    "\<forall>i. \<exists>x \<in> call_effect (db_dim demo_base) ?call demo_allowed i. db_get demo_files demo_vocab db' i = Some (Inr x)"
    by (elim exE conjE) (rule that)
  then have "\<exists>x \<in> {Some ([0, 0], None), None}. db_get demo_files demo_vocab db' (U64 1) = Some (Inr x)"
    using at [of "U64 1"] by (metis (no_types))
  with \<open>open_with _ _ _ _ _ = _\<close> show ?thesis by blast
qed

end
