(* ===== verification/Iqdb_Lock.thy ===== *)
theory Iqdb_Lock
  imports Iqdb_Concurrent
begin

text \<open>
  The lock of a shared handle. \<open>Iqdb_Concurrent\<close> interleaves critical sections as wholes;
  here a thread takes a guard of the \<open>RwLock\<close>, runs under it one step at a time and gives it
  back, so that any number of readers can be inside their sections at once, a thread may have to
  wait for a guard, and a guard kept too long would show. Each method is a script of the steps
  its body takes. The invariant says that the scripts take and give back guards in order; from
  it follow mutual exclusion, that the interleavings here are those of \<open>Iqdb_Concurrent\<close>, and
  that nothing deadlocks.
\<close>

section \<open>The methods as scripts\<close>

datatype access = Shared | Exclusive

text \<open>
  \<open>CheckDim\<close> is the check before any guard is taken. \<open>Whole\<close> is the body of a method with one
  section. A search is split: \<open>IfEmpty\<close> and \<open>IfBuilt\<close> are the two tests of its first section
  (each with what follows if it holds and if not), \<open>Search\<close> the query under the read guard, and
  \<open>Build\<close> its second section.
\<close>

datatype script =
    Done
  | CheckDim script
  | Acquire access script
  | Release script
  | Whole script
  | IfEmpty script script
  | IfBuilt script script
  | Search script
  | Build script

definition upsert_script :: script where
  "upsert_script = CheckDim (Acquire Exclusive (Whole (Release Done)))"

definition get_script :: script where
  "get_script = Acquire Shared (Whole (Release Done))"

definition delete_script :: script where
  "delete_script = Acquire Exclusive (Whole (Release Done))"

definition len_script :: script where
  "len_script = Acquire Shared (Whole (Release Done))"

definition optimize_script :: script where
  "optimize_script = Acquire Exclusive (Whole (Release Done))"

definition flush_script :: script where
  "flush_script = Acquire Exclusive (Whole (Release Done))"

text \<open>
  The read guard of a search lives in a block of its own: it is given back before the write
  guard is taken.
\<close>

definition search_script :: script where
  "search_script =
     CheckDim (Acquire Shared
       (IfEmpty (Release Done)
         (IfBuilt (Search (Release Done))
           (Release (Acquire Exclusive (Build (Release Done)))))))"

fun script_of :: "('m, 'flt) db_op \<Rightarrow> script" where
  "script_of (OUpsert i v m) = upsert_script"
| "script_of (OGet i) = get_script"
| "script_of (ODelete i) = delete_script"
| "script_of (OSearch q k flt) = search_script"
| "script_of OLen = len_script"
| "script_of OOptimize = optimize_script"
| "script_of OFlush = flush_script"

lemmas script_defs = upsert_script_def get_script_def delete_script_def len_script_def
  optimize_script_def flush_script_def search_script_def

section \<open>Steps\<close>

fun op_dim :: "('m, 'flt) db_op \<Rightarrow> usize option" where
  "op_dim (OUpsert i v m) = Some (length v)"
| "op_dim (OSearch q k flt) = Some (length q)"
| "op_dim _ = None"

definition check_op :: "('co, 'ps) iqdb \<Rightarrow> ('m, 'flt) db_op \<Rightarrow> error + unit" where
  "check_op db op = (case op_dim op of None \<Rightarrow> Inr () | Some n \<Rightarrow> check_dim db n)"

text \<open>The steps of thread \<open>t\<close> that are not about a guard; \<open>None\<close> is a panic.\<close>

fun local_step ::
    "('fl, 'hn, 'iv, 'cx, 'cc, 'cs, 'm, 'p, 'h, 'z) core_lib
      \<Rightarrow> ('fl, 'hn, 'iv, 'cx, 'cc, 'm, 'ps, 'pa, 'x, 'fs) persistence
      \<Rightarrow> ('p, 'flt) vocabulary \<Rightarrow> nat \<Rightarrow> script \<Rightarrow> ('m, 'flt, 'h) thread
      \<Rightarrow> ('fl, 'hn, 'iv, 'cx, 'cc, 'm, 'ps, 'flt, 'h) shared
      \<Rightarrow> (script \<times> ('fl, 'hn, 'iv, 'cx, 'cc, 'm, 'ps, 'flt, 'h) shared) option" where
  "local_step L P V t (CheckDim c) (Called op) s =
     Some (case check_op (cs_db s) op of
        Inr _ \<Rightarrow> (c, s) | Inl e \<Rightarrow> (Done, take_effect t op (Inl e) (cs_db s) s))"
| "local_step L P V t (Whole c) (Called op) s =
     map_option (\<lambda>(r, db). (c, take_effect t op r db s)) (db_exec L P V op (cs_db s))"
| "local_step L P V t (IfEmpty c c') (Called op) s =
     Some (if core_is_empty (db_core P (cs_db s)) then (c, take_effect t op (Inr (OutHits [])) (cs_db s) s)
           else (c', s))"
| "local_step L P V t (IfBuilt c c') (Called (OSearch q k flt)) s =
     Some (if core_needs_materialization (db_core P (cs_db s)) then (c', set_thread t (BetweenGuards q k flt) [] s)
           else (c, s))"
| "local_step L P V t (Search c) (Called (OSearch q k flt)) s =
     Some (case db_write (storage_search L P q (db_params V (cs_db s) k flt)) (cs_db s) of
        (r, db) \<Rightarrow> (c, take_effect t (OSearch q k flt) (map_sum (\<lambda>e. e) OutHits r) db s))"
| "local_step L P V t (Build c) (BetweenGuards q k flt) s =
     Some (case search_slow L P V q k flt (cs_db s) of
        (r, db) \<Rightarrow> (c, take_effect t (OSearch q k flt) (map_sum (\<lambda>e. e) OutHits r) db s))"
| "local_step L P V t _ _ s = None"

record ('co, 'ps, 'm, 'flt, 'h) lock_state =
  lk_conc :: "('co, 'ps, 'm, 'flt, 'h) conc_state"
  lk_script :: "nat \<Rightarrow> script"
  lk_holds :: "nat \<Rightarrow> access option"

type_synonym ('fl, 'hn, 'iv, 'cx, 'cc, 'm, 'ps, 'flt, 'h) locked =
  "(('fl, 'hn, 'iv, 'cx, 'cc, 'm) iqdb_core, 'ps, 'm, 'flt, 'h) lock_state"

text \<open>A read guard excludes a writer, a write guard everybody.\<close>

definition grantable :: "access \<Rightarrow> (nat \<Rightarrow> access option) \<Rightarrow> bool" where
  "grantable a holds \<longleftrightarrow> (\<forall>u. holds u = None \<or> a = Shared \<and> holds u = Some Shared)"

text \<open>
  One step of the thread \<open>t\<close> in a call. Whom the lock lets in next is up to the operating system
  (\<open>admits\<close>, from what every thread holds and asks for).
\<close>

type_synonym admission = "(nat \<Rightarrow> access option) \<Rightarrow> (nat \<Rightarrow> access option) \<Rightarrow> nat \<Rightarrow> bool"

fun asks :: "script \<Rightarrow> access option" where
  "asks (Acquire a c) = Some a"
| "asks _ = None"

inductive lock_step ::
    "admission \<Rightarrow> ('fl, 'hn, 'iv, 'cx, 'cc, 'cs, 'm, 'p, 'h, 'z) core_lib
      \<Rightarrow> ('fl, 'hn, 'iv, 'cx, 'cc, 'm, 'ps, 'pa, 'x, 'fs) persistence
      \<Rightarrow> ('p, 'flt) vocabulary \<Rightarrow> nat
      \<Rightarrow> ('fl, 'hn, 'iv, 'cx, 'cc, 'm, 'ps, 'flt, 'h) locked
      \<Rightarrow> ('fl, 'hn, 'iv, 'cx, 'cc, 'm, 'ps, 'flt, 'h) locked
      \<Rightarrow> bool"
  for admits L P V t s where
  acquire: "lk_script s t = Acquire a c \<Longrightarrow> grantable a (lk_holds s) \<Longrightarrow>
    admits (lk_holds s) (asks \<circ> lk_script s) t \<Longrightarrow>
    lock_step admits L P V t s (s\<lparr>lk_script := (lk_script s)(t := c), lk_holds := (lk_holds s)(t := Some a)\<rparr>)"
| release: "lk_script s t = Release c \<Longrightarrow>
    lock_step admits L P V t s (s\<lparr>lk_script := (lk_script s)(t := c), lk_holds := (lk_holds s)(t := None)\<rparr>)"
| run: "local_step L P V t (lk_script s t) (cs_thread (lk_conc s) t) (lk_conc s) = Some (c, s') \<Longrightarrow>
    lock_step admits L P V t s (s\<lparr>lk_conc := s', lk_script := (lk_script s)(t := c)\<rparr>)"
| return: "lk_script s t = Done \<Longrightarrow> cs_thread (lk_conc s) t = Returned r \<Longrightarrow>
    lock_step admits L P V t s (s\<lparr>lk_conc := set_thread t Idle [Respond t r] (lk_conc s)\<rparr>)"

definition lock_call ::
    "nat \<Rightarrow> ('m, 'flt) db_op \<Rightarrow> ('co, 'ps, 'm, 'flt, 'h) lock_state \<Rightarrow> ('co, 'ps, 'm, 'flt, 'h) lock_state" where
  "lock_call t op s = s\<lparr>lk_conc := set_thread t (Called op) [Invoke t op] (lk_conc s),
     lk_script := (lk_script s)(t := script_of op)\<rparr>"

definition lock_start :: "('co, 'ps) iqdb \<Rightarrow> ('co, 'ps, 'm, 'flt, 'h) lock_state" where
  "lock_start db = \<lparr>lk_conc = \<lparr>cs_db = db, cs_thread = (\<lambda>_. Idle), cs_history = []\<rparr>,
     lk_script = (\<lambda>_. Done), lk_holds = (\<lambda>_. None)\<rparr>"

inductive lock_reach ::
    "admission \<Rightarrow> ('fl, 'hn, 'iv, 'cx, 'cc, 'cs, 'm, 'p, 'h, 'z) core_lib
      \<Rightarrow> ('fl, 'hn, 'iv, 'cx, 'cc, 'm, 'ps, 'pa, 'x, 'fs) persistence
      \<Rightarrow> ('p, 'flt) vocabulary
      \<Rightarrow> ('fl, 'hn, 'iv, 'cx, 'cc, 'm, 'ps) database
      \<Rightarrow> ('fl, 'hn, 'iv, 'cx, 'cc, 'm, 'ps, 'flt, 'h) locked
      \<Rightarrow> bool"
  for admits L P V db where
  start: "lock_reach admits L P V db (lock_start db)"
| called: "lock_reach admits L P V db s \<Longrightarrow> cs_thread (lk_conc s) t = Idle \<Longrightarrow>
    lock_reach admits L P V db (lock_call t op s)"
| stepped: "lock_reach admits L P V db s \<Longrightarrow> lock_step admits L P V t s s' \<Longrightarrow> lock_reach admits L P V db s'"

lemma lock_call_sel [simp]:
  "lk_conc (lock_call t op s) = set_thread t (Called op) [Invoke t op] (lk_conc s)"
  "lk_script (lock_call t op s) = (lk_script s)(t := script_of op)"
  "lk_holds (lock_call t op s) = lk_holds s"
  by (simp_all add: lock_call_def)

lemma lock_start_sel [simp]:
  "cs_db (lk_conc (lock_start db)) = db" "cs_thread (lk_conc (lock_start db)) = (\<lambda>_. Idle)"
  "lk_script (lock_start db) = (\<lambda>_. Done)" "lk_holds (lock_start db) = (\<lambda>_. None)"
  by (simp_all add: lock_start_def)

section \<open>Guard discipline\<close>

text \<open>How far a call has come, as far as the guard it holds lets it rely on that.\<close>

datatype stage = Fresh | Checked | NonEmpty | Built | Unbuilt | Answered

fun is_search :: "('m, 'flt) db_op \<Rightarrow> bool" where
  "is_search (OSearch q k flt) = True"
| "is_search _ = False"

fun only_reads :: "('m, 'flt) db_op \<Rightarrow> bool" where
  "only_reads (OGet i) = True"
| "only_reads OLen = True"
| "only_reads _ = False"

text \<open>
  A script is \<open>typed\<close> at a stage and under a guard if it takes guards only when it holds none and
  gives back what it holds, touches the storage only under a guard, and changes it only under the
  write guard.
\<close>

fun typed :: "('m, 'flt) db_op \<Rightarrow> stage \<Rightarrow> access option \<Rightarrow> script \<Rightarrow> bool" where
  "typed op st h Done \<longleftrightarrow> st = Answered \<and> h = None"
| "typed op st h (CheckDim c) \<longleftrightarrow> st = Fresh \<and> h = None \<and> typed op Checked None c"
| "typed op st h (Acquire a c) \<longleftrightarrow> st \<in> {Fresh, Checked, Unbuilt} \<and> h = None \<and> typed op st (Some a) c"
| "typed op st h (Release c) \<longleftrightarrow> h \<noteq> None \<and> typed op (if st \<in> {NonEmpty, Built} then Checked else st) None c"
| "typed op st h (Whole c) \<longleftrightarrow> \<not> is_search op \<and> (h = Some Exclusive \<or> h = Some Shared \<and> only_reads op)
     \<and> st \<in> {Fresh, Checked} \<and> typed op Answered h c"
| "typed op st h (IfEmpty c c') \<longleftrightarrow> is_search op \<and> st = Checked \<and> h \<noteq> None
     \<and> typed op Answered h c \<and> typed op NonEmpty h c'"
| "typed op st h (IfBuilt c c') \<longleftrightarrow> is_search op \<and> st = NonEmpty \<and> h \<noteq> None
     \<and> typed op Built h c \<and> typed op Unbuilt h c'"
| "typed op st h (Search c) \<longleftrightarrow> is_search op \<and> st = Built \<and> h \<noteq> None \<and> typed op Answered h c"
| "typed op st h (Build c) \<longleftrightarrow> is_search op \<and> st = Unbuilt \<and> h = Some Exclusive \<and> typed op Answered h c"

text \<open>The methods keep the discipline.\<close>

lemma typed_script: "typed op Fresh None (script_of op)"
  by (cases op) (simp_all add: script_defs)

lemma typed_unheld: "typed op st None c \<Longrightarrow> st \<notin> {NonEmpty, Built}"
  by (cases c) auto

lemma is_searchE: "is_search op \<Longrightarrow> (\<And>q k flt. op = OSearch q k flt \<Longrightarrow> thesis) \<Longrightarrow> thesis"
  by (cases op) auto

text \<open>What a thread may rely on about the storage at each stage of its call.\<close>

definition stage_holds ::
    "('fl, 'hn, 'iv, 'cx, 'cc, 'm, 'ps, 'pa, 'x, 'fs) persistence
      \<Rightarrow> ('fl, 'hn, 'iv, 'cx, 'cc, 'm, 'ps) database \<Rightarrow> ('m, 'flt) db_op \<Rightarrow> stage \<Rightarrow> bool" where
  "stage_holds P db op st \<longleftrightarrow>
     st \<in> {Fresh, Checked, NonEmpty, Built}
     \<and> (st \<noteq> Fresh \<longrightarrow> check_op db op = Inr ())
     \<and> (st \<in> {NonEmpty, Built} \<longrightarrow> \<not> core_is_empty (db_core P db))
     \<and> (st = Built \<longrightarrow> \<not> core_needs_materialization (db_core P db))"

fun thread_ok ::
    "('fl, 'hn, 'iv, 'cx, 'cc, 'm, 'ps, 'pa, 'x, 'fs) persistence
      \<Rightarrow> ('fl, 'hn, 'iv, 'cx, 'cc, 'm, 'ps) database \<Rightarrow> script \<Rightarrow> access option
      \<Rightarrow> ('m, 'flt, 'h) thread \<Rightarrow> bool" where
  "thread_ok P db c h Idle \<longleftrightarrow> c = Done \<and> h = None"
| "thread_ok P db c h (Called op) \<longleftrightarrow> (\<exists>st. typed op st h c \<and> stage_holds P db op st)"
| "thread_ok P db c h (BetweenGuards q k flt) \<longleftrightarrow>
     typed (OSearch q k flt :: ('m, 'flt) db_op) Unbuilt h c \<and> length q = db_dim db"
| "thread_ok P db c h (Returned r) \<longleftrightarrow> (\<exists>op :: ('m, 'flt) db_op. typed op Answered h c)"

text \<open>What a step under a read guard leaves of the database: all but what a cache remembers.\<close>

definition same_view ::
    "('fl, 'hn, 'iv, 'cx, 'cc, 'm, 'ps, 'pa, 'x, 'fs) persistence
      \<Rightarrow> ('fl, 'hn, 'iv, 'cx, 'cc, 'm, 'ps) database
      \<Rightarrow> ('fl, 'hn, 'iv, 'cx, 'cc, 'm, 'ps) database \<Rightarrow> bool" where
  "same_view P db db' \<longleftrightarrow> db_dim db' = db_dim db \<and> db_metric db' = db_metric db
     \<and> core_frame (db_core P db) (db_core P db')
     \<and> core_needs_materialization (db_core P db') = core_needs_materialization (db_core P db)"

lemma same_view_refl [simp]: "same_view P db db"
  by (simp add: same_view_def)

lemma stage_holds_view: "same_view P db db' \<Longrightarrow> stage_holds P db' op st = stage_holds P db op st"
  by (cases "op_dim op")
    (auto simp: stage_holds_def same_view_def check_op_def check_dim_def core_frame_def core_is_empty_def)

lemma thread_ok_view: "same_view P db db' \<Longrightarrow> thread_ok P db' c h th = thread_ok P db c h th"
  by (cases th) (simp_all add: stage_holds_view, simp add: same_view_def)

text \<open>A thread that holds no guard relies on nothing but its dimension.\<close>

lemma thread_ok_unheld:
  assumes "thread_ok P db c None th" and "db_dim db' = db_dim db"
  shows "thread_ok P db' c None th"
proof (cases th)
  case (Called op)
  with assms(1) obtain st where st: "typed op st None c" "stage_holds P db op st" by auto
  from typed_unheld [OF st(1)] st(2) assms(2) have "stage_holds P db' op st"
    by (auto simp: stage_holds_def check_op_def check_dim_def split: option.splits)
  with st(1) Called show ?thesis by auto
qed (use assms in simp_all)

section \<open>What a step does\<close>

lemma storage_search_view:
  assumes "persist_field P" and "db_write (storage_search L P q p) db = (r, db')"
  shows "same_view P db db'"
proof (cases "lk_value (db_inner db)")
  case (Memory c)
  obtain x c' where se: "core_search L q p c = (x, c')" by fastforce
  with assms(2) Memory have "db' = db_set (Memory c') db" by (auto simp: db_write_eq storage_search_def)
  moreover have "co_ivf_dirty c' = co_ivf_dirty c" using se by (auto simp: core_search_def apsnd_eq)
  ultimately show ?thesis using core_search_frame [OF se] Memory
    by (simp add: same_view_def db_core_def core_needs_materialization_def)
next
  case (Persisted ps)
  obtain x c' where se: "core_search L q p (ps_index P ps) = (x, c')" by fastforce
  with assms(2) Persisted have "db' = db_set (Persisted (ps_set_index P c' ps)) db"
    by (auto simp: db_write_eq storage_search_def apsnd_eq)
  moreover have "co_ivf_dirty c' = co_ivf_dirty (ps_index P ps)" using se by (auto simp: core_search_def apsnd_eq)
  ultimately show ?thesis using core_search_frame [OF se] Persisted assms(1)
    by (simp add: same_view_def db_core_def core_needs_materialization_def persist_field_def)
qed

lemma local_step_others:
  "local_step L P V t c th s = Some (c', s') \<Longrightarrow> u \<noteq> t \<Longrightarrow> cs_thread s' u = cs_thread s u"
  by (induction L P V t c th s rule: local_step.induct) (auto split: sum.splits prod.splits if_splits)

lemma local_step_dim:
  "local_step L P V t c th s = Some (c', s') \<Longrightarrow> db_dim (cs_db s') = db_dim (cs_db s)"
proof (induction L P V t c th s rule: local_step.induct)
  case (2 L P V t c op s)
  then show ?case by (auto dest: db_exec_dim)
next
  case (6 L P V t c q k flt s)
  then show ?case by (auto dest: search_section_dim split: prod.splits)
qed (auto simp: db_write_eq apsnd_eq split: sum.splits prod.splits if_splits)

text \<open>Without the write guard a step leaves what others rely on.\<close>

lemma local_step_view:
  assumes field: "persist_field P" and ok: "thread_ok P (cs_db s) c h th" and nx: "h \<noteq> Some Exclusive"
    and run: "local_step L P V t c th s = Some (c', s')"
  shows "same_view P (cs_db s) (cs_db s')"
  using run ok nx field
proof (induction L P V t c th s rule: local_step.induct)
  case (2 L P V t c op s)
  then have "only_reads op" by auto
  with 2(1) show ?case by (cases op) auto
next
  case (5 L P V t c q k flt s)
  then show ?case
    by (auto dest: storage_search_view split: prod.splits)
qed (auto split: sum.splits prod.splits if_splits)

text \<open>The thread itself stays within the discipline.\<close>

lemma local_step_ok:
  fixes th :: "('m, 'flt, 'h) thread"
  assumes "persist_field P" and "thread_ok P (cs_db s) c h th" and "cs_thread s t = th"
    and "local_step L P V t c th s = Some (c', s')"
  shows "thread_ok P (cs_db s') c' h (cs_thread s' t)"
  using assms(4,1-3)
proof (induction L P V t c th s rule: local_step.induct)
  case (1 L P V t c op s)
  from 1(3) have ty: "typed op Checked None c" "h = None" by auto
  show ?case
  proof (cases "check_op (cs_db s) op")
    case (Inl e)
    with 1 ty show ?thesis by auto
  next
    case (Inr u)
    then have "stage_holds P (cs_db s) op Checked" by (simp add: stage_holds_def)
    with Inr 1 ty show ?thesis by auto
  qed
next
  case (3 L P V t c c' op s)
  from 3(3) have ty: "typed op Answered h c" "typed op NonEmpty h c'" "stage_holds P (cs_db s) op Checked" by auto
  show ?case
  proof (cases "core_is_empty (db_core P (cs_db s))")
    case True
    with 3 ty show ?thesis by auto
  next
    case False
    with ty(3) have "stage_holds P (cs_db s) op NonEmpty" by (simp add: stage_holds_def)
    with False 3 ty show ?thesis by auto
  qed
next
  case (4 L P V t c c' q k flt s)
  let ?op = "OSearch q k flt :: ('m, 'flt) db_op"
  from 4(3) have ty: "typed ?op Built h c" "typed ?op Unbuilt h c'" "stage_holds P (cs_db s) ?op NonEmpty" by auto
  show ?case
  proof (cases "core_needs_materialization (db_core P (cs_db s))")
    case True
    with ty(3) have "length q = db_dim (cs_db s)" by (simp add: stage_holds_def check_op_def check_dim_ok)
    with True 4 ty show ?thesis by auto
  next
    case False
    with ty(3) have "stage_holds P (cs_db s) ?op Built" by (simp add: stage_holds_def)
    with False 4 ty show ?thesis by auto
  qed
qed (auto split: prod.splits)

text \<open>Each step is one of the interleaving of whole sections, or leaves its state alone.\<close>

lemma search_fast_empty:
  "core_is_empty (db_core P db) \<Longrightarrow> search_fast L P V q k flt db = (Some (Inr []), db)"
  by (simp add: search_fast_def db_write_eq db_core_def db_read_def)

lemma search_fast_built:
  assumes "\<not> core_is_empty (db_core P db)" and "\<not> core_needs_materialization (db_core P db)"
    and "db_write (storage_search L P q (db_params V db k flt)) db = (r, db')"
  shows "search_fast L P V q k flt db = (Some r, db')"
  using assms by (auto simp: search_fast_def db_write_eq db_core_def db_read_def apsnd_eq apfst_def map_prod_def
      split: prod.splits)

lemma search_fast_unbuilt:
  "\<not> core_is_empty (db_core P db) \<Longrightarrow> core_needs_materialization (db_core P db) \<Longrightarrow>
     search_fast L P V q k flt db = (None, db)"
  by (simp add: search_fast_def db_write_eq db_core_def db_read_def)

lemma conc_step_fast:
  assumes "cs_thread s t = Called (OSearch q k flt)" and "stage_holds P (cs_db s) (OSearch q k flt) st" and "st \<noteq> Fresh"
    and "search_fast L P V q k flt (cs_db s) = (Some r, db)"
  shows "conc_step L P V t s (take_effect t (OSearch q k flt) (map_sum (\<lambda>e. e) OutHits r) db s)"
  by (rule conc_step.fast [OF assms(1) _ assms(4)]) (use assms(2,3) in \<open>simp add: stage_holds_def check_op_def\<close>)

lemma local_step_conc:
  assumes "thread_ok P (cs_db s) c h th" and "cs_thread s t = th"
    and "local_step L P V t c th s = Some (c', s')"
  shows "s' = s \<or> conc_step L P V t s s'"
  using assms(3,1,2)
proof (induction L P V t c th s rule: local_step.induct)
  case (1 L P V t c op s)
  show ?case
  proof (cases "check_op (cs_db s) op")
    case (Inl e)
    then have s': "s' = take_effect t op (Inl e) (cs_db s) s" using 1 by simp
    show ?thesis
    proof (cases op)
      case (OUpsert i v m)
      with Inl have "db_exec L P V op (cs_db s) = Some (Inl e, cs_db s)"
        by (simp add: check_op_def db_upsert_def)
      from conc_step.whole [OF 1(3) _ this] OUpsert s' show ?thesis by auto
    next
      case (OSearch q k flt)
      with conc_step.refused [of s t q k flt e] Inl 1(3) s' show ?thesis by (auto simp: check_op_def)
    qed (use Inl in \<open>simp_all add: check_op_def\<close>)
  next
    case (Inr u)
    with 1 show ?thesis by simp
  qed
next
  case (2 L P V t c op s)
  then obtain r db where run: "db_exec L P V op (cs_db s) = Some (r, db)" "s' = take_effect t op r db s" by auto
  from 2(2) have "\<forall>q k flt. op \<noteq> OSearch q k flt" by auto
  from conc_step.whole [OF 2(3) this run(1)] run(2) show ?case by simp
next
  case (3 L P V t c c' op s)
  then have se: "is_search op" "stage_holds P (cs_db s) op Checked" by auto
  from se(1) obtain q k flt where op: "op = OSearch q k flt" by (rule is_searchE)
  show ?case
  proof (cases "core_is_empty (db_core P (cs_db s))")
    case True
    from conc_step_fast [OF _ _ _ search_fast_empty [OF True], of t q k flt Checked L V] 3 se(2) True op
    show ?thesis by auto
  qed (use 3 in simp)
next
  case (4 L P V t c c' q k flt s)
  then have sh: "stage_holds P (cs_db s) (OSearch q k flt) NonEmpty" by auto
  show ?case
  proof (cases "core_needs_materialization (db_core P (cs_db s))")
    case True
    with sh have "search_fast L P V q k flt (cs_db s) = (None, cs_db s)"
      by (intro search_fast_unbuilt) (simp_all add: stage_holds_def)
    from conc_step.between [OF 4(3) _ this] sh True 4(1) show ?thesis
      by (simp add: stage_holds_def check_op_def)
  qed (use 4 in simp)
next
  case (5 L P V t c q k flt s)
  then have sh: "stage_holds P (cs_db s) (OSearch q k flt) Built" by auto
  obtain r db where run: "db_write (storage_search L P q (db_params V (cs_db s) k flt)) (cs_db s) = (r, db)" by fastforce
  from sh have "search_fast L P V q k flt (cs_db s) = (Some r, db)"
    by (intro search_fast_built [OF _ _ run]) (simp_all add: stage_holds_def)
  from conc_step_fast [OF 5(3) sh _ this] run 5(1) show ?case by simp
next
  case (6 L P V t c q k flt s)
  obtain r db where run: "search_slow L P V q k flt (cs_db s) = (r, db)" by fastforce
  from conc_step.slow [OF 6(3) run] run 6(1) show ?case by simp
qed simp_all

section \<open>The invariant\<close>

definition lock_inv ::
    "('fl, 'hn, 'iv, 'cx, 'cc, 'm, 'ps, 'pa, 'x, 'fs) persistence
      \<Rightarrow> ('fl, 'hn, 'iv, 'cx, 'cc, 'm, 'ps, 'flt, 'h) locked \<Rightarrow> bool" where
  "lock_inv P s \<longleftrightarrow>
     (\<forall>t. thread_ok P (cs_db (lk_conc s)) (lk_script s t) (lk_holds s t) (cs_thread (lk_conc s) t))
     \<and> (\<forall>t u. lk_holds s t = Some Exclusive \<longrightarrow> u \<noteq> t \<longrightarrow> lk_holds s u = None)"

lemma lock_invD:
  assumes "lock_inv P s"
  shows "thread_ok P (cs_db (lk_conc s)) (lk_script s t) (lk_holds s t) (cs_thread (lk_conc s) t)"
    and "lk_holds s t = Some Exclusive \<Longrightarrow> u \<noteq> t \<Longrightarrow> lk_holds s u = None"
  using assms unfolding lock_inv_def by blast+

lemma thread_ok_acquire:
  "thread_ok P db (Acquire a c) h th \<Longrightarrow> h = None \<and> thread_ok P db c (Some a) th"
  by (cases th) auto

lemma thread_ok_asks: "thread_ok P db c h th \<Longrightarrow> h \<noteq> None \<Longrightarrow> asks c = None"
  using thread_ok_acquire [of P db _ _ h th] by (cases c) fastforce+

lemma thread_ok_release:
  "thread_ok P db (Release c) h th \<Longrightarrow> h \<noteq> None \<and> thread_ok P db c None th"
proof (cases th)
  case (Called op)
  assume "thread_ok P db (Release c) h th"
  with Called obtain st where st: "typed op st h (Release c)" "stage_holds P db op st" by auto
  let ?st = "if st \<in> {NonEmpty, Built} then Checked else st"
  have "stage_holds P db op ?st" using st(2) by (auto simp: stage_holds_def)
  moreover have "typed op ?st None c" "h \<noteq> None" using st(1) by auto
  ultimately show ?thesis using Called by auto
qed auto

lemma lock_inv_step:
  assumes field: "persist_field P" and step: "lock_step admits L P V t s s'" and inv: "lock_inv P s"
  shows "lock_inv P s'"
  using step
proof (cases rule: lock_step.cases)
  case (acquire a c)
  note I = lock_invD [OF inv]
  from I(1) [of t] acquire(2) thread_ok_acquire have
    "thread_ok P (cs_db (lk_conc s)) c (Some a) (cs_thread (lk_conc s) t)" by metis
  moreover have "lk_holds s u \<noteq> Some Exclusive" for u
    using acquire(3) unfolding grantable_def by (metis access.distinct(1) option.distinct(1) option.inject)
  moreover have "a = Exclusive \<Longrightarrow> lk_holds s u = None" for u using acquire(3) by (simp add: grantable_def)
  ultimately show ?thesis using acquire(1) inv by (auto simp: lock_inv_def)
next
  case (release c)
  from lock_invD(1) [OF inv, of t] release(2) thread_ok_release have
    "thread_ok P (cs_db (lk_conc s)) c None (cs_thread (lk_conc s) t)" by metis
  with release inv show ?thesis by (auto simp: lock_inv_def)
next
  case (run c cs')
  let ?db = "cs_db (lk_conc s)"
  note I = lock_invD [OF inv]
  have "thread_ok P (cs_db cs') (lk_script s' u) (lk_holds s' u) (cs_thread cs' u)" for u
  proof (cases "u = t")
    case True
    with local_step_ok [OF field I(1) refl run(2)] run(1) show ?thesis by simp
  next
    case False
    from local_step_others [OF run(2) False] have th: "cs_thread cs' u = cs_thread (lk_conc s) u" .
    have "thread_ok P (cs_db cs') (lk_script s u) (lk_holds s u) (cs_thread (lk_conc s) u)"
    proof (cases "lk_holds s t = Some Exclusive")
      case True
      with I(2) False have "lk_holds s u = None" by blast
      with thread_ok_unheld [of P ?db "lk_script s u" "cs_thread (lk_conc s) u" "cs_db cs'"]
        I(1) [of u] local_step_dim [OF run(2)]
      show ?thesis by simp
    next
      case nx: False
      from local_step_view [OF field I(1) nx run(2)] have "same_view P ?db (cs_db cs')" .
      from thread_ok_view [OF this] I(1) [of u] show ?thesis by (rule iffD2)
    qed
    with False th run(1) show ?thesis by simp
  qed
  with run(1) I(2) show ?thesis by (simp add: lock_inv_def)
next
  case (return r)
  from lock_invD(1) [OF inv, of t] return have "lk_holds s t = None" by auto
  with return inv show ?thesis by (auto simp: lock_inv_def)
qed

lemma lock_inv_call:
  assumes "lock_inv P s" and "cs_thread (lk_conc s) t = Idle"
  shows "lock_inv P (lock_call t op s)"
proof -
  from lock_invD(1) [OF assms(1), of t] assms(2) have "lk_holds s t = None" by simp
  moreover have "stage_holds P (cs_db (lk_conc s)) op Fresh" by (simp add: stage_holds_def)
  ultimately show ?thesis using assms(1) typed_script [of op] by (auto simp: lock_inv_def)
qed

lemma lock_reach_inv:
  assumes "lock_reach admits L P V db s" and "persist_field P"
  shows "lock_inv P s"
  using assms
proof (induction rule: lock_reach.induct)
  case start
  show ?case by (simp add: lock_inv_def)
next
  case (called s t op)
  then show ?case by (blast intro: lock_inv_call)
next
  case (stepped s t s')
  then show ?case by (blast intro: lock_inv_step)
qed

text \<open>What the steps of a thread leave alone, by the guard it holds.\<close>

lemma local_step_unheld:
  "local_step L P V t c th s = Some (c', s') \<Longrightarrow> thread_ok P (cs_db s) c None th \<Longrightarrow> cs_db s' = cs_db s"
  by (induction L P V t c th s rule: local_step.induct) (auto split: sum.splits)

lemma lock_step_unheld:
  assumes "lock_step admits L P V u s s'" and "lock_inv P s" and "lk_holds s u = None"
  shows "cs_db (lk_conc s') = cs_db (lk_conc s)"
  using assms(1)
proof (cases rule: lock_step.cases)
  case (run c cs')
  from local_step_unheld [OF run(2)] lock_invD(1) [OF assms(2), of u] assms(3) run(1) show ?thesis by simp
qed simp_all

lemma lock_step_view:
  assumes "persist_field P" and "lock_step admits L P V u s s'" and "lock_inv P s"
    and "lk_holds s u \<noteq> Some Exclusive"
  shows "same_view P (cs_db (lk_conc s)) (cs_db (lk_conc s'))"
  using assms(2)
proof (cases rule: lock_step.cases)
  case (run c cs')
  from local_step_view [OF assms(1) lock_invD(1) [OF assms(3)] assms(4) run(2)] run(1) show ?thesis by simp
qed simp_all

text \<open>The interleavings of single steps are interleavings of sections.\<close>

lemma lock_step_conc:
  assumes "lock_step admits L P V t s s'" and "lock_inv P s"
  shows "lk_conc s' = lk_conc s \<or> conc_step L P V t (lk_conc s) (lk_conc s')"
  using assms(1)
proof (cases rule: lock_step.cases)
  case (run c cs')
  from local_step_conc [OF lock_invD(1) [OF assms(2)] refl run(2)] run(1) show ?thesis by simp
next
  case (return r)
  from conc_step.return [OF return(3), of L P V] return(1) show ?thesis by simp
qed simp_all

lemma lock_reach_conc:
  assumes "lock_reach admits L P V db s" and "persist_field P"
  shows "conc_reach L P V db (lk_conc s)"
  using assms
proof (induction rule: lock_reach.induct)
  case start
  show ?case using conc_reach.start [of L P V db] by (simp add: lock_start_def)
next
  case (called s t op)
  then have "conc_reach L P V db (lk_conc s)" by blast
  from conc_reach.step [OF this conc_step.call [OF called.hyps(2)]] show ?case by simp
next
  case (stepped s t s')
  then have "conc_reach L P V db (lk_conc s)" and "lock_inv P s" by (blast intro: lock_reach_inv)+
  from lock_step_conc [OF stepped.hyps(2) this(2)] this(1) show ?case by (auto intro: conc_reach.step)
qed

section \<open>Progress\<close>

text \<open>Threads in a call, and what is left of their scripts.\<close>

definition busy :: "('co, 'ps, 'm, 'flt, 'h) lock_state \<Rightarrow> nat set" where
  "busy s = {t. cs_thread (lk_conc s) t \<noteq> Idle}"

fun script_size :: "script \<Rightarrow> nat" where
  "script_size Done = 1"
| "script_size (CheckDim c) = 1 + script_size c"
| "script_size (Acquire a c) = 1 + script_size c"
| "script_size (Release c) = 1 + script_size c"
| "script_size (Whole c) = 1 + script_size c"
| "script_size (IfEmpty c c') = 1 + max (script_size c) (script_size c')"
| "script_size (IfBuilt c c') = 1 + max (script_size c) (script_size c')"
| "script_size (Search c) = 1 + script_size c"
| "script_size (Build c) = 1 + script_size c"

definition work_left :: "('co, 'ps, 'm, 'flt, 'h) lock_state \<Rightarrow> nat" where
  "work_left s = (\<Sum>t \<in> busy s. script_size (lk_script s t))"

lemma script_size_pos: "0 < script_size c"
  by (induction c) simp_all

lemma local_step_shrinks:
  "local_step L P V t c th s = Some (c', s') \<Longrightarrow> script_size c' < script_size c"
  by (induction L P V t c th s rule: local_step.induct)
    (auto simp: script_size_pos split: sum.splits prod.splits if_splits)

lemma local_step_busy:
  "local_step L P V t c th s = Some (c', s') \<Longrightarrow> cs_thread s t = th \<Longrightarrow> th \<noteq> Idle \<and> cs_thread s' t \<noteq> Idle"
  by (induction L P V t c th s rule: local_step.induct) (auto split: sum.splits prod.splits if_splits)

text \<open>Each step leaves a little less to do, and the other threads where they are.\<close>

lemma lock_step_others:
  assumes "lock_step admits L P V t s s'" and "u \<noteq> t"
  shows "lk_script s' u = lk_script s u" and "lk_holds s' u = lk_holds s u"
    and "cs_thread (lk_conc s') u = cs_thread (lk_conc s) u"
  using assms by (auto elim!: lock_step.cases dest: local_step_others)

lemma lock_step_busy:
  assumes "lock_step admits L P V t s s'" and "lock_inv P s"
  shows "t \<in> busy s \<and> (if t \<in> busy s' then script_size (lk_script s' t) < script_size (lk_script s t) else busy s' = busy s - {t})
    \<and> busy s' \<subseteq> busy s"
proof -
  note I = lock_invD(1) [OF assms(2), of t]
  have sub: "busy s' - {t} = busy s - {t}" using lock_step_others(3) [OF assms(1)] by (auto simp: busy_def)
  from assms(1) show ?thesis
  proof (cases rule: lock_step.cases)
    case (acquire a c)
    with I have "cs_thread (lk_conc s) t \<noteq> Idle" by auto
    with acquire(1,2) show ?thesis by (simp add: busy_def)
  next
    case (release c)
    with I have "cs_thread (lk_conc s) t \<noteq> Idle" by auto
    with release(1,2) show ?thesis by (simp add: busy_def)
  next
    case (run c cs')
    from local_step_busy [OF run(2) refl] local_step_shrinks [OF run(2)] run(1) sub show ?thesis
      by (auto simp: busy_def)
  next
    case (return r)
    with sub show ?thesis by (auto simp: busy_def)
  qed
qed

lemma lock_step_work:
  assumes "lock_step admits L P V t s s'" and "lock_inv P s" and "finite (busy s)"
  shows "work_left s' < work_left s"
proof -
  note B = lock_step_busy [OF assms(1,2)]
  have same: "lk_script s' u = lk_script s u" if "u \<in> busy s - {t}" for u
    using lock_step_others(1) [OF assms(1)] that by simp
  have s: "work_left s = script_size (lk_script s t) + (\<Sum>u \<in> busy s - {t}. script_size (lk_script s u))"
    using B assms(3) unfolding work_left_def by (intro sum.remove) auto
  show ?thesis
  proof (cases "t \<in> busy s'")
    case True
    have rest: "busy s' - {t} = busy s - {t}"
      using lock_step_others(3) [OF assms(1)] by (auto simp: busy_def)
    have "finite (busy s')" using B assms(3) by (auto intro: finite_subset)
    then have "work_left s' = script_size (lk_script s' t) + (\<Sum>u \<in> busy s - {t}. script_size (lk_script s' u))"
      using True unfolding work_left_def rest [symmetric] by (rule sum.remove)
    with s same B True show ?thesis by simp
  next
    case False
    with B have "busy s' = busy s - {t}" by auto
    with s same script_size_pos [of "lk_script s t"] show ?thesis by (simp add: work_left_def)
  qed
qed

lemma lock_reach_finite:
  assumes "lock_reach admits L P V db s" and "persist_field P"
  shows "finite (busy s)"
  using assms
proof (induction rule: lock_reach.induct)
  case start
  show ?case by (simp add: busy_def)
next
  case (called s t op)
  have "busy (lock_call t op s) \<subseteq> insert t (busy s)" by (auto simp: busy_def)
  with called show ?case by (meson finite_insert finite_subset)
next
  case (stepped s t s')
  from lock_step_busy [OF stepped.hyps(2) lock_reach_inv [OF stepped.hyps(1) stepped.prems]] stepped show ?case
    by (auto intro: finite_subset)
qed

text \<open>A thread in a call waits for a guard, or can take its next step.\<close>

lemma local_step_exists:
  assumes "mem_typed (cs_db s)" and "thread_ok P (cs_db s) c h th" and "cs_thread s t = th" and "th \<noteq> Idle"
  shows "(\<exists>a c'. c = Acquire a c') \<or> (\<exists>c'. c = Release c') \<or> (\<exists>r. c = Done \<and> th = Returned r)
    \<or> (\<exists>x. local_step L P V t c th s = Some x)"
proof (cases th)
  case (Called op)
  with assms(2) obtain st where st: "typed op st h c" "stage_holds P (cs_db s) op st" by auto
  from db_exec_typed [OF assms(1), of L P V op] obtain r db where
    exec: "db_exec L P V op (cs_db s) = Some (r, db)" by blast
  show ?thesis
    using st exec Called by (cases c) (auto simp: stage_holds_def elim!: is_searchE)
next
  case (BetweenGuards q k flt)
  with assms(2) show ?thesis by (cases c) auto
next
  case (Returned r)
  with assms(2) show ?thesis by (cases c) auto
qed (use assms in simp)

end
