(* ===== verification/Iqdb_Lock_Props.thy ===== *)
theory Iqdb_Lock_Props
  imports Iqdb_Lock Iqdb_Concurrent_Props
begin

text \<open>
  The properties of the lock of a shared handle: what its guards exclude, that the runs of
  threads under it are interleavings of whole sections, and that nothing deadlocks.
\<close>

section \<open>Two readers inside their sections\<close>

abbreviation demo_admits :: admission where
  "demo_admits \<equiv> \<lambda>holds asking t. True"

definition demo_asking :: "(demo_core, (demo_core, demo_meta) file_ps, demo_meta, unit, vector_id) lock_state" where
  "demo_asking = lock_call 2 (OSearch [0, 0] 3 None) (lock_call 1 OLen (lock_start (demo_mem demo_ivf)))"

text \<open>Thread 1 asks for the size and thread 2 searches; both hold the read guard.\<close>

definition demo_locked :: "(demo_core, (demo_core, demo_meta) file_ps, demo_meta, unit, vector_id) lock_state" where
  "demo_locked = demo_asking
     \<lparr>lk_script := (\<lambda>_. Done)(1 := Whole (Release Done),
        2 := IfEmpty (Release Done) (IfBuilt (Search (Release Done)) (Release (Acquire Exclusive (Build (Release Done)))))),
      lk_holds := (\<lambda>_. None)(1 := Some Shared, 2 := Some Shared)\<rparr>"

abbreviation demo_lock_reach where
  "demo_lock_reach \<equiv> lock_reach demo_admits demo_lib demo_files demo_vocab (demo_mem demo_ivf)"

lemma demo_asking_sel [simp]:
  "lk_script demo_asking = (\<lambda>_. Done)(1 := len_script, 2 := search_script)" "lk_holds demo_asking = (\<lambda>_. None)"
  "cs_db (lk_conc demo_asking) = demo_mem demo_ivf"
  "cs_thread (lk_conc demo_asking) = (\<lambda>_. Idle)(1 := Called OLen, 2 := Called (OSearch [0, 0] 3 None))"
  by (simp_all add: demo_asking_def)

lemma demo_locked_reach: "demo_lock_reach demo_locked"
proof -
  let ?step = "lock_step demo_admits demo_lib demo_files demo_vocab"
  let ?c = "IfEmpty (Release Done) (IfBuilt (Search (Release Done)) (Release (Acquire Exclusive (Build (Release Done)))))"
  let ?s1 = "demo_asking\<lparr>lk_script := (lk_script demo_asking)(1 := Whole (Release Done)),
    lk_holds := (lk_holds demo_asking)(1 := Some Shared)\<rparr>"
  let ?s2 = "?s1\<lparr>lk_script := (lk_script ?s1)(2 := Acquire Shared ?c)\<rparr>"
  have "demo_lock_reach (lock_call 1 OLen (lock_start (demo_mem demo_ivf)))"
    by (rule lock_reach.called [OF lock_reach.start]) simp
  then have "demo_lock_reach demo_asking" unfolding demo_asking_def by (rule lock_reach.called) simp
  moreover have "?step 1 demo_asking ?s1"
    by (rule lock_step.acquire) (simp_all add: len_script_def grantable_def)
  ultimately have "demo_lock_reach ?s1" by (rule lock_reach.stepped)
  moreover have "?step 2 ?s1 ?s2"
  proof -
    have "db_dim (demo_mem demo_ivf) = 2" by (simp add: demo_mem_def)
    then have "local_step demo_lib demo_files demo_vocab 2 (lk_script ?s1 2) (cs_thread (lk_conc ?s1) 2) (lk_conc ?s1)
        = Some (Acquire Shared ?c, lk_conc ?s1)"
      by (simp add: search_script_def check_op_def check_dim_def)
    from lock_step.run [OF this] show ?thesis by simp
  qed
  ultimately have "demo_lock_reach ?s2" by (rule lock_reach.stepped)
  moreover have "?step 2 ?s2 (?s2\<lparr>lk_script := (lk_script ?s2)(2 := ?c), lk_holds := (lk_holds ?s2)(2 := Some Shared)\<rparr>)"
    by (rule lock_step.acquire) (simp_all add: grantable_def)
  ultimately have "demo_lock_reach (?s2\<lparr>lk_script := (lk_script ?s2)(2 := ?c), lk_holds := (lk_holds ?s2)(2 := Some Shared)\<rparr>)"
    by (rule lock_reach.stepped)
  moreover have "?s2\<lparr>lk_script := (lk_script ?s2)(2 := ?c), lk_holds := (lk_holds ?s2)(2 := Some Shared)\<rparr> = demo_locked"
    by (simp add: demo_locked_def fun_upd_twist)
  ultimately show ?thesis by simp
qed

section \<open>Exclusion\<close>



section \<open>Refinement\<close>

text \<open>
  C27. Under the lock, threads interleave as whole sections. However the steps of the methods'
  bodies interleave, readers side by side, the database and what the calls return are those of
  an interleaving of whole critical sections, so of the calls one after the other in the order
  in which they took effect; the properties of those interleavings are properties of the
  handle with its lock.
\<close>

theorem lock_refines:
  assumes "persist_field P" and "lock_reach admits L P V db s"
  shows "conc_reach L P V db (lk_conc s)
    \<and> db_run L P V (map fst (effects (cs_history (lk_conc s)))) db
        = Some (map snd (effects (cs_history (lk_conc s))), cs_db (lk_conc s))"
  using lock_reach_conc [OF assms(2,1)] conc_reach_inv [OF lock_reach_conc [OF assms(2,1)] assms(1)]
  by (simp add: conc_inv_def)

theorem lock_refines_witness:
  "conc_reach demo_lib demo_files demo_vocab (demo_mem demo_ivf) (lk_conc demo_locked)"
  using lock_refines [OF demo_field demo_locked_reach] by blast

section \<open>Progress\<close>

text \<open>A lock lets somebody in who asks, once nobody holds a guard.\<close>

definition grants :: "admission \<Rightarrow> bool" where
  "grants admits \<longleftrightarrow>
     (\<forall>asking. (\<exists>t. asking t \<noteq> None) \<longrightarrow> (\<exists>t. asking t \<noteq> None \<and> admits (\<lambda>_. None) asking t))"

lemma lock_run_bound:
  assumes "lock_reach admits L P V db s" and field: "persist_field P"
    and "((\<lambda>a b. \<exists>t. lock_step admits L P V t a b) ^^ n) s s'"
  shows "n + work_left s' \<le> work_left s \<and> lock_reach admits L P V db s'"
  using assms(3)
proof (induction n arbitrary: s')
  case (Suc n)
  then obtain s1 t where run: "((\<lambda>a b. \<exists>t. lock_step admits L P V t a b) ^^ n) s s1"
    and step: "lock_step admits L P V t s1 s'" by auto
  from Suc.IH [OF run] have r1: "lock_reach admits L P V db s1" and n: "n + work_left s1 \<le> work_left s" by auto
  from lock_step_work [OF step lock_reach_inv [OF r1 field] lock_reach_finite [OF r1 field]] n
    lock_reach.stepped [OF r1 step] show ?case by simp
qed (use assms(1) in simp)

lemma lock_reach_typed:
  assumes "mem_typed db" and "persist_field P" and "lock_reach admits L P V db s"
  shows "mem_typed (cs_db (lk_conc s))"
  using conc_reach_typed [OF lock_reach_conc [OF assms(3,2)] assms(1)] by blast

text \<open>A busy thread that does not ask for a guard can take its next step.\<close>

lemma lock_unblocked_steps:
  assumes "mem_typed db" and "persist_field P" and "lock_reach admits L P V db s"
    and "t \<in> busy s" and "asks (lk_script s t) = None"
  shows "\<exists>s'. lock_step admits L P V t s s'"
proof -
  let ?s = "lk_conc s"
  from local_step_exists [OF lock_reach_typed [OF assms(1-3)] lock_invD(1) [OF lock_reach_inv [OF assms(3,2)]] refl,
      of t L V] assms(4)
  consider a c where "lk_script s t = Acquire a c" | c where "lk_script s t = Release c"
    | r where "lk_script s t = Done" "cs_thread ?s t = Returned r"
    | c s1 where "local_step L P V t (lk_script s t) (cs_thread ?s t) ?s = Some (c, s1)"
    by (auto simp: busy_def)
  then show ?thesis
  proof cases
    case 1
    with assms(5) show ?thesis by simp
  next
    case 2
    from lock_step.release [OF this] show ?thesis by blast
  next
    case 3
    from lock_step.return [OF this] show ?thesis by blast
  next
    case 4
    from lock_step.run [OF this] show ?thesis by blast
  qed
qed

lemma lock_holder_steps:
  assumes "mem_typed db" and "persist_field P" and "lock_reach admits L P V db s" and "lk_holds s t \<noteq> None"
  shows "\<exists>s'. lock_step admits L P V t s s'"
proof -
  note ok = lock_invD(1) [OF lock_reach_inv [OF assms(3,2)], of t]
  from ok assms(4) have "t \<in> busy s" by (auto simp: busy_def)
  moreover have "asks (lk_script s t) = None" by (rule thread_ok_asks [OF ok assms(4)])
  ultimately show ?thesis by (rule lock_unblocked_steps [OF assms(1-3)])
qed

lemma lock_busy_steps:
  assumes "mem_typed db" and "persist_field P" and "grants admits" and "lock_reach admits L P V db s"
    and "busy s \<noteq> {}"
  shows "\<exists>t s'. lock_step admits L P V t s s'"
proof (cases "\<exists>t. lk_holds s t \<noteq> None")
  case True
  with lock_holder_steps [OF assms(1,2,4)] show ?thesis by blast
next
  case False
  then have free: "lk_holds s = (\<lambda>_. None)" by auto
  show ?thesis
  proof (cases "\<exists>t. (asks \<circ> lk_script s) t \<noteq> None")
    case True
    with assms(3) obtain t where t: "(asks \<circ> lk_script s) t \<noteq> None" "admits (\<lambda>_. None) (asks \<circ> lk_script s) t"
      unfolding grants_def by blast
    from t(1) obtain a c where "lk_script s t = Acquire a c" by (cases "lk_script s t") auto
    moreover have "grantable a (lk_holds s)" by (simp add: free grantable_def)
    ultimately show ?thesis using lock_step.acquire [of s t a c admits] t(2) unfolding free by blast
  next
    case False
    from assms(5) obtain t where "t \<in> busy s" by blast
    moreover from False have "asks (lk_script s t) = None" by (metis comp_apply)
    ultimately show ?thesis using lock_unblocked_steps [OF assms(1,2,4)] by blast
  qed
qed

text \<open>
  C18. A shared in-memory database does not deadlock and every call is answered. Over any lock
  that lets somebody in when it is free, and in every reachable state: a thread that holds a guard
  can take its next step, so a guard is never kept by a thread that waits; as long as a call is
  under way some thread can take a step; each step leaves less to do, so that a run in which no
  new call is made has at most \<open>work_left\<close> steps, whatever the scheduler does; and a run that
  cannot go on has answered every call.
\<close>

theorem lock_progress:
  assumes "open_in_memory_with L cfg = Inr db" and "persist_field P" and "grants admits"
    and "lock_reach admits L P V db s"
  shows "(\<forall>t. lk_holds s t \<noteq> None \<longrightarrow> (\<exists>s'. lock_step admits L P V t s s'))
    \<and> (busy s \<noteq> {} \<longrightarrow> (\<exists>t s'. lock_step admits L P V t s s'))
    \<and> (\<forall>n s'. ((\<lambda>a b. \<exists>t. lock_step admits L P V t a b) ^^ n) s s' \<longrightarrow>
          n \<le> work_left s \<and> ((\<forall>t s''. \<not> lock_step admits L P V t s' s'') \<longrightarrow> busy s' = {}))"
proof -
  let ?any = "\<lambda>a b. \<exists>t. lock_step admits L P V t a b"
  from open_in_memory_typed [OF assms(1)] have mem: "mem_typed db" by blast
  have "n \<le> work_left s \<and> ((\<forall>t s''. \<not> lock_step admits L P V t s' s'') \<longrightarrow> busy s' = {})"
    if "(?any ^^ n) s s'" for n s'
  proof -
    from lock_run_bound [OF assms(4,2) that] have "n \<le> work_left s" "lock_reach admits L P V db s'" by simp_all
    with lock_busy_steps [OF mem assms(2,3) this(2)] show ?thesis by blast
  qed
  moreover have "\<exists>s'. lock_step admits L P V t s s'" if "lk_holds s t \<noteq> None" for t
    by (rule lock_holder_steps [OF mem assms(2,4) that])
  ultimately show ?thesis using lock_busy_steps [OF mem assms(2,3,4)] by blast
qed

theorem lock_progress_witness:
  "\<exists>s'. lock_step demo_admits demo_lib demo_files demo_vocab 2 demo_locked s'"
proof -
  have "grants demo_admits" by (simp add: grants_def)
  moreover have "lk_holds demo_locked 2 \<noteq> None" by (simp add: demo_locked_def)
  ultimately show ?thesis using lock_progress [OF demo_mem_open demo_field _ demo_locked_reach] by blast
qed

end
