(* ===== verification/Iqdb_Async.thy ===== *)
theory Iqdb_Async
  imports Iqdb_Calls
begin

text \<open>
  The async adapter (src/async_db.rs): an \<open>Arc\<close> around the handle, and one task on the
  runtime's blocking pool per call. The runtime is a parameter, the function that runs a
  task: given what the closure returned, or \<open>None\<close> if it panicked, it yields what awaiting
  the task yields. A method called and awaited is one task that runs to its end; \<open>async_step\<close>
  interleaves the tasks of all clones of a handle, from the same pieces: the reference a method
  takes for its task, the task, and the reference \<open>close\<close> moves into its own.
\<close>

section \<open>Shared ownership\<close>

record 'd arc =
  arc_value :: 'd
  arc_strong :: nat

definition arc_new :: "'d \<Rightarrow> 'd arc" where
  "arc_new d = \<lparr>arc_value = d, arc_strong = 1\<rparr>"

definition arc_clone :: "'d arc \<Rightarrow> 'd arc" where
  "arc_clone a = a\<lparr>arc_strong := Suc (arc_strong a)\<rparr>"

text \<open>Dropping the last reference drops the value.\<close>

definition arc_drop :: "'d arc \<Rightarrow> 'd arc option" where
  "arc_drop a = (if arc_strong a \<le> 1 then None else Some (a\<lparr>arc_strong := arc_strong a - 1\<rparr>))"

definition arc_try_unwrap :: "'d arc \<Rightarrow> 'd arc + 'd" where
  "arc_try_unwrap a = (if arc_strong a = 1 then Inr (arc_value a) else Inl a)"

section \<open>Tasks\<close>

datatype join_error = Panicked | Cancelled

type_synonym ('r, 'd) spawner = "('r \<times> 'd) option \<Rightarrow> join_error + 'r \<times> 'd"

text \<open>A task of the blocking pool is not cancellable: it fails exactly when it panics.\<close>

definition spawn_law :: "('r, 'd) spawner \<Rightarrow> bool" where
  "spawn_law spawn \<longleftrightarrow> (\<forall>x. spawn (Some x) = Inr x) \<and> spawn None = Inl Panicked"

definition unwrap_join :: "join_error + 'a \<Rightarrow> 'a option" where
  "unwrap_join res = (case res of Inr v \<Rightarrow> Some v | Inl join \<Rightarrow> None)"

section \<open>Handles\<close>

record 'd async_iqdb =
  ai_inner :: "'d arc"

text \<open>The derived \<open>Clone\<close>.\<close>

definition async_clone :: "'d async_iqdb \<Rightarrow> 'd async_iqdb" where
  "async_clone self = \<lparr>ai_inner = arc_clone (ai_inner self)\<rparr>"

text \<open>
  The body of every offloaded method: clone the reference (\<open>task_ref\<close>), run the closure on the
  pool, resolve the join. The closure owns that reference, which is dropped at its end
  (\<open>run_task\<close>); what is left is what the caller's own reference shares.
\<close>

definition task_ref :: "'d async_iqdb \<Rightarrow> 'd arc" where
  "task_ref self = arc_clone (ai_inner self)"

definition run_task :: "('d \<Rightarrow> ('r \<times> 'd) option) \<Rightarrow> 'd arc \<Rightarrow> ('r \<times> 'd arc option) option" where
  "run_task f db = map_option (\<lambda>(r, d). (r, arc_drop (db\<lparr>arc_value := d\<rparr>))) (f (arc_value db))"

type_synonym ('r, 'd) pool_spawner = "('r, 'd arc option) spawner"

definition offload ::
    "('r, 'd) pool_spawner \<Rightarrow> ('d \<Rightarrow> ('r \<times> 'd) option) \<Rightarrow> 'd async_iqdb \<Rightarrow> ('r \<times> 'd async_iqdb) option" where
  "offload spawn f self =
     (let db = task_ref self in
      Option.bind (unwrap_join (spawn (run_task f db))) (\<lambda>(r, left).
        map_option (\<lambda>a. (r, \<lparr>ai_inner = a\<rparr>)) left))"

section \<open>The methods\<close>

definition async_open_in_memory_with ::
    "('fl, 'hn, 'iv, 'cx, 'cc, 'cs, 'm, 'p, 'h, 'z) core_lib \<Rightarrow> 'cc iqdb_config
      \<Rightarrow> error + ('fl, 'hn, 'iv, 'cx, 'cc, 'm, 'ps) database async_iqdb" where
  "async_open_in_memory_with L config =
     and_then (open_in_memory_with L config) (\<lambda>db. Inr \<lparr>ai_inner = arc_new db\<rparr>)"

definition async_open_in_memory ::
    "('fl, 'hn, 'iv, 'cx, 'cc, 'cs, 'm, 'p, 'h, 'z) core_lib \<Rightarrow> usize \<Rightarrow> metric
      \<Rightarrow> error + ('fl, 'hn, 'iv, 'cx, 'cc, 'm, 'ps) database async_iqdb" where
  "async_open_in_memory L d mt =
     and_then (open_in_memory L d mt) (\<lambda>db. Inr \<lparr>ai_inner = arc_new db\<rparr>)"

text \<open>Opening a file runs on the pool; there is no database before it, so its state is \<open>()\<close>.\<close>

definition async_open_with ::
    "(error + ('fl, 'hn, 'iv, 'cx, 'cc, 'm, 'ps) database, unit) spawner
      \<Rightarrow> ('fl, 'hn, 'iv, 'cx, 'cc, 'cs, 'm, 'p, 'h, 'z) core_lib
      \<Rightarrow> ('fl, 'hn, 'iv, 'cx, 'cc, 'm, 'ps, 'pa, 'x, 'fs) persistence
      \<Rightarrow> 'pa \<Rightarrow> 'cc iqdb_config \<Rightarrow> 'fs
      \<Rightarrow> (error + ('fl, 'hn, 'iv, 'cx, 'cc, 'm, 'ps) database async_iqdb) option" where
  "async_open_with spawn L P path config fs =
     map_option (\<lambda>(res, _). and_then res (\<lambda>db. Inr \<lparr>ai_inner = arc_new db\<rparr>))
       (unwrap_join (spawn (map_option (\<lambda>res. (res, ())) (open_with L P path config fs))))"

definition async_open ::
    "(error + ('fl, 'hn, 'iv, 'cx, 'cc, 'm, 'ps) database, unit) spawner
      \<Rightarrow> ('fl, 'hn, 'iv, 'cx, 'cc, 'cs, 'm, 'p, 'h, 'z) core_lib
      \<Rightarrow> ('fl, 'hn, 'iv, 'cx, 'cc, 'm, 'ps, 'pa, 'x, 'fs) persistence
      \<Rightarrow> 'pa \<Rightarrow> usize \<Rightarrow> metric \<Rightarrow> 'fs
      \<Rightarrow> (error + ('fl, 'hn, 'iv, 'cx, 'cc, 'm, 'ps) database async_iqdb) option" where
  "async_open spawn L P path d mt fs =
     map_option (\<lambda>(res, _). and_then res (\<lambda>db. Inr \<lparr>ai_inner = arc_new db\<rparr>))
       (unwrap_join (spawn (map_option (\<lambda>res. (res, ())) (open_path L P path d mt fs))))"

definition async_upsert ::
    "(error + unit, ('fl, 'hn, 'iv, 'cx, 'cc, 'm, 'ps) database) pool_spawner
      \<Rightarrow> ('fl, 'hn, 'iv, 'cx, 'cc, 'cs, 'm, 'p, 'h, 'z) core_lib
      \<Rightarrow> ('fl, 'hn, 'iv, 'cx, 'cc, 'm, 'ps, 'pa, 'x, 'fs) persistence
      \<Rightarrow> vector_id \<Rightarrow> vec \<Rightarrow> 'm option
      \<Rightarrow> ('fl, 'hn, 'iv, 'cx, 'cc, 'm, 'ps) database async_iqdb
      \<Rightarrow> ((error + unit) \<times> ('fl, 'hn, 'iv, 'cx, 'cc, 'm, 'ps) database async_iqdb) option" where
  "async_upsert spawn L P i v m self = offload spawn (db_upsert L P i v m) self"

definition async_get ::
    "(error + (vec \<times> 'm option) option, ('fl, 'hn, 'iv, 'cx, 'cc, 'm, 'ps) database) pool_spawner
      \<Rightarrow> ('fl, 'hn, 'iv, 'cx, 'cc, 'm, 'ps, 'pa, 'x, 'fs) persistence
      \<Rightarrow> ('p, 'flt) vocabulary \<Rightarrow> vector_id
      \<Rightarrow> ('fl, 'hn, 'iv, 'cx, 'cc, 'm, 'ps) database async_iqdb
      \<Rightarrow> ((error + (vec \<times> 'm option) option) \<times> ('fl, 'hn, 'iv, 'cx, 'cc, 'm, 'ps) database async_iqdb) option" where
  "async_get spawn P V i self =
     offload spawn (\<lambda>db. map_option (\<lambda>r. (r, db)) (db_get P V db i)) self"

definition async_delete ::
    "(error + bool, ('fl, 'hn, 'iv, 'cx, 'cc, 'm, 'ps) database) pool_spawner
      \<Rightarrow> ('fl, 'hn, 'iv, 'cx, 'cc, 'cs, 'm, 'p, 'h, 'z) core_lib
      \<Rightarrow> ('fl, 'hn, 'iv, 'cx, 'cc, 'm, 'ps, 'pa, 'x, 'fs) persistence
      \<Rightarrow> vector_id \<Rightarrow> ('fl, 'hn, 'iv, 'cx, 'cc, 'm, 'ps) database async_iqdb
      \<Rightarrow> ((error + bool) \<times> ('fl, 'hn, 'iv, 'cx, 'cc, 'm, 'ps) database async_iqdb) option" where
  "async_delete spawn L P i self = offload spawn (db_delete L P i) self"

definition async_search ::
    "(error + 'h list, ('fl, 'hn, 'iv, 'cx, 'cc, 'm, 'ps) database) pool_spawner
      \<Rightarrow> ('fl, 'hn, 'iv, 'cx, 'cc, 'cs, 'm, 'p, 'h, 'z) core_lib
      \<Rightarrow> ('fl, 'hn, 'iv, 'cx, 'cc, 'm, 'ps, 'pa, 'x, 'fs) persistence
      \<Rightarrow> ('p, 'flt) vocabulary \<Rightarrow> vec \<Rightarrow> usize
      \<Rightarrow> ('fl, 'hn, 'iv, 'cx, 'cc, 'm, 'ps) database async_iqdb
      \<Rightarrow> ((error + 'h list) \<times> ('fl, 'hn, 'iv, 'cx, 'cc, 'm, 'ps) database async_iqdb) option" where
  "async_search spawn L P V q k self =
     offload spawn (\<lambda>db. Some (db_search L P V q k db)) self"

definition async_search_with ::
    "(error + 'h list, ('fl, 'hn, 'iv, 'cx, 'cc, 'm, 'ps) database) pool_spawner
      \<Rightarrow> ('fl, 'hn, 'iv, 'cx, 'cc, 'cs, 'm, 'p, 'h, 'z) core_lib
      \<Rightarrow> ('fl, 'hn, 'iv, 'cx, 'cc, 'm, 'ps, 'pa, 'x, 'fs) persistence
      \<Rightarrow> ('p, 'flt) vocabulary \<Rightarrow> vec \<Rightarrow> usize \<Rightarrow> 'flt
      \<Rightarrow> ('fl, 'hn, 'iv, 'cx, 'cc, 'm, 'ps) database async_iqdb
      \<Rightarrow> ((error + 'h list) \<times> ('fl, 'hn, 'iv, 'cx, 'cc, 'm, 'ps) database async_iqdb) option" where
  "async_search_with spawn L P V q k flt self =
     offload spawn (\<lambda>db. Some (db_search_with L P V q k flt db)) self"

definition async_search_batch ::
    "(error + 'h list list, ('fl, 'hn, 'iv, 'cx, 'cc, 'm, 'ps) database) pool_spawner
      \<Rightarrow> ('fl, 'hn, 'iv, 'cx, 'cc, 'cs, 'm, 'p, 'h, 'z) core_lib
      \<Rightarrow> ('fl, 'hn, 'iv, 'cx, 'cc, 'm, 'ps, 'pa, 'x, 'fs) persistence
      \<Rightarrow> ('p, 'flt) vocabulary \<Rightarrow> vec list \<Rightarrow> usize
      \<Rightarrow> ('fl, 'hn, 'iv, 'cx, 'cc, 'm, 'ps) database async_iqdb
      \<Rightarrow> ((error + 'h list list) \<times> ('fl, 'hn, 'iv, 'cx, 'cc, 'm, 'ps) database async_iqdb) option" where
  "async_search_batch spawn L P V qs k self =
     offload spawn (\<lambda>db. Some (db_search_batch L P V qs k db)) self"

definition async_search_batch_with ::
    "(error + 'h list list, ('fl, 'hn, 'iv, 'cx, 'cc, 'm, 'ps) database) pool_spawner
      \<Rightarrow> ('fl, 'hn, 'iv, 'cx, 'cc, 'cs, 'm, 'p, 'h, 'z) core_lib
      \<Rightarrow> ('fl, 'hn, 'iv, 'cx, 'cc, 'm, 'ps, 'pa, 'x, 'fs) persistence
      \<Rightarrow> ('p, 'flt) vocabulary \<Rightarrow> vec list \<Rightarrow> usize \<Rightarrow> 'flt
      \<Rightarrow> ('fl, 'hn, 'iv, 'cx, 'cc, 'm, 'ps) database async_iqdb
      \<Rightarrow> ((error + 'h list list) \<times> ('fl, 'hn, 'iv, 'cx, 'cc, 'm, 'ps) database async_iqdb) option" where
  "async_search_batch_with spawn L P V qs k flt self =
     offload spawn (\<lambda>db. Some (db_search_batch_with L P V qs k flt db)) self"

definition async_optimize ::
    "(error + unit, ('fl, 'hn, 'iv, 'cx, 'cc, 'm, 'ps) database) pool_spawner
      \<Rightarrow> ('fl, 'hn, 'iv, 'cx, 'cc, 'cs, 'm, 'p, 'h, 'z) core_lib
      \<Rightarrow> ('fl, 'hn, 'iv, 'cx, 'cc, 'm, 'ps, 'pa, 'x, 'fs) persistence
      \<Rightarrow> ('fl, 'hn, 'iv, 'cx, 'cc, 'm, 'ps) database async_iqdb
      \<Rightarrow> ((error + unit) \<times> ('fl, 'hn, 'iv, 'cx, 'cc, 'm, 'ps) database async_iqdb) option" where
  "async_optimize spawn L P self = offload spawn (\<lambda>db. Some (db_optimize L P db)) self"

definition async_flush ::
    "(error + unit, ('fl, 'hn, 'iv, 'cx, 'cc, 'm, 'ps) database) pool_spawner
      \<Rightarrow> ('fl, 'hn, 'iv, 'cx, 'cc, 'm, 'ps, 'pa, 'x, 'fs) persistence
      \<Rightarrow> ('fl, 'hn, 'iv, 'cx, 'cc, 'm, 'ps) database async_iqdb
      \<Rightarrow> ((error + unit) \<times> ('fl, 'hn, 'iv, 'cx, 'cc, 'm, 'ps) database async_iqdb) option" where
  "async_flush spawn P self = offload spawn (\<lambda>db. Some (db_flush P db)) self"

text \<open>
  \<open>close\<close> consumes the handle: its reference moves into the closure (\<open>close_ref\<close>), no other is
  taken, so that the task can find itself the only owner. What is left is the storage that the closed database leaves
  behind (\<open>Inl\<close>), or the reference the other owners still share.
\<close>

definition close_ref :: "'d async_iqdb \<Rightarrow> 'd arc" where
  "close_ref self = ai_inner self"

definition close_task ::
    "('fl, 'hn, 'iv, 'cx, 'cc, 'm, 'ps, 'pa, 'x, 'fs) persistence
      \<Rightarrow> ('fl, 'hn, 'iv, 'cx, 'cc, 'm, 'ps) database arc
      \<Rightarrow> (error + unit) \<times> ((('fl, 'hn, 'iv, 'cx, 'cc, 'm) iqdb_core, 'ps) storage
           + ('fl, 'hn, 'iv, 'cx, 'cc, 'm, 'ps) database arc option)" where
  "close_task P db =
     (case arc_try_unwrap db of
        Inr handle \<Rightarrow> apsnd Inl (db_close P handle)
      | Inl shared \<Rightarrow>
          (case db_flush P (arc_value shared) of
             (r, d) \<Rightarrow> (r, Inr (arc_drop (shared\<lparr>arc_value := d\<rparr>)))))"

definition async_close ::
    "(error + unit, (('fl, 'hn, 'iv, 'cx, 'cc, 'm) iqdb_core, 'ps) storage
           + ('fl, 'hn, 'iv, 'cx, 'cc, 'm, 'ps) database arc option) spawner
      \<Rightarrow> ('fl, 'hn, 'iv, 'cx, 'cc, 'm, 'ps, 'pa, 'x, 'fs) persistence
      \<Rightarrow> ('fl, 'hn, 'iv, 'cx, 'cc, 'm, 'ps) database async_iqdb
      \<Rightarrow> ((error + unit) \<times> ((('fl, 'hn, 'iv, 'cx, 'cc, 'm) iqdb_core, 'ps) storage
           + ('fl, 'hn, 'iv, 'cx, 'cc, 'm, 'ps) database arc option)) option" where
  "async_close spawn P self = unwrap_join (spawn (Some (close_task P (close_ref self))))"

text \<open>The accessors do not leave the caller's thread.\<close>

definition async_dim :: "('co, 'ps) iqdb async_iqdb \<Rightarrow> usize" where
  "async_dim self = iqdb_dim (arc_value (ai_inner self))"

definition async_metric :: "('co, 'ps) iqdb async_iqdb \<Rightarrow> metric" where
  "async_metric self = iqdb_metric (arc_value (ai_inner self))"

definition async_len ::
    "('fl, 'hn, 'iv, 'cx, 'cc, 'm, 'ps, 'pa, 'x, 'fs) persistence
      \<Rightarrow> ('fl, 'hn, 'iv, 'cx, 'cc, 'm, 'ps) database async_iqdb \<Rightarrow> usize" where
  "async_len P self = db_len P (arc_value (ai_inner self))"

definition async_is_empty ::
    "('fl, 'hn, 'iv, 'cx, 'cc, 'm, 'ps, 'pa, 'x, 'fs) persistence
      \<Rightarrow> ('fl, 'hn, 'iv, 'cx, 'cc, 'm, 'ps) database async_iqdb \<Rightarrow> bool" where
  "async_is_empty P self \<longleftrightarrow> db_is_empty P (arc_value (ai_inner self))"

definition async_cache_stats ::
    "('fl, 'hn, 'iv, 'cx, 'cc, 'cs, 'm, 'p, 'h, 'z) core_lib
      \<Rightarrow> ('fl, 'hn, 'iv, 'cx, 'cc, 'm, 'ps, 'pa, 'x, 'fs) persistence
      \<Rightarrow> ('fl, 'hn, 'iv, 'cx, 'cc, 'm, 'ps) database async_iqdb \<Rightarrow> 'cs option" where
  "async_cache_stats L P self = db_cache_stats L P (arc_value (ai_inner self))"

section \<open>What offloading preserves\<close>

lemma unwrap_spawn:
  assumes "spawn_law spawn"
  shows "unwrap_join (spawn r) = r"
proof (cases r)
  case None
  with assms show ?thesis by (simp add: spawn_law_def unwrap_join_def)
next
  case (Some x)
  from assms have "spawn (Some x) = Inr x" unfolding spawn_law_def by blast
  with Some show ?thesis by (simp add: unwrap_join_def)
qed

text \<open>While the caller holds its own reference, the task's comes and goes unnoticed.\<close>

definition with_db :: "'d async_iqdb \<Rightarrow> 'd \<Rightarrow> 'd async_iqdb" where
  "with_db self d = \<lparr>ai_inner = (ai_inner self)\<lparr>arc_value := d\<rparr>\<rparr>"

lemma with_db_same [simp]: "with_db self (arc_value (ai_inner self)) = self"
  by (simp add: with_db_def)

lemma offload_spec:
  assumes "spawn_law spawn" and "0 < arc_strong (ai_inner self)"
  shows "offload spawn f self = map_option (apsnd (with_db self)) (f (arc_value (ai_inner self)))"
  using assms
  by (cases "f (arc_value (ai_inner self))")
    (auto simp: offload_def run_task_def task_ref_def unwrap_spawn arc_clone_def arc_drop_def with_db_def Let_def)

section \<open>Many owners\<close>

text \<open>
  All clones of a handle and all tasks on the pool share one reference-counted database.
  \<open>po_arc\<close> is \<open>None\<close> once it has been closed or dropped.
\<close>

datatype 'op task = Call 'op | Close

record ('co, 'ps, 'op) pool =
  po_arc :: "('co, 'ps) iqdb arc option"
  po_handles :: nat
  po_tasks :: "'op task list"

inductive async_step ::
    "('fl, 'hn, 'iv, 'cx, 'cc, 'cs, 'm, 'p, 'h, 'z) core_lib
      \<Rightarrow> ('fl, 'hn, 'iv, 'cx, 'cc, 'm, 'ps, 'pa, 'x, 'fs) persistence
      \<Rightarrow> ('p, 'flt) vocabulary
      \<Rightarrow> (('fl, 'hn, 'iv, 'cx, 'cc, 'm) iqdb_core, 'ps, ('m, 'flt) db_op) pool
      \<Rightarrow> (('fl, 'hn, 'iv, 'cx, 'cc, 'm) iqdb_core, 'ps, ('m, 'flt) db_op) pool
      \<Rightarrow> bool"
  for L P V s where
  clone: "po_arc s = Some a \<Longrightarrow> 0 < po_handles s \<Longrightarrow>
    async_step L P V s (s\<lparr>po_arc := Some (ai_inner (async_clone \<lparr>ai_inner = a\<rparr>)), po_handles := Suc (po_handles s)\<rparr>)"
| release: "po_arc s = Some a \<Longrightarrow> 0 < po_handles s \<Longrightarrow>
    async_step L P V s (s\<lparr>po_arc := arc_drop a, po_handles := po_handles s - 1\<rparr>)"
| call: "po_arc s = Some a \<Longrightarrow> 0 < po_handles s \<Longrightarrow>
    async_step L P V s (s\<lparr>po_arc := Some (task_ref \<lparr>ai_inner = a\<rparr>), po_tasks := Call op # po_tasks s\<rparr>)"
| run: "po_arc s = Some a \<Longrightarrow> po_tasks s = xs @ Call op # ys \<Longrightarrow>
    run_task (db_exec L P V op) a = Some (r, left) \<Longrightarrow>
    async_step L P V s (s\<lparr>po_arc := left, po_tasks := xs @ ys\<rparr>)"
| close: "po_arc s = Some a \<Longrightarrow> 0 < po_handles s \<Longrightarrow>
    async_step L P V s (s\<lparr>po_arc := Some (close_ref \<lparr>ai_inner = a\<rparr>), po_handles := po_handles s - 1,
      po_tasks := Close # po_tasks s\<rparr>)"
| last_close: "po_arc s = Some a \<Longrightarrow> po_tasks s = xs @ Close # ys \<Longrightarrow>
    close_task P a = (r, Inl storage) \<Longrightarrow>
    async_step L P V s (s\<lparr>po_arc := None, po_tasks := xs @ ys\<rparr>)"
| shared_close: "po_arc s = Some a \<Longrightarrow> po_tasks s = xs @ Close # ys \<Longrightarrow>
    close_task P a = (r, Inr rest) \<Longrightarrow>
    async_step L P V s (s\<lparr>po_arc := rest, po_tasks := xs @ ys\<rparr>)"

inductive async_reach ::
    "('fl, 'hn, 'iv, 'cx, 'cc, 'cs, 'm, 'p, 'h, 'z) core_lib
      \<Rightarrow> ('fl, 'hn, 'iv, 'cx, 'cc, 'm, 'ps, 'pa, 'x, 'fs) persistence
      \<Rightarrow> ('p, 'flt) vocabulary
      \<Rightarrow> ('fl, 'hn, 'iv, 'cx, 'cc, 'm, 'ps) database
      \<Rightarrow> (('fl, 'hn, 'iv, 'cx, 'cc, 'm) iqdb_core, 'ps, ('m, 'flt) db_op) pool
      \<Rightarrow> bool"
  for L P V db where
  opened: "async_reach L P V db \<lparr>po_arc = Some (arc_new db), po_handles = 1, po_tasks = []\<rparr>"
| step: "async_reach L P V db s \<Longrightarrow> async_step L P V s s' \<Longrightarrow> async_reach L P V db s'"

text \<open>Every owner is counted, and the database lives exactly as long as it has one.\<close>

definition counted :: "('co, 'ps, 'op) pool \<Rightarrow> bool" where
  "counted s \<longleftrightarrow>
     (case po_arc s of
        Some a \<Rightarrow> arc_strong a = po_handles s + length (po_tasks s) \<and> 0 < arc_strong a
      | None \<Rightarrow> po_handles s = 0 \<and> po_tasks s = [])"

lemma close_task_cases:
  assumes "close_task P a = (r, rest)" and "0 < arc_strong a"
  obtains (last) storage where "arc_strong a = 1" "rest = Inl storage" "db_close P (arc_value a) = (r, storage)"
    | (shared) d where "1 < arc_strong a" "db_flush P (arc_value a) = (r, d)"
        "rest = Inr (Some (a\<lparr>arc_value := d, arc_strong := arc_strong a - 1\<rparr>))"
  using assms
  by (cases "arc_strong a = 1") (auto simp: close_task_def arc_try_unwrap_def arc_drop_def apsnd_eq split: prod.splits)

lemma counted_step:
  assumes "async_step L P V s s'" and inv: "counted s"
  shows "counted s'"
  using assms(1)
proof (cases rule: async_step.cases)
  case (last_close a xs ys r storage)
  with inv have pos: "0 < arc_strong a" by (simp add: counted_def)
  from last_close(4) pos show ?thesis
  proof (cases rule: close_task_cases)
    case last
    with last_close inv show ?thesis by (simp add: counted_def)
  qed simp
next
  case (shared_close a xs ys r rest)
  with inv have pos: "0 < arc_strong a" by (simp add: counted_def)
  from shared_close(4) pos show ?thesis
  proof (cases rule: close_task_cases)
    case (shared d)
    with shared_close inv show ?thesis by (simp add: counted_def)
  qed simp
next
  case (release a)
  with inv show ?thesis by (cases "po_tasks s") (auto simp: counted_def arc_drop_def)
qed (use inv in \<open>auto simp: counted_def async_clone_def task_ref_def close_ref_def run_task_def arc_clone_def
  arc_drop_def\<close>)

lemma async_reach_counted: "async_reach L P V db s \<Longrightarrow> counted s"
proof (induction rule: async_reach.induct)
  case opened
  show ?case by (simp add: counted_def arc_new_def)
next
  case (step s s')
  then show ?case by (blast intro: counted_step)
qed

text \<open>Both ways of closing end with the same checkpoint.\<close>

lemma close_checkpoints:
  assumes "close_task P a = (r, rest)" and "0 < arc_strong a"
  shows "\<exists>storage. storage_checkpoint P (lk_value (db_inner (arc_value a))) = (r, storage)
    \<and> (rest = Inl storage \<and> arc_strong a = 1
       \<or> (\<exists>b. rest = Inr (Some b) \<and> lk_value (db_inner (arc_value b)) = storage
            \<and> arc_strong b = arc_strong a - 1 \<and> 1 < arc_strong a))"
  using assms
  by (cases rule: close_task_cases) (auto simp: db_close_def db_flush_def db_write_eq apsnd_eq)

section \<open>Sessions\<close>

text \<open>The methods of a handle as data: those that run on the pool, and the accessors that do not.\<close>

datatype ('m, 'flt) session_call =
    DoUpsert vector_id vec "'m option"
  | DoGet vector_id
  | DoDelete vector_id
  | DoSearch vec usize
  | DoSearchWith vec usize 'flt
  | DoBatch "vec list" usize
  | DoBatchWith "vec list" usize 'flt
  | DoOptimize
  | DoFlush
  | AskDim
  | AskMetric
  | AskLen
  | AskEmpty
  | AskStats

datatype ('m, 'h, 'cs) session_out =
    GotUnit "error + unit"
  | GotRow "error + (vec \<times> 'm option) option"
  | GotBool "error + bool"
  | GotHits "error + 'h list"
  | GotLists "error + 'h list list"
  | IsNumber usize
  | IsMetric metric
  | IsEmpty bool
  | IsStats "'cs option"

text \<open>The blocking pool, at each type of result.\<close>

record ('m, 'h, 'd, 'st) blocking_pool =
  bp_unit :: "(error + unit, 'd) pool_spawner"
  bp_row :: "(error + (vec \<times> 'm option) option, 'd) pool_spawner"
  bp_bool :: "(error + bool, 'd) pool_spawner"
  bp_hits :: "(error + 'h list, 'd) pool_spawner"
  bp_lists :: "(error + 'h list list, 'd) pool_spawner"
  bp_close :: "(error + unit, 'st + 'd arc option) spawner"
  bp_open :: "(error + 'd, unit) spawner"

definition pool_law :: "('m, 'h, 'd, 'st) blocking_pool \<Rightarrow> bool" where
  "pool_law T \<longleftrightarrow> spawn_law (bp_unit T) \<and> spawn_law (bp_row T) \<and> spawn_law (bp_bool T) \<and> spawn_law (bp_hits T)
     \<and> spawn_law (bp_lists T) \<and> spawn_law (bp_close T) \<and> spawn_law (bp_open T)"

type_synonym ('fl, 'hn, 'iv, 'cx, 'cc, 'm, 'ps, 'h) tokio =
  "('m, 'h, ('fl, 'hn, 'iv, 'cx, 'cc, 'm, 'ps) database, (('fl, 'hn, 'iv, 'cx, 'cc, 'm) iqdb_core, 'ps) storage)
     blocking_pool"

text \<open>The same call on an \<open>Iqdb\<close> and on an \<open>AsyncIqdb\<close>.\<close>

fun sync_call ::
    "('fl, 'hn, 'iv, 'cx, 'cc, 'cs, 'm, 'p, 'h, 'z) core_lib
      \<Rightarrow> ('fl, 'hn, 'iv, 'cx, 'cc, 'm, 'ps, 'pa, 'x, 'fs) persistence
      \<Rightarrow> ('p, 'flt) vocabulary \<Rightarrow> ('m, 'flt) session_call
      \<Rightarrow> ('fl, 'hn, 'iv, 'cx, 'cc, 'm, 'ps) database
      \<Rightarrow> (('m, 'h, 'cs) session_out \<times> ('fl, 'hn, 'iv, 'cx, 'cc, 'm, 'ps) database) option" where
  "sync_call L P V (DoUpsert i v m) db = map_option (apfst GotUnit) (db_upsert L P i v m db)"
| "sync_call L P V (DoGet i) db = map_option (\<lambda>r. (GotRow r, db)) (db_get P V db i)"
| "sync_call L P V (DoDelete i) db = map_option (apfst GotBool) (db_delete L P i db)"
| "sync_call L P V (DoSearch q k) db = Some (apfst GotHits (db_search L P V q k db))"
| "sync_call L P V (DoSearchWith q k flt) db = Some (apfst GotHits (db_search_with L P V q k flt db))"
| "sync_call L P V (DoBatch qs k) db = Some (apfst GotLists (db_search_batch L P V qs k db))"
| "sync_call L P V (DoBatchWith qs k flt) db = Some (apfst GotLists (db_search_batch_with L P V qs k flt db))"
| "sync_call L P V DoOptimize db = Some (apfst GotUnit (db_optimize L P db))"
| "sync_call L P V DoFlush db = Some (apfst GotUnit (db_flush P db))"
| "sync_call L P V AskDim db = Some (IsNumber (iqdb_dim db), db)"
| "sync_call L P V AskMetric db = Some (IsMetric (iqdb_metric db), db)"
| "sync_call L P V AskLen db = Some (IsNumber (db_len P db), db)"
| "sync_call L P V AskEmpty db = Some (IsEmpty (db_is_empty P db), db)"
| "sync_call L P V AskStats db = Some (IsStats (db_cache_stats L P db), db)"

fun async_call ::
    "('fl, 'hn, 'iv, 'cx, 'cc, 'm, 'ps, 'h) tokio
      \<Rightarrow> ('fl, 'hn, 'iv, 'cx, 'cc, 'cs, 'm, 'p, 'h, 'z) core_lib
      \<Rightarrow> ('fl, 'hn, 'iv, 'cx, 'cc, 'm, 'ps, 'pa, 'x, 'fs) persistence
      \<Rightarrow> ('p, 'flt) vocabulary \<Rightarrow> ('m, 'flt) session_call
      \<Rightarrow> ('fl, 'hn, 'iv, 'cx, 'cc, 'm, 'ps) database async_iqdb
      \<Rightarrow> (('m, 'h, 'cs) session_out \<times> ('fl, 'hn, 'iv, 'cx, 'cc, 'm, 'ps) database async_iqdb) option" where
  "async_call T L P V (DoUpsert i v m) self = map_option (apfst GotUnit) (async_upsert (bp_unit T) L P i v m self)"
| "async_call T L P V (DoGet i) self = map_option (apfst GotRow) (async_get (bp_row T) P V i self)"
| "async_call T L P V (DoDelete i) self = map_option (apfst GotBool) (async_delete (bp_bool T) L P i self)"
| "async_call T L P V (DoSearch q k) self = map_option (apfst GotHits) (async_search (bp_hits T) L P V q k self)"
| "async_call T L P V (DoSearchWith q k flt) self =
     map_option (apfst GotHits) (async_search_with (bp_hits T) L P V q k flt self)"
| "async_call T L P V (DoBatch qs k) self =
     map_option (apfst GotLists) (async_search_batch (bp_lists T) L P V qs k self)"
| "async_call T L P V (DoBatchWith qs k flt) self =
     map_option (apfst GotLists) (async_search_batch_with (bp_lists T) L P V qs k flt self)"
| "async_call T L P V DoOptimize self = map_option (apfst GotUnit) (async_optimize (bp_unit T) L P self)"
| "async_call T L P V DoFlush self = map_option (apfst GotUnit) (async_flush (bp_unit T) P self)"
| "async_call T L P V AskDim self = Some (IsNumber (async_dim self), self)"
| "async_call T L P V AskMetric self = Some (IsMetric (async_metric self), self)"
| "async_call T L P V AskLen self = Some (IsNumber (async_len P self), self)"
| "async_call T L P V AskEmpty self = Some (IsEmpty (async_is_empty P self), self)"
| "async_call T L P V AskStats self = Some (IsStats (async_cache_stats L P self), self)"

text \<open>A sequence of calls, stopping at a panic.\<close>

fun run_calls :: "('c \<Rightarrow> 'd \<Rightarrow> ('r \<times> 'd) option) \<Rightarrow> 'c list \<Rightarrow> 'd \<Rightarrow> ('r list \<times> 'd) option" where
  "run_calls f [] d = Some ([], d)"
| "run_calls f (c # cs) d =
     Option.bind (f c d) (\<lambda>(r, d'). map_option (apfst ((#) r)) (run_calls f cs d'))"

text \<open>
  A session on a handle with \<open>n\<close> further clones alive: calls, then \<open>close\<close>. And what it should
  come to: the same calls on the \<open>Iqdb\<close>, then its \<open>close\<close> if there are no clones, or its \<open>flush\<close>,
  with the clones sharing the database it leaves.
\<close>

definition async_session ::
    "('fl, 'hn, 'iv, 'cx, 'cc, 'm, 'ps, 'h) tokio
      \<Rightarrow> ('fl, 'hn, 'iv, 'cx, 'cc, 'cs, 'm, 'p, 'h, 'z) core_lib
      \<Rightarrow> ('fl, 'hn, 'iv, 'cx, 'cc, 'm, 'ps, 'pa, 'x, 'fs) persistence
      \<Rightarrow> ('p, 'flt) vocabulary \<Rightarrow> nat \<Rightarrow> ('m, 'flt) session_call list
      \<Rightarrow> ('fl, 'hn, 'iv, 'cx, 'cc, 'm, 'ps) database async_iqdb
      \<Rightarrow> (('m, 'h, 'cs) session_out list \<times> (error + unit) \<times> ((('fl, 'hn, 'iv, 'cx, 'cc, 'm) iqdb_core, 'ps) storage
           + ('fl, 'hn, 'iv, 'cx, 'cc, 'm, 'ps) database arc option)) option" where
  "async_session T L P V n calls self =
     Option.bind (run_calls (async_call T L P V) calls ((async_clone ^^ n) self)) (\<lambda>(rs, self').
       map_option (Pair rs) (async_close (bp_close T) P self'))"

definition sync_session ::
    "('fl, 'hn, 'iv, 'cx, 'cc, 'cs, 'm, 'p, 'h, 'z) core_lib
      \<Rightarrow> ('fl, 'hn, 'iv, 'cx, 'cc, 'm, 'ps, 'pa, 'x, 'fs) persistence
      \<Rightarrow> ('p, 'flt) vocabulary \<Rightarrow> nat \<Rightarrow> ('m, 'flt) session_call list
      \<Rightarrow> ('fl, 'hn, 'iv, 'cx, 'cc, 'm, 'ps) database
      \<Rightarrow> (('m, 'h, 'cs) session_out list \<times> (error + unit) \<times> ((('fl, 'hn, 'iv, 'cx, 'cc, 'm) iqdb_core, 'ps) storage
           + ('fl, 'hn, 'iv, 'cx, 'cc, 'm, 'ps) database arc option)) option" where
  "sync_session L P V n calls db =
     map_option (\<lambda>(rs, db'). (rs,
         if n = 0 then apsnd Inl (db_close P db')
         else apsnd (\<lambda>d. Inr (Some \<lparr>arc_value = d, arc_strong = n\<rparr>)) (db_flush P db')))
       (run_calls (sync_call L P V) calls db)"

text \<open>A handle that shares \<open>db\<close> with \<open>n\<close> other owners.\<close>

definition owned :: "nat \<Rightarrow> 'd \<Rightarrow> 'd async_iqdb" where
  "owned n db = \<lparr>ai_inner = \<lparr>arc_value = db, arc_strong = Suc n\<rparr>\<rparr>"

lemma owned_clones: "(async_clone ^^ n) \<lparr>ai_inner = arc_new db\<rparr> = owned n db"
  by (induction n) (simp_all add: owned_def arc_new_def async_clone_def arc_clone_def)

lemma offload_owned:
  assumes "spawn_law spawn"
  shows "offload spawn f (owned n db) = map_option (apsnd (owned n)) (f db)"
proof -
  have "with_db (owned n db) = owned n" by (rule ext) (simp add: with_db_def owned_def)
  with offload_spec [OF assms, of "owned n db" f] show ?thesis by (simp add: owned_def)
qed

lemma async_call_owned:
  assumes "pool_law T"
  shows "async_call T L P V call (owned n db) = map_option (apsnd (owned n)) (sync_call L P V call db)"
proof -
  note pool = assms [unfolded pool_law_def]
  note methods = async_upsert_def async_get_def async_delete_def async_search_def async_search_with_def
    async_search_batch_def async_search_batch_with_def async_optimize_def async_flush_def
  have here: "arc_value (ai_inner (owned n db)) = db" by (simp add: owned_def)
  show ?thesis
    by (cases call) (use pool in \<open>simp_all add: methods offload_owned here async_dim_def async_metric_def async_len_def
        async_is_empty_def async_cache_stats_def option.map_comp comp_def apfst_def apsnd_def prod.map_comp\<close>)
qed

lemma run_calls_owned:
  assumes "pool_law T"
  shows "run_calls (async_call T L P V) calls (owned n db)
    = map_option (apsnd (owned n)) (run_calls (sync_call L P V) calls db)"
proof (induction calls arbitrary: db)
  case (Cons c calls)
  show ?case
  proof (cases "sync_call L P V c db")
    case (Some x)
    with Cons.IH [of "snd x"] async_call_owned [OF assms, of L P V c n db] show ?thesis
      by (cases x) (simp add: option.map_comp comp_def apfst_def apsnd_def prod.map_comp)
  qed (simp add: async_call_owned [OF assms])
qed simp

lemma close_owned:
  assumes "spawn_law spawn"
  shows "async_close spawn P (owned n db)
    = Some (if n = 0 then apsnd Inl (db_close P db)
        else apsnd (\<lambda>d. Inr (Some \<lparr>arc_value = d, arc_strong = n\<rparr>)) (db_flush P db))"
  by (simp add: async_close_def unwrap_spawn [OF assms] close_task_def close_ref_def owned_def arc_try_unwrap_def
      arc_drop_def apsnd_def map_prod_def split: prod.split)

end
