(* ===== verification/Iqdb_Async_Props.thy ===== *)
theory Iqdb_Async_Props
  imports Iqdb_Async Iqdb_Handle_Props
begin

text \<open>
  The properties of the async adapter: a session on it is one on the handle, and closing always
  checkpoints. The witnesses use a pool that runs each task at once.
\<close>

definition direct_spawn :: "('r, 'd) spawner" where
  "direct_spawn r = (case r of Some x \<Rightarrow> Inr x | None \<Rightarrow> Inl Panicked)"

lemma direct_spawn_law: "spawn_law direct_spawn"
  by (simp add: spawn_law_def direct_spawn_def)

section \<open>Sessions\<close>

text \<open>
  C26. An \<open>AsyncIqdb\<close> is an \<open>Iqdb\<close>. Over a pool whose tasks return what their closures return,
  each of the four constructors opens what the \<open>Iqdb\<close> constructor opens, with one owner, or
  fails as it does. A session on what was opened, any sequence of calls of any of its methods
  and accessors with any number of further clones alive, ended by \<open>close\<close>, gives exactly the
  results of the same calls on the \<open>Iqdb\<close>, panics included. And \<open>close\<close> gives the result of
  \<open>Iqdb::close\<close> and leaves the storage it leaves if there are no clones: no call has left a
  reference behind. With \<open>n\<close> clones it gives the result of \<open>Iqdb::flush\<close> and leaves the database
  to them, with \<open>n\<close> references.
\<close>

theorem async_session_refines:
  assumes "pool_law T"
  shows "async_open_in_memory_with L cfg = map_sum (\<lambda>e. e) (owned 0) (open_in_memory_with L cfg)
    \<and> async_open_in_memory L d mt = map_sum (\<lambda>e. e) (owned 0) (open_in_memory L d mt)
    \<and> async_open_with (bp_open T) L P path cfg fs
      = map_option (map_sum (\<lambda>e. e) (owned 0)) (open_with L P path cfg fs)
    \<and> async_open (bp_open T) L P path d mt fs
      = map_option (map_sum (\<lambda>e. e) (owned 0)) (open_path L P path d mt fs)
    \<and> async_session T L P V n calls (owned 0 db) = sync_session L P V n calls db"
proof -
  have open_law: "spawn_law (bp_open T)" and close_law: "spawn_law (bp_close T)"
    using assms by (simp_all add: pool_law_def)
  have new: "and_then r (\<lambda>db. Inr \<lparr>ai_inner = arc_new db\<rparr>) = map_sum (\<lambda>e. e) (owned 0) r" for r
    by (cases r) (simp_all add: owned_def arc_new_def)
  have one: "owned 0 db = \<lparr>ai_inner = arc_new db\<rparr>" by (simp add: owned_def arc_new_def)
  have "async_session T L P V n calls (owned 0 db) = sync_session L P V n calls db"
    unfolding async_session_def one owned_clones run_calls_owned [OF assms] sync_session_def
    by (cases "run_calls (sync_call L P V) calls db") (auto simp: close_owned [OF close_law])
  then show ?thesis
    by (simp add: async_open_in_memory_with_def async_open_in_memory_def async_open_with_def async_open_def
        new unwrap_spawn [OF open_law] option.map_comp comp_def)
qed

definition direct_pool :: "('m, 'h, 'd, 'st) blocking_pool" where
  "direct_pool = \<lparr>bp_unit = direct_spawn, bp_row = direct_spawn, bp_bool = direct_spawn, bp_hits = direct_spawn,
     bp_lists = direct_spawn, bp_close = direct_spawn, bp_open = direct_spawn\<rparr>"

text \<open>A call, then a close with no clone left: the storage is closed.\<close>

theorem async_session_refines_witness:
  "\<exists>storage. async_session direct_pool demo_lib demo_files demo_vocab 0 [AskLen] (owned 0 (demo_mem demo_ivf))
     = Some ([IsNumber 0], Inr (), Inl storage)"
proof -
  have "pool_law direct_pool" by (simp add: pool_law_def direct_pool_def direct_spawn_law)
  from async_session_refines [OF this, where L = demo_lib and P = demo_files and V = demo_vocab and n = 0
      and calls = "[AskLen]" and db = "demo_mem demo_ivf"]
  have same: "async_session direct_pool demo_lib demo_files demo_vocab 0 [AskLen] (owned 0 (demo_mem demo_ivf))
      = sync_session demo_lib demo_files demo_vocab 0 [AskLen] (demo_mem demo_ivf)" by blast
  have "in_memory (demo_mem demo_ivf)" "db_contents demo_files (demo_mem demo_ivf) = Map.empty"
    using open_in_memory_core [OF demo_mem_open] by blast+
  with mem.count_ok [OF this(1), of demo_files] have "db_len demo_files (demo_mem demo_ivf) = 0" by simp
  then have "sync_session demo_lib demo_files demo_vocab 0 [AskLen] (demo_mem demo_ivf)
      = Some ([IsNumber 0], Inr (), Inl (lk_value (db_inner (demo_mem demo_ivf))))"
    by (simp add: sync_session_def db_close_def) (simp add: demo_mem_def rwlock_new_def)
  with same show ?thesis by metis
qed

section \<open>Closing\<close>

abbreviation demo_pool :: "(demo_core, (demo_core, demo_meta) file_ps, (demo_meta, unit) db_op) pool" where
  "demo_pool \<equiv> \<lparr>po_arc = Some (arc_clone (arc_new (demo_mem demo_ivf))), po_handles = 0,
     po_tasks = [Close, Call OLen]\<rparr>"

lemma demo_pool_reach: "async_reach demo_lib demo_files demo_vocab (demo_mem demo_ivf) demo_pool"
proof -
  let ?a = "arc_new (demo_mem demo_ivf)"
  have "async_reach demo_lib demo_files demo_vocab (demo_mem demo_ivf)
      \<lparr>po_arc = Some ?a, po_handles = 1, po_tasks = []\<rparr>" by (rule async_reach.opened)
  from async_reach.step [OF this async_step.call [where op = OLen], unfolded task_ref_def]
  have "async_reach demo_lib demo_files demo_vocab (demo_mem demo_ivf)
      \<lparr>po_arc = Some (arc_clone ?a), po_handles = 1, po_tasks = [Call OLen]\<rparr>" by simp
  from async_reach.step [OF this async_step.close] show ?thesis by (simp add: close_ref_def)
qed

text \<open>
  C24. Whichever way \<open>close\<close> goes, the storage is checkpointed and the caller gets the
  checkpoint's result. It takes the database down exactly when no other handle lives and no
  other task is unfinished; else the database stays with the other owners.
\<close>

theorem async_close_outcome:
  assumes "async_reach L P V db s" and "po_arc s = Some a" and "po_tasks s = xs @ Close # ys"
    and "close_task P a = (r, rest)"
  shows "\<exists>storage. storage_checkpoint P (lk_value (db_inner (arc_value a))) = (r, storage)
    \<and> (if po_handles s = 0 \<and> xs = [] \<and> ys = [] then rest = Inl storage
       else \<exists>b. rest = Inr (Some b) \<and> lk_value (db_inner (arc_value b)) = storage
          \<and> arc_strong b = po_handles s + length (xs @ ys))"
proof -
  from async_reach_counted [OF assms(1)] assms(2,3)
  have count: "arc_strong a = po_handles s + Suc (length xs + length ys)" by (simp add: counted_def)
  then have "0 < arc_strong a" by simp
  from close_checkpoints [OF assms(4) this] count show ?thesis by auto
qed

theorem async_close_outcome_witness:
  "\<exists>b. close_task demo_files (arc_clone (arc_new (demo_mem demo_ivf))) = (Inr (), Inr (Some b)) \<and> arc_strong b = 1"
proof -
  obtain r rest where run: "close_task demo_files (arc_clone (arc_new (demo_mem demo_ivf))) = (r, rest)" by fastforce
  have tasks: "po_tasks demo_pool = [] @ Close # [Call OLen]" by simp
  have arc: "po_arc demo_pool = Some (arc_clone (arc_new (demo_mem demo_ivf)))" by simp
  from async_close_outcome [OF demo_pool_reach arc tasks run] run show ?thesis
    by (auto simp: arc_clone_def arc_new_def demo_mem_def rwlock_new_def)
qed

end
