(* ===== verification/Iqdb_Tests.thy ===== *)
theory Iqdb_Tests
  imports Iqdb_Codec_Props Iqdb_Config Iqdb_Error
begin

text \<open>
  The crate's own unit and property tests of the store, the configuration, the error type and
  the codec (the \<open>tests\<close> modules of store.rs, config.rs, error.rs and codec.rs), run on the
  model. A test is a computation that ends in \<open>None\<close> where the code would panic, in an
  assertion, an \<open>unwrap\<close> or below; a property test takes its random inputs as arguments and
  passes for all of them. What the tests build with code of other crates (the default index
  configurations, the metadata map) is an argument too, so they pass for any such code.
\<close>

section \<open>Assertions\<close>

definition check :: "bool \<Rightarrow> unit option" where
  "check b = (if b then Some () else None)"

definition unwrap :: "'e + 'a \<Rightarrow> 'a option" where
  "unwrap r = (case r of Inl e \<Rightarrow> None | Inr x \<Rightarrow> Some x)"

definition unwrap_err :: "'e + 'a \<Rightarrow> 'e option" where
  "unwrap_err r = (case r of Inl e \<Rightarrow> Some e | Inr x \<Rightarrow> None)"

lemma check_True [simp]: "check True = Some ()"
  by (simp add: check_def)

lemma unwrap_simps [simp]:
  "unwrap (Inr x) = Some x" "unwrap_err (Inl e) = Some e"
  by (simp_all add: unwrap_def unwrap_err_def)

text \<open>The floating-point literals of the tests, as bit patterns.\<close>

definition f32_1 :: f32 where "f32_1 = 0x3F800000"
definition f32_2 :: f32 where "f32_2 = 0x40000000"
definition f32_3 :: f32 where "f32_3 = 0x40400000"
definition f32_4 :: f32 where "f32_4 = 0x40800000"
definition f32_5 :: f32 where "f32_5 = 0x40A00000"
definition f64_half :: f64 where "f64_half = 0x3FE0000000000000"

section \<open>The row store\<close>

definition test_upsert_replace :: "'m row_store option" where
  "test_upsert_replace = do {
     (newly, s) \<leftarrow> store_upsert store_new (U64 1) [f32_1, 0] None;
     check newly;
     (newly, s) \<leftarrow> store_upsert s (U64 2) [0, f32_1] None;
     check newly;
     check (store_len s = 2);
     (newly, s) \<leftarrow> store_upsert s (U64 1) [f32_2, f32_2] None;
     check (\<not> newly);
     check (store_len s = 2);
     check (map row_id (store_iter s) = [U64 1, U64 2]);
     got \<leftarrow> store_get s (U64 1);
     row \<leftarrow> got;
     check (row_vector row = [f32_2, f32_2]);
     Some s
   }"

definition test_remove_repairs :: "'m row_store option" where
  "test_remove_repairs = do {
     (newly, s) \<leftarrow> store_upsert store_new (U64 1) [f32_1] None;
     check newly;
     (newly, s) \<leftarrow> store_upsert s (U64 2) [f32_2] None;
     check newly;
     (newly, s) \<leftarrow> store_upsert s (U64 3) [f32_3] None;
     check newly;
     (existed, s) \<leftarrow> store_remove s (U64 2);
     check existed;
     (existed, s) \<leftarrow> store_remove s (U64 2);
     check (\<not> existed);
     check (store_len s = 2);
     got \<leftarrow> store_get s (U64 3);
     row \<leftarrow> got;
     check (row_vector row = [f32_3]);
     check (\<not> store_contains s (U64 2));
     Some s
   }"

definition test_get_absent :: "'m row_store option" where
  "test_get_absent = do {
     let s = store_new;
     got \<leftarrow> store_get s (U64 9);
     check (got = None);
     check (store_is_empty s);
     Some s
   }"

lemmas store_defs =
  store_new_def store_upsert_def store_remove_def store_get_def store_contains_def
  store_len_def store_is_empty_def vec_index_def vec_set_def vec_swap_remove_def

lemma test_upsert_replace_passes: "test_upsert_replace \<noteq> None"
  by (simp add: test_upsert_replace_def store_defs)

lemma test_remove_repairs_passes: "test_remove_repairs \<noteq> None"
  by (simp add: test_remove_repairs_def store_defs)

lemma test_get_absent_passes: "test_get_absent \<noteq> None"
  by (simp add: test_get_absent_def store_defs)

section \<open>The configuration\<close>

definition is_ivf_kind :: "index_kind \<Rightarrow> bool" where
  "is_ivf_kind k = (case k of Ivf _ \<Rightarrow> True | Flat \<Rightarrow> False | Hnsw _ \<Rightarrow> False)"

definition test_default_kind :: "unit option" where
  "test_default_kind = do {
     check (default_kind = Flat);
     check (kind_tag Flat = 0)
   }"

definition test_kind_tags :: "hnsw_config \<Rightarrow> ivf_config \<Rightarrow> unit option" where
  "test_kind_tags hnsw ivf = do {
     check (kind_tag (Hnsw hnsw) = 1);
     check (kind_tag (Ivf ivf) = 2)
   }"

definition test_fluent_builder :: "ivf_config \<Rightarrow> 'cc \<Rightarrow> unit option" where
  "test_fluent_builder ivf cache = do {
     let cfg = config_cache cache (config_index (Ivf ivf) (config_new 8 Cosine));
     check (config_dim cfg = 8);
     check (config_metric cfg = Cosine);
     check (config_is_cached cfg);
     check (is_ivf_kind (config_index_kind cfg))
   }"

definition test_config_defaults :: "'cc iqdb_config option" where
  "test_config_defaults = do {
     let cfg = config_new 4 Euclidean;
     check (\<not> config_is_cached cfg);
     check (config_index_kind cfg = Flat);
     let (d, mt, core, durability) = config_into_parts cfg;
     check (d = 4);
     check (mt = Euclidean);
     check (cc_cache core = None);
     check (du_fsync durability = Always);
     check (du_compression durability = NoCompression);
     Some cfg
   }"

definition test_durability_knobs :: "'cc iqdb_config option" where
  "test_durability_knobs = do {
     let cfg = config_compression Lz4 (config_fsync Never (config_new 4 Cosine));
     let (_, _, _, durability) = config_into_parts cfg;
     check (du_fsync durability = Never);
     check (du_compression durability = Lz4);
     Some cfg
   }"

lemma config_tests_pass:
  "test_default_kind \<noteq> None" "test_kind_tags hnsw ivf \<noteq> None" "test_fluent_builder ivf cache \<noteq> None"
  "test_config_defaults \<noteq> None" "test_durability_knobs \<noteq> None"
  by (simp_all add: test_default_kind_def test_kind_tags_def test_fluent_builder_def
      test_config_defaults_def test_durability_knobs_def config_defs is_ivf_kind_def)

section \<open>The error type\<close>

definition test_error_conversions :: "persist_error \<Rightarrow> unit option" where
  "test_error_conversions unsupported = do {
     check (from_iqdb NotFound = Index NotFound);
     check (from_persist unsupported = Persist unsupported)
   }"

definition test_error_display ::
    "(iqdb_error \<Rightarrow> string) \<Rightarrow> (persist_error \<Rightarrow> string) \<Rightarrow> unit option" where
  "test_error_display fi fp = do {
     check (error_display fi fp (Index (DimensionMismatch 3 2))
              = ''vector dimension mismatch: expected 3, found 2'');
     check (error_display fi fp (Config ''dim must be greater than zero'')
              = ''invalid configuration: dim must be greater than zero'')
   }"

definition test_error_source :: "unit option" where
  "test_error_source = do {
     check (error_source (Index NotFound) \<noteq> None);
     check (error_source (Config ''x'') = None)
   }"

lemma error_tests_pass: "test_error_conversions unsupported \<noteq> None" "test_error_source \<noteq> None"
  by (simp_all add: test_error_conversions_def test_error_source_def from_iqdb_def from_persist_def)

text \<open>How an index error prints is another crate's, and the test quotes it.\<close>

lemma error_display_test_passes:
  assumes "fi (DimensionMismatch 3 2) = ''vector dimension mismatch: expected 3, found 2''"
  shows "test_error_display fi fp \<noteq> None"
  by (simp add: test_error_display_def assms)

section \<open>The codec\<close>

definition round_trip ::
    "'m meta_lib \<Rightarrow> target \<Rightarrow> index_kind \<Rightarrow> usize \<Rightarrow> metric \<Rightarrow> 'm row_store \<Rightarrow> 'm decoded option" where
  "round_trip ml t k d mt store = do {
     let (res, w) = encode ml k d mt store buffer;
     unwrap res;
     (decoded, rest) \<leftarrow> unwrap (decode ml t (wr_out w));
     Some decoded
   }"

definition test_empty_store :: "'m meta_lib \<Rightarrow> target \<Rightarrow> 'm decoded option" where
  "test_empty_store ml t = do {
     let store = store_new;
     d \<leftarrow> round_trip ml t Flat 4 Cosine store;
     check (de_dim d = 4);
     check (de_metric d = Cosine);
     check (de_kind d = Flat);
     check (de_rows d = []);
     Some d
   }"

definition test_kinds_round_trip ::
    "'m meta_lib \<Rightarrow> target \<Rightarrow> hnsw_config \<Rightarrow> ivf_config \<Rightarrow> 'm decoded option" where
  "test_kinds_round_trip ml t hnsw_config ivf_config = do {
     let store = store_new;
     let hnsw = Hnsw hnsw_config;
     d \<leftarrow> round_trip ml t hnsw 8 Euclidean store;
     check (de_kind d = hnsw);
     let ivf = Ivf ivf_config;
     d \<leftarrow> round_trip ml t ivf 8 Euclidean store;
     check (de_kind d = ivf);
     Some d
   }"

text \<open>String literals.\<close>

definition lit :: "string \<Rightarrow> rstring" where
  "lit s = Abs_rstring (map of_char s)"

definition test_metadata :: "'m meta_lib \<Rightarrow> target \<Rightarrow> 'm decoded option" where
  "test_metadata ml t = do {
     let meta = meta_collect ml
       [(lit ''title'', VString (lit ''intro'')), (lit ''year'', VInt 2026),
        (lit ''score'', VFloat f64_half), (lit ''ok'', VBool True), (lit ''nil'', VNull)];
     let bytes_id = Bytes [0xDE, 0xAD, 0xBE, 0xEF];
     (newly, store) \<leftarrow> store_upsert store_new bytes_id [f32_1, f32_2, f32_3] (Some meta);
     check newly;
     d \<leftarrow> round_trip ml t Flat 3 Cosine store;
     check (length (de_rows d) = 1);
     row \<leftarrow> vec_index (de_rows d) 0;
     check (row_id row = bytes_id);
     check (row_vector row = [f32_1, f32_2, f32_3]);
     check (row_meta row = Some meta);
     Some d
   }"

definition is_invalid_payload :: "persist_error \<Rightarrow> bool" where
  "is_invalid_payload e = (case e of InvalidPayload _ \<Rightarrow> True | _ \<Rightarrow> False)"

definition test_bad_magic :: "'m meta_lib \<Rightarrow> target \<Rightarrow> unit option" where
  "test_bad_magic ml t = do {
     let bytes = replicate 32 0;
     err \<leftarrow> unwrap_err (decode ml t bytes);
     check (is_invalid_payload err)
   }"

definition test_truncation :: "'m meta_lib \<Rightarrow> target \<Rightarrow> unit option" where
  "test_truncation ml t = do {
     let meta = meta_collect ml [(lit ''k'', VString (lit ''v''))];
     (_, store) \<leftarrow> store_upsert store_new (Bytes [1, 2, 3]) [f32_1, f32_2] (Some meta);
     let (res, w) = encode ml Flat 2 Cosine store buffer;
     unwrap res;
     let full = wr_out w;
     check (list_all (\<lambda>cut. \<not> is_ok (decode ml t (take cut full))) [0..<length full]);
     check (is_ok (decode ml t full))
   }"

text \<open>The byte a bit is in is there, and whatever it is flipped to, decoding returns.\<close>

definition test_bit_flip :: "'m meta_lib \<Rightarrow> target \<Rightarrow> usize \<Rightarrow> (persist_error + 'm decoded \<times> u8 list) option option" where
  "test_bit_flip ml t bit_pos = do {
     (_, store) \<leftarrow> store_upsert store_new (U64 1) [f32_1, f32_2, f32_3] None;
     let (res, w) = encode ml Flat 3 Cosine store buffer;
     unwrap res;
     let bytes = wr_out w;
     if bit_pos < length bytes * 8
     then do {
       b \<leftarrow> vec_index bytes (bit_pos div 8);
       bytes \<leftarrow> vec_set bytes (bit_pos div 8) (xor b (push_bit (bit_pos mod 8) 1));
       Some (Some (decode ml t bytes))
     }
     else Some None
   }"

text \<open>\<open>Vec::resize\<close>, and the loop that fills the store of the property test.\<close>

definition vec_resize :: "'a list \<Rightarrow> usize \<Rightarrow> 'a \<Rightarrow> 'a list" where
  "vec_resize xs n x = take n xs @ replicate (n - length xs) x"

primrec fill_store :: "usize \<Rightarrow> (u64 \<times> vec) list \<Rightarrow> 'm row_store \<Rightarrow> 'm row_store option" where
  "fill_store d [] s = Some s"
| "fill_store d (r # rs) s =
     Option.bind (store_upsert s (U64 (fst r)) (vec_resize (snd r) d 0) None) (\<lambda>(_, s'). fill_store d rs s')"

definition test_arbitrary_rows ::
    "'m meta_lib \<Rightarrow> target \<Rightarrow> usize \<Rightarrow> (u64 \<times> vec) list \<Rightarrow> 'm decoded option" where
  "test_arbitrary_rows ml t d rows = do {
     store \<leftarrow> fill_store d rows store_new;
     decoded \<leftarrow> round_trip ml t Flat d Cosine store;
     check (length (de_rows decoded) = store_len store);
     check (list_all (\<lambda>(got, want). row_id got = row_id want \<and> row_vector got = row_vector want)
       (zip (de_rows decoded) (store_iter store)));
     Some decoded
   }"

subsection \<open>They pass\<close>

text \<open>All of them go through \<open>round_trip\<close>, which is the identity within the limits of the format.\<close>

lemma round_trip_fits:
  "payload_fits ml t (payload_of k d mt s) \<Longrightarrow> round_trip ml t k d mt s = Some (payload_of k d mt s)"
  by (simp add: round_trip_def encode_fits w_payload.round_trip_exact)

lemma test_empty_store_passes: "test_empty_store ml t \<noteq> None"
proof -
  have "payload_fits ml t (payload_of Flat 4 Cosine store_new)" by (simp add: payload_fits_def store_new_def)
  from round_trip_fits [OF this] show ?thesis by (simp add: test_empty_store_def store_new_def)
qed

lemma test_kinds_round_trip_passes:
  assumes "kind_fits t (Hnsw hnsw)" and "kind_fits t (Ivf ivf)"
  shows "test_kinds_round_trip ml t hnsw ivf \<noteq> None"
proof -
  have "payload_fits ml t (payload_of (Hnsw hnsw) 8 Euclidean store_new)"
    "payload_fits ml t (payload_of (Ivf ivf) 8 Euclidean store_new)"
    using assms by (simp_all add: payload_fits_def store_new_def)
  from this [THEN round_trip_fits] show ?thesis by (simp add: test_kinds_round_trip_def)
qed

lemma as_bytes_lit: "\<forall>c \<in> set s. of_char c < (0x80 :: u8) \<Longrightarrow> as_bytes (lit s) = map of_char s"
  unfolding lit_def by (rule Abs_rstring_inverse) (simp add: valid_utf8_ascii)

text \<open>A collected map within the limits of the format.\<close>

lemma collected_fits:
  assumes "meta_laws ml" and "list_all entry_fits es" and "length es < 2 ^ 32"
  shows "meta_fits ml (Some (meta_collect ml es))"
proof -
  have sub: "mset (meta_iter ml (meta_collect ml es)) \<subseteq># mset es"
    using assms(1) by (simp add: meta_laws_def)
  then have "set (meta_iter ml (meta_collect ml es)) \<subseteq> set es"
    by (metis set_mset_mono set_mset_mset)
  moreover have "length (meta_iter ml (meta_collect ml es)) \<le> length es"
    using size_mset_mono [OF sub] by simp
  ultimately show ?thesis using assms by (auto simp: meta_laws_def list_all_iff)
qed

lemma test_metadata_passes:
  assumes "meta_laws ml"
  shows "test_metadata ml t \<noteq> None"
proof -
  define meta where "meta = meta_collect ml
    [(lit ''title'', VString (lit ''intro'')), (lit ''year'', VInt 2026),
     (lit ''score'', VFloat f64_half), (lit ''ok'', VBool True), (lit ''nil'', VNull)]"
  have "meta_fits ml (Some meta)"
    unfolding meta_def by (rule collected_fits [OF assms]) (simp_all add: entry_fits_def str_fits_def as_bytes_lit)
  then have "payload_fits ml t (payload_of Flat 3 Cosine
      \<lparr>st_rows = [Row (Bytes [0xDE, 0xAD, 0xBE, 0xEF]) [f32_1, f32_2, f32_3] (Some meta)],
       st_index = [Bytes [0xDE, 0xAD, 0xBE, 0xEF] \<mapsto> 0]\<rparr>)"
    by (simp add: payload_fits_def row_fits_def del: meta_fits.simps)
  from round_trip_fits [OF this] show ?thesis
    by (simp add: test_metadata_def Let_def store_defs flip: meta_def)
qed

lemma test_bad_magic_passes: "test_bad_magic ml t \<noteq> None"
proof -
  have "read_exact 4 (replicate 32 0) = Inr (replicate 4 0, replicate 28 0)"
    by (simp add: read_exact_def)
  moreover have "replicate 4 0 \<noteq> magic"
  proof
    assume "replicate 4 0 = magic"
    then have "hd (replicate 4 0) = hd magic" by simp
    then show False by (simp add: magic_def)
  qed
  ultimately have "decode ml t (replicate 32 0) = Inl (InvalidPayload ''iqdb core payload magic mismatch'')"
    by (simp add: decode_def rbind_def)
  then show ?thesis by (simp add: test_bad_magic_def is_invalid_payload_def)
qed

lemma test_truncation_passes:
  assumes "meta_laws ml"
  shows "test_truncation ml t \<noteq> None"
proof -
  define meta where "meta = meta_collect ml [(lit ''k'', VString (lit ''v''))]"
  define store where "store = \<lparr>st_rows = [Row (Bytes [1, 2, 3]) [f32_1, f32_2] (Some meta)],
    st_index = [Bytes [1, 2, 3] \<mapsto> 0]\<rparr>"
  have "meta_fits ml (Some meta)"
    unfolding meta_def by (rule collected_fits [OF assms]) (simp_all add: entry_fits_def str_fits_def as_bytes_lit)
  then have fits: "payload_fits ml t (payload_of Flat 2 Cosine store)"
    by (simp add: payload_fits_def row_fits_def store_def del: meta_fits.simps)
  let ?full = "payload_bytes ml (payload_of Flat 2 Cosine store)"
  have "\<exists>e. decode ml t (take cut ?full) = Inl e" if "cut < length ?full" for cut
    by (rule w_payload.truncated [OF fits]) (metis that strict_prefix_def take_is_prefix length_take min.absorb4 nat_neq_iff)
  then have "list_all (\<lambda>cut. \<not> is_ok (decode ml t (take cut ?full))) [0..<length ?full]"
    by (fastforce simp: list_all_iff is_ok_iff)
  moreover have "store_upsert store_new (Bytes [1, 2, 3]) [f32_1, f32_2] (Some meta) = Some (True, store)"
    by (simp add: store_defs store_def)
  ultimately show ?thesis
    by (simp add: test_truncation_def Let_def encode_fits [OF fits] w_payload.round_trip_exact [OF fits]
        flip: meta_def)
qed

lemma test_bit_flip_passes: "test_bit_flip ml t bit_pos \<noteq> None"
proof -
  define store :: "'a row_store" where "store = \<lparr>st_rows = [Row (U64 1) [f32_1, f32_2, f32_3] None], st_index = [U64 1 \<mapsto> 0]\<rparr>"
  have fits: "payload_fits ml Ptr64 (payload_of Flat 3 Cosine store)"
    by (simp add: payload_fits_def row_fits_def store_def)
  have "store_upsert store_new (U64 1) [f32_1, f32_2, f32_3] None = Some (True, store)"
    by (simp add: store_defs store_def)
  moreover have "bit_pos div 8 < n" if "bit_pos < n * 8" for n using that by (simp add: less_mult_imp_div_less)
  ultimately show ?thesis
    by (simp add: test_bit_flip_def Let_def encode_fits [OF fits] vec_index_def vec_set_def)
qed

lemma length_vec_resize [simp]: "length (vec_resize xs n x) = n"
  by (simp add: vec_resize_def min_def)

lemma fill_store_rows:
  assumes "store_inv s" and "list_all (row_fits ml d) (st_rows s)"
  shows "\<exists>s'. fill_store d rs s = Some s' \<and> store_inv s' \<and> list_all (row_fits ml d) (st_rows s')
    \<and> store_len s' \<le> store_len s + length rs"
  using assms
proof (induction rs arbitrary: s)
  case (Cons r rs)
  let ?row = "Row (U64 (fst r)) (vec_resize (snd r) d 0) None"
  have row: "row_fits ml d ?row" by (simp add: row_fits_def)
  obtain newly s1 where s1: "store_upsert s (U64 (fst r)) (vec_resize (snd r) d 0) None = Some (newly, s1)"
    "store_inv s1" "list_all (row_fits ml d) (st_rows s1)" "store_len s1 \<le> Suc (store_len s)"
  proof (cases "st_index s (U64 (fst r))")
    case None
    from store_upsert_new [OF Cons.prems(1) None, of "vec_resize (snd r) d 0" None] row Cons.prems(2)
    show thesis by (auto simp: store_len_def intro: that)
  next
    case (Some pos)
    have "list_all (row_fits ml d) ((st_rows s)[pos := ?row])"
      using row Cons.prems(2) set_update_subset_insert [of "st_rows s" pos ?row] by (auto simp: list_all_iff)
    with store_upsert_replace [OF Cons.prems(1) Some, of "vec_resize (snd r) d 0" None]
    show thesis by (auto simp: store_len_def intro: that)
  qed
  from Cons.IH [OF s1(2,3)] s1(1,4) show ?case by fastforce
qed simp

lemma test_arbitrary_rows_passes:
  assumes "d \<le> usize_max t" and "length rows \<le> usize_max t"
  shows "test_arbitrary_rows ml t d rows \<noteq> None"
proof -
  obtain store where store: "fill_store d rows store_new = Some store"
    "list_all (row_fits ml d) (st_rows store)" "store_len store \<le> length rows"
    using fill_store_rows [OF store_new_inv, of ml d rows] by (auto simp: store_new_def store_len_def)
  with assms have "payload_fits ml t (payload_of Flat d Cosine store)"
    by (simp add: payload_fits_def store_len_def)
  from round_trip_fits [OF this] store(1) show ?thesis
    by (simp add: test_arbitrary_rows_def store_len_def zip_same_conv_map list_all_iff)
qed

end
