(* ===== verification/Iqdb_Accepting.thy ===== *)
theory Iqdb_Accepting
  imports Iqdb_Durability
begin

text \<open>
  Over index families that accept what the engine gives them (\<open>accept_laws\<close>), an engine whose
  writes have all succeeded is a map that takes any write of its dimension.
\<close>

text \<open>An engine fresh from \<open>new\<close> takes writes like one fresh from loading.\<close>

lemma core_new_replayable:
  assumes laws: "engine_laws L \<alpha> ok" and acc: "accept_laws (lib_index L) \<alpha>"
    and run: "core_new L d mt config = Inr c"
  shows "replayable L \<alpha> ok c \<and> co_dim c = d \<and> core_contents c = Map.empty"
proof -
  from run obtain idx where idx: "any_new (lib_index L) (cc_index config) d mt = Inr idx"
    and c: "c = \<lparr>co_dim = d, co_metric = mt, co_kind = cc_index config, co_store = store_new,
      co_index = cl_wrap (lib_cache L) idx (cc_cache config), co_cache_cfg = cc_cache config,
      co_ivf_dirty = any_needs_training (lib_index L) idx\<rparr>"
    by (auto simp: core_new_def ok_iff)
  have "any_dim (lib_index L) idx = d" using acc idx unfolding accept_laws_def by blast
  with core_new_wf [OF laws run] cl_wrap_inner [OF engine_lawsD(5) [OF laws]] show ?thesis
    by (simp add: replayable_def c core_untrained_eq)
qed

lemma replayable_store: "replayable L \<alpha> ok c \<Longrightarrow> core_store_ok c"
  by (simp add: replayable_def core_wf_def)

text \<open>Such an engine with its dimension and contents, and what writes and reads do to it.\<close>

definition replays ::
    "('fl, 'hn, 'iv, 'cx, 'cc, 'cs, 'm, 'p, 'h, 'z) core_lib
      \<Rightarrow> (('fl, 'hn, 'iv) any_index \<Rightarrow> 'm index_contents) \<Rightarrow> ('cx \<Rightarrow> bool) \<Rightarrow> usize \<Rightarrow> 'm index_contents
      \<Rightarrow> ('fl, 'hn, 'iv, 'cx, 'cc, 'm) iqdb_core \<Rightarrow> bool" where
  "replays L \<alpha> ok d M c \<longleftrightarrow> replayable L \<alpha> ok c \<and> co_dim c = d \<and> core_contents c = M"

lemma replays_insert:
  assumes "engine_laws L \<alpha> ok" and "accept_laws (lib_index L) \<alpha>" and "replays L \<alpha> ok d M c" and "length v = d"
  obtains c' where "core_insert L i v m c = Some (Inr (), c')" "replays L \<alpha> ok d (M(i \<mapsto> (v, m))) c'"
proof -
  from assms(3,4) have c: "replayable L \<alpha> ok c" "length v = co_dim c" "co_dim c = d" "core_contents c = M"
    by (simp_all add: replays_def)
  from replay_insert [OF assms(1,2) c(1,2), of i m] obtain c' where
    run: "core_insert L i v m c = Some (Inr (), c')" and "replayable L \<alpha> ok c'"
    and "core_contents c' = (core_contents c)(i \<mapsto> (v, m))" by blast
  with c(3,4) core_insert_ids [OF run] show thesis by (intro that [OF run]) (simp add: replays_def)
qed

lemma replays_delete:
  assumes "engine_laws L \<alpha> ok" and "accept_laws (lib_index L) \<alpha>" and "replays L \<alpha> ok d M c"
  obtains c' where "core_delete L i c = Some (Inr (), c')" "replays L \<alpha> ok d (M(i := None)) c'"
proof -
  from assms(3) have c: "replayable L \<alpha> ok c" "co_dim c = d" "core_contents c = M"
    by (simp_all add: replays_def)
  from replay_delete [OF assms(1,2) c(1), of i] obtain c' where
    run: "core_delete L i c = Some (Inr (), c')" and "replayable L \<alpha> ok c'"
    and "core_contents c' = (core_contents c)(i := None)" by blast
  with c(2,3) core_delete_ids [OF run] show thesis by (intro that [OF run]) (simp add: replays_def)
qed

lemma replays_reads:
  assumes "replays L \<alpha> ok d M c"
  shows "core_len c = card (dom M)" and "core_contains c i = (i \<in> dom M)" and "core_get_row c i = Some (M i)"
  using replayable_store [of L \<alpha> ok c] assms
  by (simp_all add: replays_def core_len_def store_len_card core_contains_def store_contains_iff core_get_row_contents)

end
