(* ===== verification/Iqdb_Engine_Tests.thy ===== *)
theory Iqdb_Engine_Tests
  imports Iqdb_Tests Iqdb_Accepting Iqdb_Durability_Props
begin

text \<open>
  The crate's own unit tests of the engine and of the handle (the \<open>tests\<close> modules of
  engine/mod.rs and handle.rs) that do not depend on which vectors an index finds near, run on
  the model. They pass over every index library that keeps its contract and accepts what the
  engine gives it.
\<close>

section \<open>The engine\<close>

definition test_core ::
    "('fl, 'hn, 'iv, 'cx, 'cc, 'cs, 'm, 'p, 'h, 'z) core_lib \<Rightarrow> index_kind \<Rightarrow> usize \<Rightarrow> metric
      \<Rightarrow> ('fl, 'hn, 'iv, 'cx, 'cc, 'm) iqdb_core option" where
  "test_core L kind d mt = unwrap (core_new L d mt \<lparr>cc_index = kind, cc_cache = None\<rparr>)"

definition test_core_replaces ::
    "('fl, 'hn, 'iv, 'cx, 'cc, 'cs, 'm, 'p, 'h, 'z) core_lib
      \<Rightarrow> ('fl, 'hn, 'iv, 'cx, 'cc, 'm) iqdb_core option" where
  "test_core_replaces L = do {
     c \<leftarrow> test_core L Flat 2 Euclidean;
     (res, c) \<leftarrow> core_insert L (U64 1) [0, 0] None c;
     unwrap res;
     (res, c) \<leftarrow> core_insert L (U64 1) [f32_5, f32_5] None c;
     unwrap res;
     check (core_len c = 1);
     row \<leftarrow> core_get_row c (U64 1);
     (got, _) \<leftarrow> row;
     check (got = [f32_5, f32_5]);
     Some c
   }"

definition test_core_delete ::
    "('fl, 'hn, 'iv, 'cx, 'cc, 'cs, 'm, 'p, 'h, 'z) core_lib
      \<Rightarrow> ('fl, 'hn, 'iv, 'cx, 'cc, 'm) iqdb_core option" where
  "test_core_delete L = do {
     c \<leftarrow> test_core L Flat 1 Euclidean;
     (res, c) \<leftarrow> core_insert L (U64 1) [f32_1] None c;
     unwrap res;
     check (core_contains c (U64 1));
     (res, c) \<leftarrow> core_delete L (U64 1) c;
     unwrap res;
     (res, c) \<leftarrow> core_delete L (U64 1) c;
     unwrap res;
     check (core_len c = 0);
     Some c
   }"

lemma test_core_replays:
  assumes "engine_laws L \<alpha> ok" and "accept_laws (lib_index L) \<alpha>" and "is_ok (any_new (lib_index L) kind d mt)"
  obtains c where "test_core L kind d mt = Some c" "replays L \<alpha> ok d Map.empty c"
proof -
  from assms(3) obtain c where c: "core_new L d mt \<lparr>cc_index = kind, cc_cache = None\<rparr> = Inr c"
    by (auto simp: core_new_def is_ok_iff)
  with core_new_replayable [OF assms(1,2) c] show thesis
    by (intro that) (simp_all add: test_core_def replays_def)
qed

lemma test_core_replaces_passes:
  assumes laws: "engine_laws L \<alpha> ok" and acc: "accept_laws (lib_index L) \<alpha>"
    and new: "is_ok (any_new (lib_index L) Flat 2 Euclidean)"
  shows "test_core_replaces L \<noteq> None"
proof -
  from test_core_replays [OF laws acc new] obtain c0 where
    c0: "test_core L Flat 2 Euclidean = Some c0" "replays L \<alpha> ok 2 Map.empty c0" .
  from replays_insert [OF laws acc c0(2), of "[0, 0]" "U64 1" None] obtain c1 where
    c1: "core_insert L (U64 1) [0, 0] None c0 = Some (Inr (), c1)"
      "replays L \<alpha> ok 2 [U64 1 \<mapsto> ([0, 0], None)] c1" by auto
  from replays_insert [OF laws acc c1(2), of "[f32_5, f32_5]" "U64 1" None] obtain c2 where
    c2: "core_insert L (U64 1) [f32_5, f32_5] None c1 = Some (Inr (), c2)"
      "replays L \<alpha> ok 2 [U64 1 \<mapsto> ([f32_5, f32_5], None)] c2" by auto
  from c0(1) c1(1) c2(1) replays_reads [OF c2(2)] show ?thesis
    by (simp add: test_core_replaces_def)
qed

lemma test_core_delete_passes:
  assumes laws: "engine_laws L \<alpha> ok" and acc: "accept_laws (lib_index L) \<alpha>"
    and new: "is_ok (any_new (lib_index L) Flat 1 Euclidean)"
  shows "test_core_delete L \<noteq> None"
proof -
  from test_core_replays [OF laws acc new] obtain c0 where
    c0: "test_core L Flat 1 Euclidean = Some c0" "replays L \<alpha> ok 1 Map.empty c0" .
  from replays_insert [OF laws acc c0(2), of "[f32_1]" "U64 1" None] obtain c1 where
    c1: "core_insert L (U64 1) [f32_1] None c0 = Some (Inr (), c1)"
      "replays L \<alpha> ok 1 [U64 1 \<mapsto> ([f32_1], None)] c1" by auto
  from replays_delete [OF laws acc c1(2), of "U64 1"] obtain c2 where
    c2: "core_delete L (U64 1) c1 = Some (Inr (), c2)" "replays L \<alpha> ok 1 Map.empty c2" by auto
  from replays_delete [OF laws acc c2(2), of "U64 1"] obtain c3 where
    c3: "core_delete L (U64 1) c2 = Some (Inr (), c3)" "replays L \<alpha> ok 1 Map.empty c3" by auto
  from c0(1) c1(1) c2(1) c3(1) replays_reads [OF c1(2)] replays_reads [OF c3(2)] show ?thesis
    by (simp add: test_core_delete_def)
qed

section \<open>The handle\<close>

definition vec2 :: "('p, 'flt) vocabulary \<Rightarrow> f32 \<Rightarrow> f32 \<Rightarrow> vec option" where
  "vec2 V a b = unwrap (vector_new V [a, b])"

definition is_config :: "error \<Rightarrow> bool" where
  "is_config e = (case e of Config _ \<Rightarrow> True | _ \<Rightarrow> False)"

definition test_zero_dim ::
    "('fl, 'hn, 'iv, 'cx, 'cc, 'cs, 'm, 'p, 'h, 'z) core_lib
      \<Rightarrow> (error + ('fl, 'hn, 'iv, 'cx, 'cc, 'm, 'ps) database) list option" where
  "test_zero_dim L = do {
     let opened = open_in_memory L 0 Cosine;
     direct \<leftarrow> unwrap_err opened;
     check (is_config direct);
     let configured = open_in_memory_with L (config_new 0 Cosine);
     via_config \<leftarrow> unwrap_err configured;
     check (is_config via_config);
     Some [opened, configured]
   }"

definition test_crud ::
    "('fl, 'hn, 'iv, 'cx, 'cc, 'cs, 'm, 'p, 'h, 'z) core_lib
      \<Rightarrow> ('fl, 'hn, 'iv, 'cx, 'cc, 'm, 'ps, 'pa, 'x, 'fs) persistence \<Rightarrow> ('p, 'flt) vocabulary
      \<Rightarrow> ('fl, 'hn, 'iv, 'cx, 'cc, 'm, 'ps) database option" where
  "test_crud L P V = do {
     db \<leftarrow> unwrap (open_in_memory L 2 Euclidean);
     check (db_is_empty P db);
     v \<leftarrow> vec2 V 0 0;
     (res, db) \<leftarrow> db_upsert L P (U64 1) v None db;
     unwrap res;
     v \<leftarrow> vec2 V f32_3 f32_4;
     (res, db) \<leftarrow> db_upsert L P (U64 2) v None db;
     unwrap res;
     check (db_len P db = 2);
     res \<leftarrow> db_get P V db (U64 2);
     found \<leftarrow> unwrap res;
     (got, _) \<leftarrow> found;
     check (got = [f32_3, f32_4]);
     (res, db) \<leftarrow> db_delete L P (U64 2) db;
     existed \<leftarrow> unwrap res;
     check existed;
     (res, db) \<leftarrow> db_delete L P (U64 2) db;
     existed \<leftarrow> unwrap res;
     check (\<not> existed);
     check (db_len P db = 1);
     Some db
   }"

definition test_wrong_dim ::
    "('fl, 'hn, 'iv, 'cx, 'cc, 'cs, 'm, 'p, 'h, 'z) core_lib
      \<Rightarrow> ('fl, 'hn, 'iv, 'cx, 'cc, 'm, 'ps, 'pa, 'x, 'fs) persistence \<Rightarrow> ('p, 'flt) vocabulary
      \<Rightarrow> ('fl, 'hn, 'iv, 'cx, 'cc, 'm, 'ps) database option" where
  "test_wrong_dim L P V = do {
     db \<leftarrow> unwrap (open_in_memory L 3 Cosine);
     v \<leftarrow> vec2 V f32_1 0;
     (res, db) \<leftarrow> db_upsert L P (U64 1) v None db;
     err \<leftarrow> unwrap_err res;
     check (err = Index (DimensionMismatch 3 2));
     Some db
   }"

lemma test_zero_dim_passes: "test_zero_dim L \<noteq> None"
  by (simp add: test_zero_dim_def Let_def open_in_memory_def open_in_memory_with_def config_into_parts_def
      config_new_def require_nonzero_dim_def is_config_def)

text \<open>An in-memory handle over such an engine.\<close>

definition mem_on ::
    "usize \<Rightarrow> metric \<Rightarrow> ('fl, 'hn, 'iv, 'cx, 'cc, 'm) iqdb_core \<Rightarrow> ('fl, 'hn, 'iv, 'cx, 'cc, 'm, 'ps) database" where
  "mem_on d mt c = \<lparr>db_dim = d, db_metric = mt, db_inner = rwlock_new (Memory c)\<rparr>"

lemma open_mem_on:
  "core_new L d mt default_core_config = Inr c \<Longrightarrow> d \<noteq> 0 \<Longrightarrow> open_in_memory L d mt = Inr (mem_on d mt c)"
  by (simp add: open_in_memory_def open_in_memory_with_def config_into_parts_def config_new_def
      require_nonzero_dim_def mem_on_def)

lemma default_core_replays:
  assumes "engine_laws L \<alpha> ok" and "accept_laws (lib_index L) \<alpha>" and "is_ok (any_new (lib_index L) Flat d mt)"
  obtains c where "core_new L d mt default_core_config = Inr c" "replays L \<alpha> ok d Map.empty c"
proof -
  from assms(3) obtain c where c: "core_new L d mt default_core_config = Inr c"
    by (auto simp: core_new_def is_ok_iff config_defs)
  with core_new_replayable [OF assms(1,2) c] show thesis by (intro that [OF c]) (simp add: replays_def)
qed

lemma mem_on_calls:
  "length v = d \<Longrightarrow> core_insert L i v m c = Some (Inr (), c') \<Longrightarrow>
     db_upsert L P i v m (mem_on d mt c) = Some (Inr (), mem_on d mt c')"
  "core_delete L i c = Some (Inr (), c') \<Longrightarrow>
     db_delete L P i (mem_on d mt c) = Some (Inr (core_contains c i), mem_on d mt c')"
  "db_len P (mem_on d mt c) = core_len c"
  "db_is_empty P (mem_on d mt c) = core_is_empty c"
  by (simp_all add: db_upsert_def db_delete_def check_dim_def db_write_panicking_eq mem_on_def rwlock_new_def
      db_set_def db_len_def db_is_empty_def db_read_def lock_acquire_def recover_def)

lemma test_crud_passes:
  assumes laws: "engine_laws L \<alpha> ok" and acc: "accept_laws (lib_index L) \<alpha>"
    and new: "is_ok (any_new (lib_index L) Flat 2 Euclidean)"
    and vecs: "vector_new V [0, 0] = Inr [0, 0]" "vector_new V [f32_3, f32_4] = Inr [f32_3, f32_4]"
  shows "test_crud L P V \<noteq> None"
proof -
  from default_core_replays [OF laws acc new] obtain c0 where
    c0: "core_new L 2 Euclidean default_core_config = Inr c0" "replays L \<alpha> ok 2 Map.empty c0" .
  let ?M1 = "[U64 1 \<mapsto> ([0, 0], None)]" and ?M2 = "[U64 1 \<mapsto> ([0, 0], None), U64 2 \<mapsto> ([f32_3, f32_4], None)]"
  from replays_insert [OF laws acc c0(2), of "[0, 0]" "U64 1" None] obtain c1 where
    c1: "core_insert L (U64 1) [0, 0] None c0 = Some (Inr (), c1)" "replays L \<alpha> ok 2 ?M1 c1" by auto
  from replays_insert [OF laws acc c1(2), of "[f32_3, f32_4]" "U64 2" None] obtain c2 where
    c2: "core_insert L (U64 2) [f32_3, f32_4] None c1 = Some (Inr (), c2)" "replays L \<alpha> ok 2 ?M2 c2" by auto
  from replays_delete [OF laws acc c2(2), of "U64 2"] obtain c3 where
    c3: "core_delete L (U64 2) c2 = Some (Inr (), c3)" "replays L \<alpha> ok 2 ?M1 c3" by auto
  from replays_delete [OF laws acc c3(2), of "U64 2"] obtain c4 where
    c4: "core_delete L (U64 2) c3 = Some (Inr (), c4)" "replays L \<alpha> ok 2 ?M1 c4" by auto
  have empty: "core_is_empty c0"
    using c0(2) by (simp add: replays_def core_is_empty_def store_is_empty_iff)
  have get: "db_get P V (mem_on 2 Euclidean c2) (U64 2) = Some (Inr (Some ([f32_3, f32_4], None)))"
    using replays_reads(3) [OF c2(2), of "U64 2"] vecs(2)
    by (simp add: db_get_def db_read_def mem_on_def rwlock_new_def)
  have len: "card {U64 1, U64 2} = 2" by simp
  from c1(1) c2(1) c3(1) c4(1) empty get vecs replays_reads(1,2) [OF c2(2)] replays_reads(1,2) [OF c3(2)]
    replays_reads(1) [OF c4(2)] len
  show ?thesis by (simp add: test_crud_def vec2_def mem_on_calls open_mem_on [OF c0(1)])
qed

lemma test_wrong_dim_passes:
  assumes laws: "engine_laws L \<alpha> ok" and acc: "accept_laws (lib_index L) \<alpha>"
    and new: "is_ok (any_new (lib_index L) Flat 3 Cosine)" and "vector_new V [f32_1, 0] = Inr [f32_1, 0]"
  shows "test_wrong_dim L P V \<noteq> None"
proof -
  from default_core_replays [OF laws acc new] obtain c0 where
    "core_new L 3 Cosine default_core_config = Inr c0" .
  with assms(4) show ?thesis
    by (simp add: test_wrong_dim_def vec2_def db_upsert_def check_dim_def mem_on_def open_mem_on)
qed

section \<open>On a concrete library\<close>

lemma demo_flat_opens: "d \<noteq> 0 \<Longrightarrow> is_ok (any_new (lib_index demo_lib) Flat d mt)"
  by (simp add: any_new_def demo_lib_def list_lib_def li_new_def)

lemma engine_tests_on_demo:
  "test_core_replaces demo_lib \<noteq> None" "test_core_delete demo_lib \<noteq> None"
  "test_crud demo_lib demo_files demo_vocab \<noteq> None" "test_wrong_dim demo_lib demo_files demo_vocab \<noteq> None"
proof -
  note laws = demo_engine_laws demo_accepts demo_flat_opens
  show "test_core_replaces demo_lib \<noteq> None" by (rule test_core_replaces_passes [OF laws]) simp
  show "test_core_delete demo_lib \<noteq> None" by (rule test_core_delete_passes [OF laws]) simp
  show "test_crud demo_lib demo_files demo_vocab \<noteq> None"
    by (rule test_crud_passes [OF laws]) (simp_all add: demo_vocab_def)
  show "test_wrong_dim demo_lib demo_files demo_vocab \<noteq> None"
    by (rule test_wrong_dim_passes [OF laws]) (simp_all add: demo_vocab_def)
qed

end
