(* ===== verification/Iqdb_Handle_Cache.thy ===== *)
theory Iqdb_Handle_Cache
  imports Iqdb_Handle_Props
begin

text \<open>
  A cache cannot be observed through the handle: the simulation of cores that differ in their
  cache, lifted to in-memory handles and their calls.
\<close>

definition handle_sim ::
    "('fl, 'hn, 'iv, 'cx, 'cc, 'cs, 'm, 'p, 'h, 'z) core_lib \<Rightarrow> ('cx \<Rightarrow> bool)
      \<Rightarrow> ('fl, 'hn, 'iv, 'cx, 'cc, 'm, 'ps) database
      \<Rightarrow> ('fl, 'hn, 'iv, 'cx, 'cc, 'm, 'ps) database \<Rightarrow> bool" where
  "handle_sim L ok d e \<longleftrightarrow>
     db_dim e = db_dim d \<and> db_metric e = db_metric d
     \<and> (\<exists>a b. lk_value (db_inner d) = Memory a \<and> lk_value (db_inner e) = Memory b \<and> core_sim L ok a b)"

lemma handle_sim_set:
  assumes "handle_sim L ok d e" and "core_sim L ok a b"
  shows "handle_sim L ok (db_set (Memory a) d) (db_set (Memory b) e)"
  using assms by (simp add: handle_sim_def)

lemma core_sim_reads:
  assumes "core_sim L ok a b"
  shows "core_is_empty b = core_is_empty a" "core_needs_materialization b = core_needs_materialization a"
    "core_get_row b i = core_get_row a i" "core_contains b i = core_contains a i" "core_len b = core_len a"
  using core_simD(1-3) [OF assms]
  by (simp_all add: core_is_empty_def core_needs_materialization_def core_get_row_def core_contains_def core_len_def)

lemma storage_search_sim:
  assumes laws: "cache_laws (any_core (lib_index L)) (lib_cache L) ok" and sim: "core_sim L ok a b"
    and run: "storage_search L P q p (Memory a) = (r, s)"
  shows "\<exists>a' b'. s = Memory a' \<and> storage_search L P q p (Memory b) = (r, Memory b') \<and> core_sim L ok a' b'"
proof -
  obtain x a' where a': "core_search L q p a = (x, a')" by fastforce
  from core_search_sim [OF laws sim a'] obtain b' where "core_search L q p b = (x, b')" "core_sim L ok a' b'" by blast
  with a' run show ?thesis by (auto simp: storage_search_def)
qed

lemma search_fast_sim:
  assumes laws: "cache_laws (any_core (lib_index L)) (lib_cache L) ok" and sim: "handle_sim L ok d e"
    and run: "search_fast L P V q k flt d = (r, d')"
  shows "\<exists>e'. search_fast L P V q k flt e = (r, e') \<and> handle_sim L ok d' e'"
proof -
  from sim obtain a b where ab: "lk_value (db_inner d) = Memory a" "lk_value (db_inner e) = Memory b"
    "core_sim L ok a b" by (auto simp: handle_sim_def)
  note reads = core_sim_reads [OF ab(3)]
  have par: "db_params V e k flt = db_params V d k flt" using sim by (simp add: handle_sim_def db_params_def)
  obtain x s where s: "storage_search L P q (db_params V d k flt) (Memory a) = (x, s)" by fastforce
  from storage_search_sim [OF laws ab(3) s] obtain a' b' where
    s': "s = Memory a'" "storage_search L P q (db_params V d k flt) (Memory b) = (x, Memory b')" "core_sim L ok a' b'"
    by blast
  from run ab(1,2) s s' handle_sim_set [OF sim s'(3)] handle_sim_set [OF sim ab(3)] show ?thesis
    by (auto simp: search_fast_def db_write_eq reads par)
qed

lemma search_slow_sim:
  assumes laws: "cache_laws (any_core (lib_index L)) (lib_cache L) ok" and sim: "handle_sim L ok d e"
    and run: "search_slow L P V q k flt d = (r, d')"
  shows "\<exists>e'. search_slow L P V q k flt e = (r, e') \<and> handle_sim L ok d' e'"
proof -
  from sim obtain a b where ab: "lk_value (db_inner d) = Memory a" "lk_value (db_inner e) = Memory b"
    "core_sim L ok a b" by (auto simp: handle_sim_def)
  note reads = core_sim_reads [OF ab(3)]
  have par: "db_params V e k flt = db_params V d k flt" using sim by (simp add: handle_sim_def db_params_def)
  obtain x a1 where a1: "core_ensure_ready L a = (x, a1)" by fastforce
  from core_ensure_ready_sim [OF laws ab(3) a1] obtain b1 where
    b1: "core_ensure_ready L b = (x, b1)" "core_sim L ok a1 b1" by blast
  obtain y s where s: "storage_search L P q (db_params V d k flt) (Memory a1) = (y, s)" by fastforce
  from storage_search_sim [OF laws b1(2) s] obtain a2 b2 where
    s': "s = Memory a2" "storage_search L P q (db_params V d k flt) (Memory b1) = (y, Memory b2)" "core_sim L ok a2 b2"
    by blast
  from run ab(1,2) a1 b1 s s' handle_sim_set [OF sim s'(3)] handle_sim_set [OF sim b1(2)]
    handle_sim_set [OF sim ab(3)] show ?thesis
    by (cases x) (auto simp: search_slow_def db_write_eq reads par split: if_splits)
qed

lemma search_inner_sim:
  assumes laws: "cache_laws (any_core (lib_index L)) (lib_cache L) ok" and sim: "handle_sim L ok d e"
    and run: "search_inner L P V q k flt d = (r, d')"
  shows "\<exists>e'. search_inner L P V q k flt e = (r, e') \<and> handle_sim L ok d' e'"
proof (cases "length q = db_dim d")
  case False
  with run sim show ?thesis by (auto simp: search_inner_def check_dim_def handle_sim_def)
next
  case True
  have dim: "db_dim e = db_dim d" using sim by (simp add: handle_sim_def)
  obtain x d1 where fast: "search_fast L P V q k flt d = (x, d1)" by fastforce
  from search_fast_sim [OF laws sim fast] obtain e1 where
    e1: "search_fast L P V q k flt e = (x, e1)" "handle_sim L ok d1 e1" by blast
  show ?thesis
  proof (cases x)
    case None
    with True fast run have "search_slow L P V q k flt d1 = (r, d')" by (simp add: search_inner_def check_dim_def)
    from search_slow_sim [OF laws e1(2) this] True None e1(1) dim show ?thesis
      by (auto simp: search_inner_def check_dim_def)
  next
    case (Some y)
    with True fast run e1 dim show ?thesis by (auto simp: search_inner_def check_dim_def)
  qed
qed

lemma db_exec_sim:
  assumes laws: "cache_laws (any_core (lib_index L)) (lib_cache L) ok" and sim: "handle_sim L ok d e"
    and run: "db_exec L P V op d = Some (r, d')"
  shows "\<exists>e'. db_exec L P V op e = Some (r, e') \<and> handle_sim L ok d' e'"
proof -
  from sim obtain a b where ab: "lk_value (db_inner d) = Memory a" "lk_value (db_inner e) = Memory b"
    "core_sim L ok a b" by (auto simp: handle_sim_def)
  note reads = core_sim_reads [OF ab(3)]
  have dim: "db_dim e = db_dim d" using sim by (simp add: handle_sim_def)
  have core: "db_core P d = a" "db_core P e = b" using ab by (simp_all add: db_core_def)
  show ?thesis
  proof (cases op)
    case (OUpsert i v m)
    show ?thesis
    proof (cases "length v = db_dim d")
      case False
      with OUpsert run sim dim show ?thesis by (auto simp: db_upsert_def check_dim_def)
    next
      case True
      with OUpsert run ab(1) obtain x a' where a': "core_insert L i v m a = Some (x, a')"
        and d': "d' = db_set (Memory a') d" and r: "r = map_sum (\<lambda>e. e) (\<lambda>_. OutUnit) (map_err from_iqdb x)"
        by (auto simp: db_upsert_def check_dim_def db_write_panicking_eq)
      from core_insert_sim [OF laws ab(3) a'] obtain b' where
        "core_insert L i v m b = Some (x, b')" "core_sim L ok a' b'" by blast
      with OUpsert True ab(2) dim d' r handle_sim_set [OF sim] show ?thesis
        by (auto simp: db_upsert_def check_dim_def db_write_panicking_eq)
    qed
  next
    case (OGet i)
    with run sim reads core show ?thesis by (auto simp: db_get_def)
  next
    case (ODelete i)
    with run ab(1) obtain x a' where a': "core_delete L i a = Some (x, a')" and d': "d' = db_set (Memory a') d"
      and r: "r = map_sum (\<lambda>e. e) OutBool (map_sum (\<lambda>e. e) (\<lambda>_. core_contains a i) (map_err from_iqdb x))"
      by (auto simp: db_delete_def db_write_panicking_eq)
    from core_delete_sim [OF laws ab(3) a'] obtain b' where
      "core_delete L i b = Some (x, b')" "core_sim L ok a' b'" by blast
    with ODelete ab(2) d' r reads handle_sim_set [OF sim] show ?thesis
      by (auto simp: db_delete_def db_write_panicking_eq)
  next
    case (OSearch q k flt)
    obtain x d1 where s: "search_inner L P V q k flt d = (x, d1)" by fastforce
    from search_inner_sim [OF laws sim s] OSearch run s show ?thesis by auto
  next
    case OLen
    with run sim reads core show ?thesis by (auto simp: db_len_def)
  next
    case OOptimize
    obtain x a' where a': "core_optimize L a = (x, a')" by fastforce
    from core_optimize_sim [OF laws ab(3) a'] obtain b' where "core_optimize L b = (x, b')" "core_sim L ok a' b'" by blast
    with OOptimize run ab(1,2) a' handle_sim_set [OF sim] show ?thesis
      by (auto simp: db_optimize_def db_write_eq)
  next
    case OFlush
    with run ab(1,2) handle_sim_set [OF sim ab(3)] show ?thesis by (auto simp: db_flush_def db_write_eq)
  qed
qed

text \<open>
  C22. The cache is an optimisation only: two in-memory databases opened alike but for the
  cache return the same results for every sequence of calls, failing ones included, and hold
  the same data afterwards.
\<close>

theorem handle_cache_transparent:
  assumes laws: "cache_laws (any_core (lib_index L)) (lib_cache L) ok"
    and "open_in_memory_with L cfg = Inr d" and "open_in_memory_with L (config_cache cc cfg) = Inr e"
    and "db_run L P V ops d = Some (rs, d')"
  shows "\<exists>e'. db_run L P V ops e = Some (rs, e') \<and> db_contents P e' = db_contents P d'"
proof -
  have runs: "\<exists>e'. db_run L P V ops e = Some (rs, e') \<and> handle_sim L ok d' e'"
    if "handle_sim L ok d e" "db_run L P V ops d = Some (rs, d')" for d e rs
    using that
  proof (induction ops arbitrary: d e rs)
    case (Cons op ops)
    from Cons.prems(2) obtain r d1 rs1 where
      d1: "db_exec L P V op d = Some (r, d1)" "db_run L P V ops d1 = Some (rs1, d')" "rs = r # rs1"
      by (auto split: Option.bind_splits)
    from db_exec_sim [OF laws Cons.prems(1) d1(1)] obtain e1 where
      e1: "db_exec L P V op e = Some (r, e1)" "handle_sim L ok d1 e1" by blast
    from Cons.IH [OF e1(2) d1(2)] e1(1) d1(3) show ?case by auto
  qed simp
  have "handle_sim L ok d e"
    using assms(2,3) cl_wrap_inner [OF laws]
    by (auto simp: open_in_memory_with_def config_into_parts_def config_cache_def ok_iff handle_sim_def
        core_new_def core_sim_def rwlock_new_def require_nonzero_dim_def split: if_splits)
  from runs [OF this assms(4)] obtain e' where
    "db_run L P V ops e = Some (rs, e')" "handle_sim L ok d' e'" by blast
  then show ?thesis by (auto simp: handle_sim_def db_core_def dest: core_simD(1))
qed

theorem handle_cache_transparent_witness:
  "\<exists>e e'. open_in_memory_with demo_lib (config_cache 8 (demo_cfg demo_ivf)) = Inr (e :: demo_db)
     \<and> db_run demo_lib demo_files demo_vocab [OLen] e = Some ([Inr (OutLen 0)], e')"
proof -
  obtain e :: demo_db where e: "open_in_memory_with demo_lib (config_cache 8 (demo_cfg demo_ivf)) = Inr e"
    using demo_core_new [of demo_ivf True]
    by (simp add: open_in_memory_with_def config_into_parts_def require_nonzero_dim_def config_cache_def)
  have "db_len demo_files (demo_mem demo_ivf) = 0"
    by (simp add: demo_mem_def db_len_def rwlock_new_def db_core_def core_len_def store_len_def demo_defs)
  then have "db_run demo_lib demo_files demo_vocab [OLen] (demo_mem demo_ivf) = Some ([Inr (OutLen 0)], demo_mem demo_ivf)"
    by simp
  from handle_cache_transparent [OF engine_lawsD(5) [OF demo_engine_laws] demo_mem_open e this] e show ?thesis by blast
qed

end
