(* ===== verification/Iqdb_Nearest.thy ===== *)
theory Iqdb_Nearest
  imports Iqdb_Accepting Iqdb_Concurrent
begin

text \<open>
  What a database promises, with nothing of how it is built: a map from identifiers to
  vectors whose searches give the \<open>k\<close> nearest. The promise is stated for the default index
  kind, \<open>Flat\<close>, whose contract is to be exact, and proved of any sequence of calls on an
  in-memory handle.
\<close>

section \<open>The nearest vectors of a map\<close>

text \<open>
  What a result says and how results are ranked belong to other crates: the identifier and the
  distance of a hit, the distance under a metric, which filters are well-formed and what such
  a filter lets through.
\<close>

record ('h, 'flt, 'm, 'd) ranking =
  rk_id :: "'h \<Rightarrow> vector_id"
  rk_distance :: "'h \<Rightarrow> 'd"
  rk_dist :: "metric \<Rightarrow> vec \<Rightarrow> vec \<Rightarrow> 'd"
  rk_valid :: "'flt \<Rightarrow> bool"
  rk_accepts :: "'flt \<Rightarrow> 'm option \<Rightarrow> bool"

definition malformed :: "('h, 'flt, 'm, 'd) ranking \<Rightarrow> 'flt option \<Rightarrow> bool" where
  "malformed R flt \<longleftrightarrow> (\<exists>f. flt = Some f \<and> \<not> rk_valid R f)"

lemma malformed_simps [simp]: "\<not> malformed R None" "malformed R (Some f) \<longleftrightarrow> \<not> rk_valid R f"
  by (simp_all add: malformed_def)

definition eligible ::
    "('h, 'flt, 'm, 'd) ranking \<Rightarrow> 'flt option \<Rightarrow> 'm index_contents \<Rightarrow> 'm index_contents" where
  "eligible R flt M i =
     (case M i of
        None \<Rightarrow> None
      | Some (v, m) \<Rightarrow> (case flt of
            None \<Rightarrow> Some (v, m)
          | Some f \<Rightarrow> if rk_accepts R f m then Some (v, m) else None))"

lemma eligible_all [simp]: "eligible R None M = M"
  by (rule ext) (simp add: eligible_def split: option.split)

text \<open>
  The \<open>k\<close> nearest, or all if there are fewer: distinct entries of the map that pass the
  filter, each with its distance, nearest first, and nothing left out is nearer.
\<close>

definition nearest ::
    "('h, 'flt, 'm, 'd :: linorder) ranking \<Rightarrow> metric \<Rightarrow> vec \<Rightarrow> usize \<Rightarrow> 'm index_contents \<Rightarrow> 'h list \<Rightarrow> bool" where
  "nearest R mt q k M hits \<longleftrightarrow>
     length hits = min k (card (dom M)) \<and> distinct (map (rk_id R) hits) \<and> sorted (map (rk_distance R) hits)
     \<and> (\<forall>h \<in> set hits. \<exists>v m. M (rk_id R h) = Some (v, m) \<and> rk_distance R h = rk_dist R mt q v)
     \<and> (\<forall>i v m. M i = Some (v, m) \<longrightarrow> i \<notin> rk_id R ` set hits \<longrightarrow>
          (\<forall>h \<in> set hits. rk_distance R h \<le> rk_dist R mt q v))"

lemma nearest_empty: "nearest R mt q k Map.empty []"
  by (simp add: nearest_def)

text \<open>The answer to a query over what is stored: a malformed filter is an error.\<close>

definition found ::
    "('h, 'flt, 'm, 'd :: linorder) ranking \<Rightarrow> 'flt option \<Rightarrow> metric \<Rightarrow> vec \<Rightarrow> usize \<Rightarrow> 'm index_contents
      \<Rightarrow> iqdb_error + 'h list \<Rightarrow> bool" where
  "found R flt mt q k M r \<longleftrightarrow>
     (if malformed R flt then r = Inl InvalidFilter
      else \<exists>hits. r = Inr hits \<and> nearest R mt q k (eligible R flt M) hits)"

section \<open>The contract of the exact index\<close>

text \<open>
  A flat index keeps its dimension and metric, and answers a query of that dimension under
  that metric with the nearest of the vectors it holds that pass the filter; a malformed filter
  it refuses with \<open>InvalidFilter\<close>, the error \<open>search_with\<close> documents (said only of an index
  that holds something: the engine does not search an empty one). What it does with \<open>k = 0\<close>
  is not said.
\<close>

definition exact_laws ::
    "('fl, 'hn, 'iv, 'm, 'p, 'h, 'z) index_lib \<Rightarrow> (('fl, 'hn, 'iv) any_index \<Rightarrow> 'm index_contents)
      \<Rightarrow> ('p, 'flt) vocabulary \<Rightarrow> ('h, 'flt, 'm, 'd :: linorder) ranking \<Rightarrow> bool" where
  "exact_laws I \<alpha> V R \<longleftrightarrow>
     (\<forall>d mt x. flat_new I d mt = Inr x \<longrightarrow> ix_metric (flat_core I) x = mt)
     \<and> (\<forall>i v m x. ix_metric (flat_core I) (snd (ix_insert (flat_core I) i v m x)) = ix_metric (flat_core I) x)
     \<and> (\<forall>i x. ix_metric (flat_core I) (snd (ix_delete (flat_core I) i x)) = ix_metric (flat_core I) x)
     \<and> (\<forall>q p x. ix_metric (flat_core I) (snd (ix_search (flat_core I) q p x)) = ix_metric (flat_core I) x
          \<and> ix_dim (flat_core I) (snd (ix_search (flat_core I) q p x)) = ix_dim (flat_core I) x)
     \<and> (\<forall>items x. any_metric I (snd (build_into I items (AnyFlat x))) = any_metric I (AnyFlat x))
     \<and> (\<forall>q k flt x. 0 < k \<and> length q = ix_dim (flat_core I) x \<and> \<alpha> (AnyFlat x) \<noteq> Map.empty \<longrightarrow>
          found R flt (ix_metric (flat_core I) x) q k (\<alpha> (AnyFlat x)) (fst (ix_search (flat_core I) q
            (params_filter_update V flt (params_new V k (ix_metric (flat_core I) x))) x)))"

lemma exact_laws_search:
  assumes "exact_laws I \<alpha> V R" and "0 < k" and "length q = ix_dim (flat_core I) x"
    and "\<alpha> (AnyFlat x) \<noteq> Map.empty" and "ix_metric (flat_core I) x = mt"
  shows "found R flt mt q k (\<alpha> (AnyFlat x))
    (fst (ix_search (flat_core I) q (params_filter_update V flt (params_new V k mt)) x))"
  using assms unfolding exact_laws_def by blast

section \<open>The specification\<close>

fun spec_apply :: "usize \<Rightarrow> ('m, 'flt) db_op \<Rightarrow> 'm index_contents \<Rightarrow> 'm index_contents" where
  "spec_apply d (OUpsert i v m) M = (if length v = d then M(i \<mapsto> (v, m)) else M)"
| "spec_apply d (ODelete i) M = M(i := None)"
| "spec_apply d (OGet i) M = M"
| "spec_apply d (OSearch q k flt) M = M"
| "spec_apply d OLen M = M"
| "spec_apply d OOptimize M = M"
| "spec_apply d OFlush M = M"

fun spec_answer ::
    "('h, 'flt, 'm, 'd :: linorder) ranking \<Rightarrow> usize \<Rightarrow> metric \<Rightarrow> 'm index_contents
      \<Rightarrow> ('m, 'flt) db_op \<Rightarrow> error + ('m, 'h) db_out \<Rightarrow> bool" where
  "spec_answer R d mt M (OUpsert i v m) r \<longleftrightarrow>
     r = (if length v = d then Inr OutUnit else Inl (Index (DimensionMismatch d (length v))))"
| "spec_answer R d mt M (OGet i) r \<longleftrightarrow> r = Inr (OutRow (M i))"
| "spec_answer R d mt M (ODelete i) r \<longleftrightarrow> r = Inr (OutBool (i \<in> dom M))"
| "spec_answer R d mt M (OSearch q k flt) r \<longleftrightarrow>
     (if length q \<noteq> d then r = Inl (Index (DimensionMismatch d (length q)))
      else if M = Map.empty then r = Inr (OutHits [])
      else k = 0 \<or> (\<exists>x. found R flt mt q k M x \<and> r = map_sum Index OutHits x))"
| "spec_answer R d mt M OLen r \<longleftrightarrow> r = Inr (OutLen (card (dom M)))"
| "spec_answer R d mt M OOptimize r \<longleftrightarrow> r = Inr OutUnit"
| "spec_answer R d mt M OFlush r \<longleftrightarrow> r = Inr OutUnit"

text \<open>A whole history of calls with their results, and the map it leaves.\<close>

fun spec_run ::
    "('h, 'flt, 'm, 'd :: linorder) ranking \<Rightarrow> usize \<Rightarrow> metric \<Rightarrow> 'm index_contents
      \<Rightarrow> (('m, 'flt) db_op \<times> (error + ('m, 'h) db_out)) list \<Rightarrow> 'm index_contents \<Rightarrow> bool" where
  "spec_run R d mt M [] M' \<longleftrightarrow> M' = M"
| "spec_run R d mt M ((op, r) # es) M' \<longleftrightarrow>
     spec_answer R d mt M op r \<and> spec_run R d mt (spec_apply d op M) es M'"

section \<open>The engine over a flat index\<close>

definition flat_core_on ::
    "('fl, 'hn, 'iv, 'cx, 'cc, 'cs, 'm, 'p, 'h, 'z) core_lib
      \<Rightarrow> (('fl, 'hn, 'iv) any_index \<Rightarrow> 'm index_contents) \<Rightarrow> ('cx \<Rightarrow> bool) \<Rightarrow> usize \<Rightarrow> metric
      \<Rightarrow> 'm index_contents \<Rightarrow> ('fl, 'hn, 'iv, 'cx, 'cc, 'm) iqdb_core \<Rightarrow> bool" where
  "flat_core_on L \<alpha> ok d mt M c \<longleftrightarrow>
     replays L \<alpha> ok d M c \<and> co_kind c = Flat \<and> any_metric (lib_index L) (core_index L c) = mt"

lemma flat_core_onD:
  assumes "flat_core_on L \<alpha> ok d mt M c"
  shows "core_wf L ok c" and "core_synced L \<alpha> c" and "\<not> co_ivf_dirty c" and "core_contents c = M"
    and "core_store_ok c" and "any_dim (lib_index L) (core_index L c) = d"
    and "\<exists>x. core_index L c = AnyFlat x" and "\<alpha> (core_index L c) = M"
proof -
  from assms have rp: "replayable L \<alpha> ok c" and M: "core_contents c = M" and d: "co_dim c = d" and k: "co_kind c = Flat"
    by (simp_all add: flat_core_on_def replays_def)
  from rp show wf: "core_wf L ok c" and sy: "core_synced L \<alpha> c" and dim: "any_dim (lib_index L) (core_index L c) = d"
    by (simp_all add: replayable_def d)
  from wf k show clean: "\<not> co_ivf_dirty c" by (auto simp: core_wf_def is_ivf_def)
  from wf k show "\<exists>x. core_index L c = AnyFlat x"
    by (cases "core_index L c") (auto simp: core_wf_def)
  from wf show "core_store_ok c" by (simp add: core_wf_def)
  show "core_contents c = M" by (rule M)
  from core_synced_clean [OF sy clean] M show "\<alpha> (core_index L c) = M" by simp
qed

lemma exact_laws_metric:
  assumes "exact_laws I \<alpha> V R"
  shows "any_metric I (snd (any_insert I i v m (AnyFlat x))) = any_metric I (AnyFlat x)"
    and "any_metric I (snd (any_delete I i (AnyFlat x))) = any_metric I (AnyFlat x)"
    and "any_metric I (snd (any_search I q p (AnyFlat x))) = any_metric I (AnyFlat x)"
    and "any_dim I (snd (any_search I q p (AnyFlat x))) = any_dim I (AnyFlat x)"
    and "any_metric I (snd (build_into I items (AnyFlat x))) = any_metric I (AnyFlat x)"
    and "any_new I Flat d mt = Inr y \<Longrightarrow> any_metric I y = mt"
  using assms by (auto simp: exact_laws_def any_new_def ok_iff)

lemma flat_core_onI:
  assumes "replays L \<alpha> ok d M c'" and "co_kind c' = Flat"
    and "any_metric (lib_index L) (core_index L c') = mt"
  shows "flat_core_on L \<alpha> ok d mt M c'"
  using assms by (simp add: flat_core_on_def)

text \<open>The calls the engine makes on its index keep the index flat and its metric.\<close>

definition flat_index ::
    "('fl, 'hn, 'iv, 'cx, 'cc, 'cs, 'm, 'p, 'h, 'z) core_lib \<Rightarrow> ('cx \<Rightarrow> bool) \<Rightarrow> metric
      \<Rightarrow> ('fl, 'hn, 'iv, 'cx, 'cc, 'm) iqdb_core \<Rightarrow> bool" where
  "flat_index L ok mt c \<longleftrightarrow>
     cl_ok ok (co_index c) \<and> (\<exists>x. core_index L c = AnyFlat x) \<and> any_metric (lib_index L) (core_index L c) = mt"

lemma flat_index_insert:
  assumes laws: "engine_laws L \<alpha> ok" and exact: "exact_laws (lib_index L) \<alpha> V R"
    and ix: "flat_index L ok mt c" and run: "core_index_insert L i v m c = (r, c')"
  shows "flat_index L ok mt c'"
proof -
  from ix obtain x where x: "core_index L c = AnyFlat x" "cl_ok ok (co_index c)"
    "any_metric (lib_index L) (AnyFlat x) = mt" by (auto simp: flat_index_def)
  from index_insert_spec [OF engine_lawsD(5) [OF laws] x(2) run] x(1)
  have "core_index L c' = snd (any_insert (lib_index L) i v m (AnyFlat x))" "cl_ok ok (co_index c')"
    by (simp_all del: any_insert.simps)
  with exact_laws_metric(1) [OF exact, of i v m x] x(3) show ?thesis by (simp add: flat_index_def)
qed

lemma flat_index_delete:
  assumes laws: "engine_laws L \<alpha> ok" and exact: "exact_laws (lib_index L) \<alpha> V R"
    and ix: "flat_index L ok mt c" and run: "core_index_delete L i c = (r, c')"
  shows "flat_index L ok mt c'"
proof -
  from ix obtain x where x: "core_index L c = AnyFlat x" "cl_ok ok (co_index c)"
    "any_metric (lib_index L) (AnyFlat x) = mt" by (auto simp: flat_index_def)
  from index_delete_spec [OF engine_lawsD(5) [OF laws] x(2) run] x(1)
  have "core_index L c' = snd (any_delete (lib_index L) i (AnyFlat x))" "cl_ok ok (co_index c')"
    by (auto simp del: any_delete.simps)
  with exact_laws_metric(2) [OF exact, of i x] x(3) show ?thesis by (simp add: flat_index_def)
qed

lemma flat_index_core [simp]:
  "flat_index L ok mt (c\<lparr>co_store := st\<rparr>) = flat_index L ok mt c"
  by (simp add: flat_index_def)

lemma flat_core_on_index: "flat_core_on L \<alpha> ok d mt M c \<Longrightarrow> flat_index L ok mt c"
  using flat_core_onD(1,7) [of L \<alpha> ok d mt M c] by (auto simp: flat_index_def flat_core_on_def core_wf_def)

lemma flat_index_core_insert:
  assumes laws: "engine_laws L \<alpha> ok" and exact: "exact_laws (lib_index L) \<alpha> V R"
    and ix: "flat_index L ok mt c" and run: "core_insert L i v m c = Some (r, c')"
  shows "flat_index L ok mt c'"
  using run
proof (cases rule: core_insert_cases)
  case (deferred newly st)
  with ix show ?thesis by (auto simp: flat_index_def core_untrained_eq)
next
  case (fresh st)
  with flat_index_insert [OF laws exact _ fresh(3)] ix show ?thesis by simp
next
  case (stuck st e)
  with flat_index_delete [OF laws exact _ stuck(3)] ix show ?thesis by simp
next
  case (replaced st c1)
  with flat_index_insert [OF laws exact flat_index_delete [OF laws exact _ replaced(3)] replaced(4)] ix
  show ?thesis by simp
qed

lemma flat_index_core_delete:
  assumes laws: "engine_laws L \<alpha> ok" and exact: "exact_laws (lib_index L) \<alpha> V R"
    and ix: "flat_index L ok mt c" and run: "core_delete L i c = Some (r, c')"
  shows "flat_index L ok mt c'"
  using run
proof (cases rule: core_delete_cases)
  case (deferred existed st)
  with ix show ?thesis by (auto simp: flat_index_def core_untrained_eq)
next
  case (direct existed st)
  with flat_index_delete [OF laws exact _ direct(3)] ix show ?thesis by simp
qed

lemma flat_insert:
  assumes laws: "engine_laws L \<alpha> ok" and acc: "accept_laws (lib_index L) \<alpha>"
    and exact: "exact_laws (lib_index L) \<alpha> V R" and c: "flat_core_on L \<alpha> ok d mt M c" and "length v = d"
  obtains c' where "core_insert L i v m c = Some (Inr (), c')" "flat_core_on L \<alpha> ok d mt (M(i \<mapsto> (v, m))) c'"
proof -
  from c have "replays L \<alpha> ok d M c" by (simp add: flat_core_on_def)
  from replays_insert [OF laws acc this assms(5), of i m] obtain c' where
    run: "core_insert L i v m c = Some (Inr (), c')" and rp: "replays L \<alpha> ok d (M(i \<mapsto> (v, m))) c'" .
  from flat_index_core_insert [OF laws exact flat_core_on_index [OF c] run] rp c core_insert_ids [OF run] show thesis
    by (intro that [OF run] flat_core_onI) (simp_all add: flat_index_def flat_core_on_def)
qed

lemma flat_delete:
  assumes laws: "engine_laws L \<alpha> ok" and acc: "accept_laws (lib_index L) \<alpha>"
    and exact: "exact_laws (lib_index L) \<alpha> V R" and c: "flat_core_on L \<alpha> ok d mt M c"
  obtains c' where "core_delete L i c = Some (Inr (), c')" "flat_core_on L \<alpha> ok d mt (M(i := None)) c'"
proof -
  from c have "replays L \<alpha> ok d M c" by (simp add: flat_core_on_def)
  from replays_delete [OF laws acc this, of i] obtain c' where
    run: "core_delete L i c = Some (Inr (), c')" and rp: "replays L \<alpha> ok d (M(i := None)) c'" .
  from flat_index_core_delete [OF laws exact flat_core_on_index [OF c] run] rp c core_delete_ids [OF run] show thesis
    by (intro that [OF run] flat_core_onI) (simp_all add: flat_index_def flat_core_on_def)
qed

text \<open>A fresh engine over a flat index.\<close>

lemma core_new_flat:
  assumes laws: "engine_laws L \<alpha> ok" and acc: "accept_laws (lib_index L) \<alpha>"
    and exact: "exact_laws (lib_index L) \<alpha> V R"
    and new: "core_new L d mt cfg = Inr c" and kind: "cc_index cfg = Flat"
  shows "flat_core_on L \<alpha> ok d mt Map.empty c"
proof -
  from new kind obtain x where x: "flat_new (lib_index L) d mt = Inr x"
    and c: "co_kind c = Flat" "co_index c = cl_wrap (lib_cache L) (AnyFlat x) (cc_cache cfg)"
    by (auto simp: core_new_def any_new_def ok_iff)
  from x exact have mt: "any_metric (lib_index L) (AnyFlat x) = mt" by (simp add: exact_laws_def)
  from c(2) cl_wrap_inner [OF engine_lawsD(5) [OF laws]] have "core_index L c = AnyFlat x" by simp
  with core_new_replayable [OF laws acc new] c(1) mt show ?thesis
    by (simp add: flat_core_on_def replays_def)
qed

lemma flat_ready:
  assumes "flat_core_on L \<alpha> ok d mt M c"
  shows "core_ensure_ready L c = (Inr (), c)" and "core_optimize L c = (Inr (), c)"
  using flat_core_onD(3) [OF assms] assms
  by (simp_all add: core_ensure_ready_def core_optimize_def flat_core_on_def)

lemma flat_search:
  assumes laws: "engine_laws L \<alpha> ok" and exact: "exact_laws (lib_index L) \<alpha> V R"
    and c: "flat_core_on L \<alpha> ok d mt M c" and run: "core_search L q p c = (r, c')"
  shows "flat_core_on L \<alpha> ok d mt M c'"
    and "p = params_filter_update V flt (params_new V k mt) \<Longrightarrow> 0 < k \<Longrightarrow> length q = d \<Longrightarrow>
      M \<noteq> Map.empty \<Longrightarrow> found R flt mt q k M r"
proof -
  note D = flat_core_onD [OF c]
  from D(7) obtain x where x: "core_index L c = AnyFlat x" by blast
  from D(1) have cl: "cl_ok ok (co_index c)" by (simp add: core_wf_def)
  from core_search_spec [OF engine_lawsD(5) [OF laws] cl run] x
  have ix: "any_search (lib_index L) q p (AnyFlat x) = (r, core_index L c')" by simp
  then have ix': "core_index L c' = snd (any_search (lib_index L) q p (AnyFlat x))" by simp
  note keep = exact_laws_metric(3,4) [OF exact, of q p x]
  have mt: "any_metric (lib_index L) (AnyFlat x) = mt" using c x by (simp add: flat_core_on_def)
  have "core_untrained L c' = core_untrained L c"
    unfolding core_untrained_eq x ix' by simp
  moreover note core_search_wf [OF laws D(1) run] core_search_synced [OF laws D(1,2) run] core_search_frame [OF run]
  ultimately have "replays L \<alpha> ok d M c'"
    using c keep(2) x ix' by (auto simp: flat_core_on_def replays_def replayable_def core_frame_def)
  then show "flat_core_on L \<alpha> ok d mt M c'"
    using core_search_frame [OF run] c keep(1) mt
    by (intro flat_core_onI) (simp_all add: ix' flat_core_on_def core_frame_def)
  assume p: "p = params_filter_update V flt (params_new V k mt)" and k: "0 < k" and q: "length q = d"
    and ne: "M \<noteq> Map.empty"
  have "found R flt mt q k (\<alpha> (AnyFlat x)) (fst (ix_search (flat_core (lib_index L)) q p x))"
    unfolding p by (rule exact_laws_search [OF exact k]) (use q ne D(6,8) x mt in simp_all)
  with ix D(8) x show "found R flt mt q k M r"
    by (auto simp: apsnd_eq)
qed

section \<open>The handle\<close>

definition flat_db ::
    "('fl, 'hn, 'iv, 'cx, 'cc, 'cs, 'm, 'p, 'h, 'z) core_lib
      \<Rightarrow> (('fl, 'hn, 'iv) any_index \<Rightarrow> 'm index_contents) \<Rightarrow> ('cx \<Rightarrow> bool) \<Rightarrow> usize \<Rightarrow> metric
      \<Rightarrow> 'm index_contents \<Rightarrow> ('fl, 'hn, 'iv, 'cx, 'cc, 'm, 'ps) database \<Rightarrow> bool" where
  "flat_db L \<alpha> ok d mt M db \<longleftrightarrow>
     db_dim db = d \<and> db_metric db = mt
     \<and> (\<exists>c. lk_value (db_inner db) = Memory c \<and> flat_core_on L \<alpha> ok d mt M c)"

lemma flat_db_contents: "flat_db L \<alpha> ok d mt M db \<Longrightarrow> db_contents P db = M"
  by (auto simp: flat_db_def db_core_def dest: flat_core_onD(4))

lemma flat_db_opened:
  assumes laws: "engine_laws L \<alpha> ok" and acc: "accept_laws (lib_index L) \<alpha>"
    and exact: "exact_laws (lib_index L) \<alpha> V R"
    and run: "open_in_memory_with L cfg = Inr db" and kind: "config_index_kind cfg = Flat"
  shows "flat_db L \<alpha> ok (cfg_dim cfg) (cfg_metric cfg) Map.empty db"
proof -
  from run obtain c where new: "core_new L (cfg_dim cfg) (cfg_metric cfg) (cfg_core cfg) = Inr c"
    and db: "db = \<lparr>db_dim = cfg_dim cfg, db_metric = cfg_metric cfg, db_inner = rwlock_new (Memory c)\<rparr>"
    by (auto simp: open_in_memory_with_def config_into_parts_def ok_iff)
  from core_new_flat [OF laws acc exact new] kind show ?thesis
    by (simp add: db flat_db_def rwlock_new_def config_index_kind_def)
qed

text \<open>A search under an untouched lock: the first critical section answers it.\<close>

lemma flat_db_search:
  assumes laws: "engine_laws L \<alpha> ok" and exact: "exact_laws (lib_index L) \<alpha> V R"
    and db: "flat_db L \<alpha> ok d mt M db" and run: "search_inner L P V q k flt db = (r, db')"
  shows "flat_db L \<alpha> ok d mt M db'
    \<and> spec_answer R d mt M (OSearch q k flt) (map_sum (\<lambda>e. e) OutHits r)"
proof -
  from db obtain c where ids: "db_dim db = d" "db_metric db = mt" and c: "lk_value (db_inner db) = Memory c"
    "flat_core_on L \<alpha> ok d mt M c" by (auto simp: flat_db_def)
  note D = flat_core_onD [OF c(2)]
  have empty: "core_is_empty c \<longleftrightarrow> M = Map.empty"
    using D(4,5) by (simp add: core_is_empty_def store_is_empty_iff)
  show ?thesis
  proof (cases "length q = d")
    case False
    with run ids have "r = Inl (Index (DimensionMismatch d (length q)))" "db' = db"
      by (auto simp: search_inner_def check_dim_def)
    with False db show ?thesis by simp
  next
    case len: True
    show ?thesis
    proof (cases "core_is_empty c")
      case True
      with run ids c(1) len have "r = Inr []" "db' = db"
        by (auto simp: search_inner_def check_dim_def search_fast_def db_write_eq)
      with True len db empty show ?thesis by simp
    next
      case False
      obtain r' c' where se: "core_search L q (db_params V db k flt) c = (r', c')" by fastforce
      with run ids c(1) len False D(3) have r: "r = map_err from_iqdb r'" "db' = db_set (Memory c') db"
        by (auto simp: search_inner_def check_dim_def search_fast_def db_write_eq storage_search_def
            core_needs_materialization_def)
      note answer = flat_search [OF laws exact c(2) se]
      from answer(1) r(2) ids have "flat_db L \<alpha> ok d mt M db'" by (simp add: flat_db_def)
      moreover have "spec_answer R d mt M (OSearch q k flt) (map_sum (\<lambda>e. e) OutHits r)"
      proof (cases "k = 0")
        case False
        with answer(2) [of flt k] len ids(2) \<open>\<not> core_is_empty c\<close> empty have "found R flt mt q k M r'"
          by (simp add: db_params_def)
        with len r(1) \<open>\<not> core_is_empty c\<close> empty show ?thesis
          by (cases r') (force simp: from_iqdb_def)+
      qed (use len \<open>\<not> core_is_empty c\<close> empty in simp)
      ultimately show ?thesis ..
    qed
  qed
qed

section \<open>Any call, and any sequence of calls\<close>

text \<open>Vectors come validated into a write, so that \<open>get\<close> can rebuild them.\<close>

definition readable :: "('p, 'flt) vocabulary \<Rightarrow> 'm index_contents \<Rightarrow> bool" where
  "readable V M \<longleftrightarrow> (\<forall>i v m. M i = Some (v, m) \<longrightarrow> vector_new V v = Inr v)"

fun op_valid :: "('p, 'flt) vocabulary \<Rightarrow> ('m, 'flt) db_op \<Rightarrow> bool" where
  "op_valid V (OUpsert i v m) \<longleftrightarrow> vector_new V v = Inr v"
| "op_valid V _ \<longleftrightarrow> True"

lemma readable_apply: "readable V M \<Longrightarrow> op_valid V op \<Longrightarrow> readable V (spec_apply d op M)"
  by (cases op) (auto simp: readable_def)

lemma flat_db_exec:
  assumes laws: "engine_laws L \<alpha> ok" and acc: "accept_laws (lib_index L) \<alpha>"
    and exact: "exact_laws (lib_index L) \<alpha> V R" and db: "flat_db L \<alpha> ok d mt M db"
    and rd: "readable V M"
  shows "\<exists>r db'. db_exec L P V op db = Some (r, db') \<and> spec_answer R d mt M op r
    \<and> flat_db L \<alpha> ok d mt (spec_apply d op M) db'"
proof -
  from db obtain c where ids: "db_dim db = d" "db_metric db = mt" and c: "lk_value (db_inner db) = Memory c"
    "flat_core_on L \<alpha> ok d mt M c" by (auto simp: flat_db_def)
  have core: "db_core P db = c" using c(1) by (simp add: db_core_def)
  from c(2) have rp: "replays L \<alpha> ok d M c" by (simp add: flat_core_on_def)
  have set: "flat_db L \<alpha> ok d mt M' (db_set (Memory c') db)" if "flat_core_on L \<alpha> ok d mt M' c'" for M' c'
    using that ids by (simp add: flat_db_def)
  show ?thesis
  proof (cases op)
    case (OUpsert i v m)
    show ?thesis
    proof (cases "length v = d")
      case True
      from flat_insert [OF laws acc exact c(2) True, of i m] obtain c' where
        "core_insert L i v m c = Some (Inr (), c')" "flat_core_on L \<alpha> ok d mt (M(i \<mapsto> (v, m))) c'" .
      with OUpsert True ids c(1) set show ?thesis
        by (simp add: db_upsert_def check_dim_def db_write_panicking_eq)
    next
      case False
      with OUpsert ids db show ?thesis by (simp add: db_upsert_def check_dim_def)
    qed
  next
    case (OGet i)
    have "db_get P V db i = Some (Inr (M i))"
    proof (cases "M i")
      case None
      with replays_reads(3) [OF rp, of i] core show ?thesis by (simp add: db_get_def)
    next
      case (Some vm)
      with rd have "vector_new V (fst vm) = Inr (fst vm)" unfolding readable_def by (metis prod.collapse)
      with Some replays_reads(3) [OF rp, of i] core show ?thesis
        by (cases vm) (simp add: db_get_def)
    qed
    with OGet db show ?thesis by simp
  next
    case (ODelete i)
    from flat_delete [OF laws acc exact c(2), of i] obtain c' where
      "core_delete L i c = Some (Inr (), c')" "flat_core_on L \<alpha> ok d mt (M(i := None)) c'" .
    with ODelete c(1) set replays_reads(2) [OF rp, of i] show ?thesis
      by (simp add: db_delete_def db_write_panicking_eq)
  next
    case (OSearch q k flt)
    obtain r db' where "search_inner L P V q k flt db = (r, db')" by fastforce
    from flat_db_search [OF laws exact db this] this OSearch show ?thesis by simp
  next
    case OLen
    with db core replays_reads(1) [OF rp] show ?thesis by (simp add: db_len_def)
  next
    case OOptimize
    with c set [OF c(2)] flat_ready(2) [OF c(2)] show ?thesis by (simp add: db_optimize_def db_write_eq)
  next
    case OFlush
    with c set [OF c(2)] show ?thesis by (simp add: db_flush_def db_write_eq)
  qed
qed

lemma flat_db_run:
  assumes laws: "engine_laws L \<alpha> ok" and acc: "accept_laws (lib_index L) \<alpha>"
    and exact: "exact_laws (lib_index L) \<alpha> V R"
    and "flat_db L \<alpha> ok d mt M db" and "readable V M" and "list_all (op_valid V) ops"
  shows "\<exists>rs db' M'. db_run L P V ops db = Some (rs, db') \<and> length rs = length ops
    \<and> spec_run R d mt M (zip ops rs) M' \<and> flat_db L \<alpha> ok d mt M' db'"
  using assms(4-)
proof (induction ops arbitrary: db M)
  case (Cons op ops)
  from flat_db_exec [OF laws acc exact Cons.prems(1,2), of P op] obtain r db1 where
    one: "db_exec L P V op db = Some (r, db1)" "spec_answer R d mt M op r"
      "flat_db L \<alpha> ok d mt (spec_apply d op M) db1" by blast
  from Cons.prems(2,3) have "readable V (spec_apply d op M)" by (simp add: readable_apply)
  from Cons.IH [OF one(3) this] Cons.prems(3) obtain rs db' M' where
    "db_run L P V ops db1 = Some (rs, db')" "length rs = length ops"
    "spec_run R d mt (spec_apply d op M) (zip ops rs) M'" "flat_db L \<alpha> ok d mt M' db'" by auto
  with one show ?case by auto
qed simp

end
