(* ===== verification/Iqdb_Exact_Instance.thy ===== *)
theory Iqdb_Exact_Instance
  imports Iqdb_Nearest Iqdb_Persist_Instance "HOL-Library.AList"
begin

text \<open>
  The parameters of the exact search instantiated: an index that keeps its vectors in a list
  and answers a search by sorting those that pass the filter by their distance, here the number
  of components in which two vectors differ. It satisfies \<open>engine_laws\<close>, \<open>accept_laws\<close> and
  \<open>exact_laws\<close>; the witnesses of the properties that assume those use it.
\<close>

section \<open>An index that sorts\<close>

record exact_index =
  ex_dim :: usize
  ex_metric :: metric
  ex_entries :: "(vector_id \<times> vec \<times> demo_meta option) list"
  ex_trained :: bool

text \<open>The filter \<open>True\<close> asks for metadata, the filter \<open>False\<close> is malformed.\<close>

type_synonym exact_filter = bool

type_synonym exact_params = "nat \<times> metric \<times> exact_filter option"

type_synonym exact_hit = "vector_id \<times> nat"

definition ex_distance :: "vec \<Rightarrow> vec \<Rightarrow> nat" where
  "ex_distance q v = length (filter (\<lambda>(a, b). a \<noteq> b) (zip q v))"

definition ex_accepts :: "exact_filter \<Rightarrow> demo_meta option \<Rightarrow> bool" where
  "ex_accepts flt m \<longleftrightarrow> m \<noteq> None"

definition ex_ranking :: "(exact_hit, exact_filter, demo_meta, nat) ranking" where
  "ex_ranking = \<lparr>rk_id = fst, rk_distance = snd, rk_dist = (\<lambda>mt. ex_distance), rk_valid = (\<lambda>f. f),
     rk_accepts = ex_accepts\<rparr>"

definition ex_vocab :: "(exact_params, exact_filter) vocabulary" where
  "ex_vocab = \<lparr>vector_new = Inr, params_new = (\<lambda>k mt. (k, mt, None)),
     params_filter_update = (\<lambda>flt (k, mt, _). (k, mt, flt))\<rparr>"

definition ex_passing ::
    "exact_filter option \<Rightarrow> (vector_id \<times> vec \<times> demo_meta option) list \<Rightarrow> (vector_id \<times> vec \<times> demo_meta option) list" where
  "ex_passing flt es =
     filter (\<lambda>(i, v, m). case flt of None \<Rightarrow> True | Some f \<Rightarrow> ex_accepts f m) (AList.clearjunk es)"

definition ex_hits ::
    "vec \<Rightarrow> nat \<Rightarrow> (vector_id \<times> vec \<times> demo_meta option) list \<Rightarrow> exact_hit list" where
  "ex_hits q k es = take k (sort_key snd (map (\<lambda>(i, v, m). (i, ex_distance q v)) es))"

definition ex_insert ::
    "vector_id \<Rightarrow> vec \<Rightarrow> demo_meta option \<Rightarrow> exact_index \<Rightarrow> (iqdb_error + unit) \<times> exact_index" where
  "ex_insert i v m x =
     (if length v \<noteq> ex_dim x then (Inl (DimensionMismatch (ex_dim x) (length v)), x)
      else (Inr (), x\<lparr>ex_entries := (i, v, m) # ex_entries x\<rparr>))"

definition ex_delete :: "vector_id \<Rightarrow> exact_index \<Rightarrow> (iqdb_error + unit) \<times> exact_index" where
  "ex_delete i x =
     (if map_of (ex_entries x) i = None then (Inl NotFound, x)
      else (Inr (), x\<lparr>ex_entries := AList.delete i (ex_entries x)\<rparr>))"

definition ex_search :: "vec \<Rightarrow> exact_params \<Rightarrow> exact_index \<Rightarrow> (iqdb_error + exact_hit list) \<times> exact_index" where
  "ex_search q p x =
     (case p of (k, mt, flt) \<Rightarrow>
        (if length q \<noteq> ex_dim x then Inl (DimensionMismatch (ex_dim x) (length q))
         else if mt \<noteq> ex_metric x then Inl (OtherIqdbError 0)
         else if flt = Some False then Inl InvalidFilter
         else Inr (ex_hits q k (ex_passing flt (ex_entries x))), x))"

definition ex_core :: "(exact_index, demo_meta, exact_params, exact_hit, unit) index_core" where
  "ex_core =
     \<lparr>ix_insert = ex_insert, ix_delete = ex_delete, ix_search = ex_search,
      ix_len = (\<lambda>x. length (ex_entries x)), ix_dim = ex_dim, ix_metric = ex_metric,
      ix_flush = (\<lambda>x. (Inr (), x)), ix_stats = (\<lambda>x. \<lparr>n_vectors = length (ex_entries x)\<rparr>)\<rparr>"

definition ex_new :: "bool \<Rightarrow> usize \<Rightarrow> metric \<Rightarrow> iqdb_error + exact_index" where
  "ex_new trained d mt = Inr \<lparr>ex_dim = d, ex_metric = mt, ex_entries = [], ex_trained = trained\<rparr>"

type_synonym exact_any = "(exact_index, exact_index, exact_index) any_index"

fun ex_map :: "(exact_index \<Rightarrow> exact_index) \<Rightarrow> exact_any \<Rightarrow> exact_any" where
  "ex_map f (AnyFlat x) = AnyFlat (f x)"
| "ex_map f (AnyHnsw x) = AnyHnsw (f x)"
| "ex_map f (AnyIvf x) = AnyIvf (f x)"

definition ex_build ::
    "(vector_id \<times> vec \<times> demo_meta option) list \<Rightarrow> exact_any \<Rightarrow> (iqdb_error + usize) \<times> exact_any" where
  "ex_build items x = (Inr (length items), ex_map (\<lambda>y. y\<lparr>ex_entries := items @ ex_entries y\<rparr>) x)"

definition exact_lib ::
    "(exact_index, exact_index, exact_index, demo_meta, exact_params, exact_hit, unit) index_lib" where
  "exact_lib =
     \<lparr>flat_new = ex_new True, flat_core = ex_core,
      hnsw_new = (\<lambda>d mt cfg. ex_new True d mt), hnsw_core = ex_core,
      ivf_new = (\<lambda>d mt cfg. ex_new False d mt), ivf_core = ex_core,
      ivf_is_trained = ex_trained, ivf_train = (\<lambda>sample x. (Inr (), x\<lparr>ex_trained := True\<rparr>)),
      build_into = ex_build\<rparr>"

text \<open>A cache that keeps nothing.\<close>

definition no_cache ::
    "(exact_any, exact_any, nat, nat, demo_meta, exact_params, exact_hit, unit) cache_lib" where
  "no_cache =
     \<lparr>cx_with_config = (\<lambda>x cfg. x), cx_into_inner = (\<lambda>x. x), cx_get_ref = (\<lambda>x. x), cx_stats = (\<lambda>x. 0),
      cx_core = any_core exact_lib\<rparr>"

definition exact_engine ::
    "(exact_index, exact_index, exact_index, exact_any, nat, nat, demo_meta, exact_params, exact_hit, unit) core_lib" where
  "exact_engine =
     \<lparr>lib_index = exact_lib, lib_cache = no_cache, lib_meta = btree_meta,
      lib_persist_of = (\<lambda>_. OtherPersistError 0)\<rparr>"

section \<open>It keeps the contracts\<close>

definition ex_contents :: "exact_index \<Rightarrow> demo_meta index_contents" where
  "ex_contents x = map_of (ex_entries x)"

abbreviation exact_contents :: "exact_any \<Rightarrow> demo_meta index_contents" where
  "exact_contents \<equiv> any_contents ex_contents ex_contents ex_contents"

lemma ex_index_laws: "index_laws ex_core ex_contents"
proof -
  have "insert_law ex_core ex_contents"
    by (auto simp: insert_law_def ex_core_def ex_contents_def ex_insert_def split: if_splits)
  moreover have "delete_law ex_core ex_contents"
    by (auto simp: delete_law_def ex_core_def ex_contents_def ex_delete_def delete_conv' split: if_splits)
  moreover have "read_law ex_core ex_contents"
    by (simp add: read_law_def ex_core_def ex_search_def split: prod.split)
  ultimately show ?thesis by (simp add: index_laws_def)
qed

lemma exact_library_laws: "library_laws exact_lib exact_contents"
  unfolding library_laws_def
proof (intro conjI)
  show "index_laws (any_core exact_lib) exact_contents"
    by (rule any_index_laws) (simp_all add: exact_lib_def ex_index_laws)
  show "ivf_laws exact_lib"
    by (auto simp: ivf_laws_def exact_lib_def ex_core_def ex_new_def ex_insert_def ex_delete_def ex_search_def
        split: prod.split)
  have "kind_matches k (ex_map f x) = kind_matches k x" for k f x by (cases x; cases k) simp_all
  moreover have "any_needs_training exact_lib (ex_map (\<lambda>y. y\<lparr>ex_entries := es @ ex_entries y\<rparr>) x)
      = any_needs_training exact_lib x" for es x by (cases x) (simp_all add: exact_lib_def)
  moreover have "exact_contents (ex_map (\<lambda>y. y\<lparr>ex_entries := es @ ex_entries y\<rparr>) x)
      = exact_contents x ++ map_of es" for es x by (cases x) (simp_all add: ex_contents_def)
  ultimately show "build_laws exact_lib exact_contents"
    unfolding build_laws_def by (auto simp: exact_lib_def ex_build_def)
  have "exact_contents idx = Map.empty" if "any_new exact_lib k d mt = Inr idx" for k d mt idx
    using that by (cases k) (auto simp: any_new_def exact_lib_def ex_new_def ex_contents_def)
  moreover have "exact_contents idx' = exact_contents idx"
    if "any_train exact_lib sample idx = (Inr (), idx')" for sample idx idx'
    using that by (cases idx) (auto simp: exact_lib_def ex_contents_def)
  ultimately show "new_laws exact_lib exact_contents" by (auto simp: new_laws_def)
qed

lemma exact_engine_laws: "engine_laws exact_engine exact_contents (\<lambda>_. True)"
proof -
  have "cache_laws (any_core exact_lib) no_cache (\<lambda>_. True)"
    by (simp add: cache_laws_def no_cache_def cache_op_law_def)
  then show ?thesis by (simp add: engine_laws_def exact_engine_def exact_library_laws)
qed

lemma exact_accept_laws: "accept_laws exact_lib exact_contents"
  unfolding accept_laws_def
proof (intro conjI allI impI)
  fix k d mt x
  assume "any_new exact_lib k d mt = Inr x"
  then show "any_dim exact_lib x = d" by (cases k) (auto simp: any_new_def exact_lib_def ex_new_def ex_core_def)
next
  fix i v m x
  show "any_dim exact_lib (snd (any_insert exact_lib i v m x)) = any_dim exact_lib x"
    by (cases x) (simp_all add: exact_lib_def ex_core_def ex_insert_def)
  assume "\<not> any_needs_training exact_lib x \<and> length v = any_dim exact_lib x \<and> exact_contents x i = None"
  then show "is_ok (fst (any_insert exact_lib i v m x))"
    by (cases x) (simp_all add: exact_lib_def ex_core_def ex_insert_def)
next
  fix i x
  show "any_dim exact_lib (snd (any_delete exact_lib i x)) = any_dim exact_lib x"
    by (cases x) (simp_all add: exact_lib_def ex_core_def ex_delete_def)
  show "is_ok (fst (any_delete exact_lib i x)) \<or> fst (any_delete exact_lib i x) = Inl NotFound"
    by (cases x) (simp_all add: exact_lib_def ex_core_def ex_delete_def)
next
  fix items x
  show "any_dim exact_lib (snd (build_into exact_lib items x)) = any_dim exact_lib x"
    by (cases x) (simp_all add: exact_lib_def ex_core_def ex_build_def)
  show "is_ok (fst (build_into exact_lib items x))"
    by (simp add: exact_lib_def ex_build_def)
qed

section \<open>It is exact\<close>

text \<open>The first \<open>k\<close> of a sorted list are not farther than the rest.\<close>

lemma sorted_take_drop:
  assumes "sorted (map f xs)" and "x \<in> set (take k xs)" and "y \<in> set (drop k xs)"
  shows "f x \<le> f y"
proof -
  have "sorted (map f (take k xs) @ map f (drop k xs))"
    using assms(1) unfolding map_append [symmetric] append_take_drop_id .
  then have "\<forall>a \<in> set (map f (take k xs)). \<forall>b \<in> set (map f (drop k xs)). a \<le> b"
    unfolding sorted_append by blast
  moreover have "f x \<in> set (map f (take k xs))" "f y \<in> set (map f (drop k xs))"
    using assms(2,3) by (simp_all only: set_map imageI)
  ultimately show ?thesis by blast
qed

lemma ex_hits_nearest:
  assumes "distinct (map fst es)"
  shows "nearest ex_ranking mt q k (map_of es) (ex_hits q k es)"
proof -
  let ?f = "\<lambda>(i, v, m). (i, ex_distance q v)"
  let ?s = "sort_key snd (map ?f es)"
  have fst_f: "fst \<circ> ?f = fst" by auto
  have set_s: "set ?s = ?f ` set es" by simp
  have perm: "mset (map fst ?s) = mset (map fst es)"
  proof -
    have "mset (map fst ?s) = mset (map fst (map ?f es))" by (simp only: mset_map mset_sort)
    then show ?thesis by (simp only: list.map_comp fst_f)
  qed
  have dist: "distinct (map fst ?s)" using perm assms by (metis mset_eq_imp_distinct_iff)
  have card: "card (dom (map_of es)) = length es"
    using assms by (simp add: dom_map_of_conv_image_fst distinct_card flip: set_map)
  have sorted: "sorted (map snd ?s)" by (rule sorted_sort_key)
  have entry: "\<exists>v m. map_of es (fst h) = Some (v, m) \<and> snd h = ex_distance q v" if "h \<in> set ?s" for h
  proof -
    from that obtain i v m where e: "(i, v, m) \<in> set es" "h = (i, ex_distance q v)" unfolding set_s by auto
    from map_of_eq_Some_iff [OF assms] e(1) have "map_of es i = Some (v, m)" by simp
    with e(2) show ?thesis by simp
  qed
  have rest: "snd h \<le> ex_distance q v"
    if "map_of es i = Some (v, m)" "i \<notin> fst ` set (take k ?s)" "h \<in> set (take k ?s)" for i v m h
  proof -
    from that(1) have "?f (i, v, m) \<in> ?f ` set es" by (intro imageI) (rule map_of_SomeD)
    then have "(i, ex_distance q v) \<in> set ?s" unfolding set_s by simp
    moreover have "(i, ex_distance q v) \<notin> set (take k ?s)" using that(2) by force
    moreover have "set ?s = set (take k ?s) \<union> set (drop k ?s)"
      by (simp only: set_append [symmetric] append_take_drop_id)
    ultimately have "(i, ex_distance q v) \<in> set (drop k ?s)" by blast
    from sorted_take_drop [OF sorted that(3) this] show ?thesis by simp
  qed
  have "distinct (map fst (take k ?s))" unfolding take_map [symmetric] using dist by (rule distinct_take)
  moreover have "sorted (map snd (take k ?s))" unfolding take_map [symmetric] using sorted by (rule sorted_wrt_take)
  moreover have "length (take k ?s) = min k (card (dom (map_of es)))" by (simp add: card min.commute del: set_map)
  moreover have "\<forall>h \<in> set (take k ?s). \<exists>v m. map_of es (fst h) = Some (v, m) \<and> snd h = ex_distance q v"
    using entry set_take_subset by fast
  ultimately show ?thesis
    using rest by (simp add: nearest_def ex_ranking_def ex_hits_def)
qed

lemma ex_passing_eligible:
  "map_of (ex_passing flt es) = eligible ex_ranking flt (map_of es) \<and> distinct (map fst (ex_passing flt es))"
proof
  have dist: "distinct (map fst (AList.clearjunk es))" by (rule distinct_clearjunk)
  then show d: "distinct (map fst (ex_passing flt es))"
    by (simp add: ex_passing_def distinct_map_filter)
  show "map_of (ex_passing flt es) = eligible ex_ranking flt (map_of es)"
  proof (rule ext)
    fix i
    have "map_of (ex_passing flt es) i = Some (v, m) \<longleftrightarrow> eligible ex_ranking flt (map_of es) i = Some (v, m)" for v m
    proof -
      have "map_of (ex_passing flt es) i = Some (v, m) \<longleftrightarrow> (i, v, m) \<in> set (ex_passing flt es)"
        using d by (rule map_of_eq_Some_iff)
      also have "\<dots> \<longleftrightarrow> map_of (AList.clearjunk es) i = Some (v, m)
          \<and> (case flt of None \<Rightarrow> True | Some f \<Rightarrow> ex_accepts f m)"
        using dist by (auto simp: ex_passing_def map_of_eq_Some_iff)
      also have "\<dots> \<longleftrightarrow> eligible ex_ranking flt (map_of es) i = Some (v, m)"
        by (auto simp: map_of_clearjunk eligible_def ex_ranking_def split: option.splits prod.splits if_splits)
      finally show ?thesis .
    qed
    then show "map_of (ex_passing flt es) i = eligible ex_ranking flt (map_of es) i"
      by (metis not_None_eq surj_pair)
  qed
qed

lemma exact_exact_laws: "exact_laws exact_lib exact_contents ex_vocab ex_ranking"
  unfolding exact_laws_def
proof (intro conjI allI impI)
  fix q :: vec and k :: nat and flt x
  assume "0 < k \<and> length q = ix_dim (flat_core exact_lib) x \<and> exact_contents (AnyFlat x) \<noteq> Map.empty"
  moreover have "nearest ex_ranking (ex_metric x) q k (eligible ex_ranking flt (map_of (ex_entries x)))
      (ex_hits q k (ex_passing flt (ex_entries x)))"
    using ex_hits_nearest [of "ex_passing flt (ex_entries x)"] ex_passing_eligible [of flt "ex_entries x"] by simp
  moreover have "malformed ex_ranking flt \<longleftrightarrow> flt = Some False"
    by (auto simp: malformed_def ex_ranking_def)
  ultimately show "found ex_ranking flt (ix_metric (flat_core exact_lib) x) q k (exact_contents (AnyFlat x))
    (fst (ix_search (flat_core exact_lib) q
      (params_filter_update ex_vocab flt (params_new ex_vocab k (ix_metric (flat_core exact_lib) x))) x))"
    by (simp add: found_def exact_lib_def ex_core_def ex_search_def ex_vocab_def ex_contents_def)
qed (auto simp: exact_lib_def ex_core_def ex_new_def ex_insert_def ex_delete_def ex_search_def ex_build_def split: prod.splits)

end
