(* ===== verification/Iqdb_Nearest_Props.thy ===== *)
theory Iqdb_Nearest_Props
  imports Iqdb_Exact_Instance Iqdb_Concurrent_Props
begin

text \<open>
  The database as its users see it: an in-memory database over the default index is a map with
  exact nearest-neighbour search, for one caller and for any number of threads.
\<close>

section \<open>A concrete database\<close>

type_synonym exact_core = "(exact_index, exact_index, exact_index, exact_any, nat, demo_meta) iqdb_core"

type_synonym exact_db = "(exact_core, (exact_core, demo_meta) file_ps) iqdb"

definition exact_cfg :: "nat iqdb_config" where
  "exact_cfg = config_cache 16 (config_new 2 Euclidean)"

abbreviation exact_files where
  "exact_files \<equiv> file_persist exact_engine Ptr64"

lemma exact_engine_sel [simp]: "lib_index exact_engine = exact_lib" "lib_cache exact_engine = no_cache"
  by (simp_all add: exact_engine_def)

definition exact_mem :: exact_db where
  "exact_mem = (case open_in_memory_with exact_engine exact_cfg of Inr db \<Rightarrow> db)"

lemma exact_mem_open: "open_in_memory_with exact_engine exact_cfg = Inr exact_mem"
  by (simp add: exact_mem_def open_in_memory_with_def config_into_parts_def exact_cfg_def config_cache_def
      config_new_def require_nonzero_dim_def core_new_def any_new_def default_core_config_def default_kind_def
      exact_lib_def ex_new_def)

lemma exact_kept:
  "accept_laws (lib_index exact_engine) exact_contents"
  "exact_laws (lib_index exact_engine) exact_contents ex_vocab ex_ranking"
  by (simp_all add: exact_accept_laws exact_exact_laws)

lemma exact_cfg_sel [simp]:
  "cfg_dim exact_cfg = 2" "cfg_metric exact_cfg = Euclidean" "config_index_kind exact_cfg = Flat"
  by (simp_all add: exact_cfg_def config_defs)

section \<open>One caller\<close>

text \<open>
  C3. The default database is an exact nearest-neighbour map. Over index families that keep
  their contracts, with or without a cache, any sequence of calls on an in-memory database with
  a flat index runs to its end, and every result is the one the specification gives: writes
  succeed or are refused for their dimension, reads return the last write, deletes tell whether
  there was something to delete, \<open>len\<close> counts, and a search returns the \<open>k\<close> nearest of the
  vectors stored at that moment that pass the filter, nearest first, each with its distance;
  with a malformed filter it fails with \<open>InvalidFilter\<close>, except on an empty database, where
  the filter is not looked at and the answer is no hits.
  What is stored at the end is the map the specification ends in.
\<close>

theorem flat_database_spec:
  assumes "engine_laws L \<alpha> ok" and "accept_laws (lib_index L) \<alpha>" and "exact_laws (lib_index L) \<alpha> V R"
    and "open_in_memory_with L cfg = Inr db" and "config_index_kind cfg = Flat" and "list_all (op_valid V) ops"
  shows "\<exists>rs db'. db_run L P V ops db = Some (rs, db') \<and> length rs = length ops
    \<and> spec_run R (cfg_dim cfg) (cfg_metric cfg) Map.empty (zip ops rs) (db_contents P db')"
proof -
  have "readable V Map.empty" by (simp add: readable_def)
  from flat_db_run [OF assms(1-3) flat_db_opened [OF assms(1-5)] this assms(6), of P] show ?thesis
    using flat_db_contents by metis
qed

text \<open>
  Two vectors stored, one replaced by a farther one; the nearest of the two comes first. A
  malformed filter is an error then, and was none while the database was empty.
\<close>

theorem flat_database_spec_witness:
  "\<exists>hits rs db'. db_run exact_engine exact_files ex_vocab
       [OSearch [7, 7] 1 (Some False), OUpsert (U64 1) [0, 0] None, OUpsert (U64 2) [7, 0] None,
        OUpsert (U64 1) [5, 5] None, OSearch [7, 7] 1 None, OSearch [7, 7] 1 (Some False)] exact_mem = Some (rs, db')
     \<and> rs = [Inr (OutHits []), Inr OutUnit, Inr OutUnit, Inr OutUnit, Inr (OutHits hits), Inl (Index InvalidFilter)]
     \<and> nearest ex_ranking Euclidean [7, 7] 1
          [U64 1 \<mapsto> ([5, 5], None), U64 2 \<mapsto> ([7, 0], None)] hits"
proof -
  let ?ops = "[OSearch [7, 7] 1 (Some False), OUpsert (U64 1) [0, 0] None, OUpsert (U64 2) [7, 0] None,
    OUpsert (U64 1) [5, 5] None, OSearch [7, 7] 1 None, OSearch [7, 7] 1 (Some False)]
    :: (demo_meta, exact_filter) db_op list"
  let ?M = "[U64 1 \<mapsto> ([5, 5], None), U64 2 \<mapsto> ([7, 0 :: f32], None :: demo_meta option)]"
  have valid: "list_all (op_valid ex_vocab) ?ops" by (simp add: ex_vocab_def)
  have swap: "[U64 1 \<mapsto> ([0, 0], None), U64 2 \<mapsto> ([7, 0], None), U64 1 \<mapsto> ([5, 5], None)] = ?M"
    by (rule ext) simp
  from flat_database_spec [OF exact_engine_laws exact_kept exact_mem_open exact_cfg_sel(3) valid, of exact_files]
  obtain rs db' where run: "db_run exact_engine exact_files ex_vocab ?ops exact_mem = Some (rs, db')"
    and len: "length rs = 6"
    and spec: "spec_run ex_ranking 2 Euclidean Map.empty (zip ?ops rs) (db_contents exact_files db')" by auto
  from len obtain r1 r2 r3 r4 r5 r6 where rs: "rs = [r1, r2, r3, r4, r5, r6]"
    by (auto simp: numeral_eq_Suc length_Suc_conv)
  have "?M \<noteq> Map.empty" by (simp add: fun_eq_iff exI [of _ "U64 1"])
  moreover have "malformed ex_ranking (Some False)" by (simp add: ex_ranking_def)
  ultimately have "\<exists>hits. rs = [Inr (OutHits []), Inr OutUnit, Inr OutUnit, Inr OutUnit, Inr (OutHits hits),
        Inl (Index InvalidFilter)] \<and> nearest ex_ranking Euclidean [7, 7] 1 ?M hits"
    using spec unfolding rs by (auto simp: swap found_def)
  with run show ?thesis by blast
qed

section \<open>Many threads\<close>

text \<open>
  C4. So is a shared one. In every reachable interleaving of any number of threads on such a
  database, the calls in the order in which they took effect, with the results they returned,
  are a history the specification allows, and what is stored is the map it ends in. A search
  that races with writes therefore returns the exact nearest vectors of one moment between its
  invocation and its response.
\<close>

theorem concurrent_flat_spec:
  assumes "engine_laws L \<alpha> ok" and "accept_laws (lib_index L) \<alpha>" and "exact_laws (lib_index L) \<alpha> V R"
    and "open_in_memory_with L cfg = Inr db" and "config_index_kind cfg = Flat"
    and "persist_field P" and "conc_reach L P V db s"
    and "list_all (op_valid V) (map fst (effects (cs_history s)))"
  shows "spec_run R (cfg_dim cfg) (cfg_metric cfg) Map.empty (effects (cs_history s)) (db_contents P (cs_db s))"
proof -
  have "readable V Map.empty" by (simp add: readable_def)
  from flat_db_run [OF assms(1-3) flat_db_opened [OF assms(1-5)] this assms(8), of P]
  obtain rs db' M' where run: "db_run L P V (map fst (effects (cs_history s))) db = Some (rs, db')"
    and spec: "spec_run R (cfg_dim cfg) (cfg_metric cfg) Map.empty
      (zip (map fst (effects (cs_history s))) rs) M'"
    and flat: "flat_db L \<alpha> ok (cfg_dim cfg) (cfg_metric cfg) M' db'" by blast
  from conc_reach_inv [OF assms(7,6)] run
  have "rs = map snd (effects (cs_history s))" "db' = cs_db s" by (simp_all add: conc_inv_def)
  with spec flat_db_contents [OF flat, of P] show ?thesis by (simp add: zip_map_fst_snd)
qed

definition exact_start :: "(exact_core, (exact_core, demo_meta) file_ps, demo_meta, exact_filter, exact_hit) conc_state" where
  "exact_start = \<lparr>cs_db = exact_mem, cs_thread = (\<lambda>_. Idle), cs_history = []\<rparr>"

text \<open>One thread has written and another has searched.\<close>

theorem concurrent_flat_spec_witness:
  "\<exists>s hits. conc_reach exact_engine exact_files ex_vocab exact_mem s
     \<and> effects (cs_history s) = [(OUpsert (U64 1) [5, 5] None, Inr OutUnit), (OSearch [7, 7] 3 None, Inr (OutHits hits))]
     \<and> nearest ex_ranking Euclidean [7, 7] 3 [U64 1 \<mapsto> ([5, 5], None)] hits"
proof -
  let ?reach = "conc_reach exact_engine exact_files ex_vocab exact_mem"
  let ?put = "OUpsert (U64 1) [5, 5] None :: (demo_meta, exact_filter) db_op"
  let ?find = "OSearch [7, 7] 3 None :: (demo_meta, exact_filter) db_op"
  have flat0: "flat_db exact_engine exact_contents (\<lambda>_. True) 2 Euclidean Map.empty exact_mem"
    using flat_db_opened [OF exact_engine_laws exact_kept exact_mem_open] by simp
  from flat_db_exec [OF exact_engine_laws exact_kept flat0, of exact_files ?put] obtain r1 db1 where
    put: "db_exec exact_engine exact_files ex_vocab ?put exact_mem = Some (r1, db1)"
    and flat1: "flat_db exact_engine exact_contents (\<lambda>_. True) 2 Euclidean [U64 1 \<mapsto> ([5, 5], None)] db1"
    by (auto simp: readable_def)
  obtain x db2 where fast: "search_fast exact_engine exact_files ex_vocab [7, 7] 3 None db1 = (x, db2)" by fastforce
  from flat1 have "\<not> core_needs_materialization (db_core exact_files db1)"
    by (auto simp: flat_db_def db_core_def core_needs_materialization_def dest: flat_core_onD(3))
  with search_fast_none [of exact_engine exact_files ex_vocab "[7, 7]" 3 None db1 db2] fast obtain r2 where
    find: "search_fast exact_engine exact_files ex_vocab [7, 7] 3 None db1 = (Some r2, db2)" by (cases x) auto
  have dim: "check_dim db1 (length [7, 7 :: f32]) = Inr ()" using flat1 by (simp add: flat_db_def check_dim_def)
  define s1 where "s1 = take_effect 1 ?put r1 db1 (set_thread 1 (Called ?put) [Invoke 1 ?put] exact_start)"
  define s2 where "s2 = take_effect 2 ?find (map_sum (\<lambda>e. e) OutHits r2) db2 (set_thread 2 (Called ?find) [Invoke 2 ?find] s1)"
  have "?reach exact_start" unfolding exact_start_def by (rule conc_reach.start)
  then have "?reach (set_thread 1 (Called ?put) [Invoke 1 ?put] exact_start)"
    by (rule conc_reach.step) (rule conc_step.call, simp add: exact_start_def)
  then have "?reach s1" unfolding s1_def
    by (rule conc_reach.step) (rule conc_step.whole, simp_all add: put exact_start_def del: db_exec.simps)
  then have "?reach (set_thread 2 (Called ?find) [Invoke 2 ?find] s1)"
    by (rule conc_reach.step) (rule conc_step.call, simp add: s1_def exact_start_def)
  then have reach: "?reach s2" unfolding s2_def
    by (rule conc_reach.step) (rule conc_step.fast, simp_all add: s1_def find dim [simplified])
  have effects: "effects (cs_history s2) = [(?put, r1), (?find, map_sum (\<lambda>e. e) OutHits r2)]"
    by (simp add: s2_def s1_def exact_start_def)
  have valid: "list_all (op_valid ex_vocab) (map fst (effects (cs_history s2)))"
    unfolding effects by (simp add: ex_vocab_def)
  have field: "persist_field exact_files" by (rule wal_lawsD(1) [OF file_wal_laws])
  from concurrent_flat_spec [OF exact_engine_laws exact_kept exact_mem_open exact_cfg_sel(3) field reach valid]
  have "\<exists>hits. effects (cs_history s2) = [(?put, Inr OutUnit), (?find, Inr (OutHits hits))]
      \<and> nearest ex_ranking Euclidean [7, 7] 3 [U64 1 \<mapsto> ([5, 5], None)] hits"
    unfolding effects by (auto simp: found_def)
  with reach show ?thesis by blast
qed

end
