(* ===== verification/Iqdb_Nearest_Crash.thy ===== *)
theory Iqdb_Nearest_Crash
  imports Iqdb_Nearest_Props Iqdb_Durability_Props
begin

text \<open>
  A file-backed database over the default index: what its process left behind when it stopped
  opens as an exact nearest-neighbour map of what was recovered.
\<close>

section \<open>The engine that opening finds\<close>

lemma flat_index_load:
  assumes laws: "engine_laws L \<alpha> ok" and exact: "exact_laws (lib_index L) \<alpha> V R"
    and run: "core_load L t bs = Some (Inr c)" and kind: "co_kind c = Flat"
  shows "flat_index L ok (co_metric c) c"
  using run
proof (cases rule: core_load_cases)
  case (1 d rest store idx idx')
  note inner = cl_wrap_inner [OF engine_lawsD(5) [OF laws]]
  from 1(5) kind have flat: "de_kind d = Flat" by simp
  with 1(3) obtain x where x: "idx = AnyFlat x" by (auto simp: any_new_def ok_iff)
  from exact_laws_metric(6) [OF exact] 1(3) flat have mt: "any_metric (lib_index L) idx = de_metric d" by simp
  from 1(4) x obtain n where "build_into (lib_index L) (store_items store) (AnyFlat x) = (Inr n, idx')" by auto
  with exact_laws_metric(5) [OF exact, of "store_items store" x] mt x
  have "any_metric (lib_index L) idx' = de_metric d" by simp
  moreover have "\<exists>y. idx' = AnyFlat y"
    using core_load_wf(1) [OF laws run] kind 1(5) inner by (cases idx') (auto simp: core_wf_def)
  ultimately show ?thesis using 1(5) inner by (simp add: flat_index_def)
qed

lemma flat_index_replay:
  assumes laws: "engine_laws L \<alpha> ok" and exact: "exact_laws (lib_index L) \<alpha> V R"
    and "flat_index L ok mt c" and "replay L rs c = Some (Inr c')"
  shows "flat_index L ok mt c'"
  using assms(3,4)
proof (induction rs arbitrary: c)
  case (Cons r rs)
  let ?step = "case r of Put i vm \<Rightarrow> core_insert L i (fst vm) (snd vm) c | Del i \<Rightarrow> core_delete L i c"
  from Cons.prems(2) obtain x c1 where step: "?step = Some (x, c1)" by (cases ?step) auto
  with Cons.prems(2) have rest: "replay L rs c1 = Some (Inr c')" by (cases x) simp_all
  have "flat_index L ok mt c1"
  proof (cases r)
    case (Put i vm)
    with step flat_index_core_insert [OF laws exact Cons.prems(1)] show ?thesis by simp
  next
    case (Del i)
    with step flat_index_core_delete [OF laws exact Cons.prems(1)] show ?thesis by simp
  qed
  from Cons.IH [OF this rest] show ?case .
qed simp

lemma replayable_set_cache:
  assumes laws: "engine_laws L \<alpha> ok" and rp: "replayable L \<alpha> ok c" and run: "core_set_cache L cache c = (r, c')"
  shows "replayable L \<alpha> ok c' \<and> (flat_index L ok mt c \<longrightarrow> flat_index L ok mt c')"
proof -
  from rp have wf: "core_wf L ok c" and sy: "core_synced L \<alpha> c" by (simp_all add: replayable_def)
  from wf have "cl_ok ok (co_index c)" by (simp add: core_wf_def)
  note spec = core_set_cache_spec [OF engine_lawsD(5) [OF laws] this run]
  from spec rp core_set_cache_wf [OF laws wf run] core_set_cache_synced(1) [OF laws wf sy run] show ?thesis
    by (auto simp: replayable_def core_untrained_eq flat_index_def)
qed

text \<open>
  Opening recoverable files: the engine inside is the snapshot with the log replayed on it,
  under a cache if one was asked for.
\<close>

lemma opened_core:
  assumes laws: "engine_laws L \<alpha> ok" and acc: "accept_laws (lib_index L) \<alpha>"
    and load: "load_law L P t disk files path (cfg_durability cfg)" and field: "persist_field P"
    and rec: "recoverable L t \<alpha> ok c A bs l" and n: "n \<le> length l"
    and run: "open_with L P path cfg (files bs l n) = Some (Inr db')"
  obtains c0 c1 p' where "core_load L t bs = Some (Inr c0)" "same_ids c0 c"
    "replay L l c0 = Some (Inr c1)" "replayable L \<alpha> ok c1" "same_ids c1 c"
    "lk_value (db_inner db') = Persisted p'"
    "ps_index P p' = c1 \<or> (\<exists>cache r. core_set_cache L cache c1 = (r, ps_index P p'))"
    "db_dim db' = co_dim c" "db_metric db' = co_metric c"
proof -
  from rec obtain c0 where c0: "core_load L t bs = Some (Inr c0)" "replayable L \<alpha> ok c0" "same_ids c0 c"
    and dims: "log_dims (co_dim c) l" by (auto simp: recoverable_def)
  from replay_log [OF laws acc c0(2), of l] dims c0(3) obtain c1 where
    c1: "replay L l c0 = Some (Inr c1)" "replayable L \<alpha> ok c1" "same_ids c1 c"
    by (auto simp: same_ids_def)
  from load_law_load [OF load c0(1) c1(1) n] obtain p1 where p1: "ps_index P p1 = c1"
    "ps_load P (persist_cfg P path (cfg_durability cfg)) (files bs l n) = Some (Inr p1)" by blast
  have ex: "ps_exists P path (files bs l n)" by (rule load_law_exists [OF load n])
  have ids: "co_dim c1 = co_dim c" "co_metric c1 = co_metric c"
    using c1(3) by (simp_all add: same_ids_def)
  have set: "ps_index P (ps_set_index P c q) = c" for c q using field by (simp add: persist_field_def)
  note opened = open_with_def config_into_parts_def Let_def ok_iff rwlock_new_def
  have "\<exists>p'. lk_value (db_inner db') = Persisted p' \<and> db_dim db' = co_dim c \<and> db_metric db' = co_metric c
      \<and> (ps_index P p' = c1 \<or> (\<exists>cache r. core_set_cache L cache c1 = (r, ps_index P p')))"
  proof (cases "cc_cache (cfg_core cfg)")
    case None
    with run ex p1 ids show ?thesis by (auto simp: opened split: if_splits sum.splits)
  next
    case (Some cache)
    obtain r c' where sc: "core_set_cache L (Some cache) c1 = (r, c')" by fastforce
    with Some run ex p1 ids have "lk_value (db_inner db') = Persisted (ps_set_index P c' p1)"
      "db_dim db' = co_dim c" "db_metric db' = co_metric c"
      by (auto simp: opened split: if_splits sum.splits)
    with sc set show ?thesis by metis
  qed
  with c0 c1 that show thesis by blast
qed

section \<open>Reopening\<close>

lemma reopened_flat:
  assumes laws: "engine_laws L \<alpha> ok" and acc: "accept_laws (lib_index L) \<alpha>"
    and exact: "exact_laws (lib_index L) \<alpha> V R" and wal: "wal_laws L P disk"
    and load: "load_law L P t disk files path (cfg_durability cfg)"
    and rec: "recoverable L t \<alpha> ok c A bs l" and hd: "header_fits L t c" and fits: "allowed_fits L t (co_dim c) A"
    and n: "n \<le> length l" and kind: "co_kind c = Flat"
    and dim: "cfg_dim cfg \<noteq> 0" "cfg_dim cfg = co_dim c" "cfg_metric cfg = co_metric c"
  shows "\<exists>db' p'. open_with L P path cfg (files bs l n) = Some (Inr db') \<and> within (db_contents P db') A
    \<and> lk_value (db_inner db') = Persisted p'
    \<and> flat_db L \<alpha> ok (co_dim c) (co_metric c) (db_contents P db') (in_mem P db')"
proof -
  have "is_ok (any_new (lib_index L) Flat (co_dim c) (co_metric c))"
    using hd kind by (simp add: header_fits_def)
  with open_existing [OF laws acc wal load rec hd fits n] dim obtain res where
    res: "open_with L P path cfg (files bs l n) = Some res" "is_ok res"
      "\<And>db'. res = Inr db' \<Longrightarrow> within (db_contents P db') A" by auto
  then obtain db' where db': "res = Inr db'" by (cases res) auto
  from opened_core [OF laws acc load wal_lawsD(1) [OF wal] rec n] res(1) db' obtain c0 c1 p' where
    c0: "core_load L t bs = Some (Inr c0)" "same_ids c0 c"
    and c1: "replay L l c0 = Some (Inr c1)" "replayable L \<alpha> ok c1" "same_ids c1 c"
    and here': "lk_value (db_inner db') = Persisted p'"
    and core: "ps_index P p' = c1 \<or> (\<exists>cache r. core_set_cache L cache c1 = (r, ps_index P p'))"
    and ids: "db_dim db' = co_dim c" "db_metric db' = co_metric c" by metis
  let ?mt = "co_metric c"
  have "flat_index L ok ?mt c0"
    using flat_index_load [OF laws exact c0(1)] c0(2) kind by (simp add: same_ids_def)
  from flat_index_replay [OF laws exact this c1(1)] have flat: "flat_index L ok ?mt c1" .
  let ?c = "ps_index P p'"
  have "same_ids ?c c \<and> replayable L \<alpha> ok ?c \<and> flat_index L ok ?mt ?c"
    using core
  proof
    assume "\<exists>cache r. core_set_cache L cache c1 = (r, ?c)"
    then obtain cache r where sc: "core_set_cache L cache c1 = (r, ?c)" by blast
    from core_set_cache_frame [OF sc] c1(3) replayable_set_cache [OF laws c1(2) sc] flat show ?thesis
      by (auto simp: core_frame_def same_ids_def)
  qed (use c1 flat in simp)
  then have "flat_core_on L \<alpha> ok (co_dim c) ?mt (core_contents ?c) ?c"
    using kind by (auto simp: flat_core_on_def replays_def same_ids_def flat_index_def)
  then have "flat_db L \<alpha> ok (co_dim c) ?mt (db_contents P db') (in_mem P db')"
    using here' ids by (simp add: flat_db_def db_core_def)
  with res db' here' show ?thesis by blast
qed

text \<open>
  C5. A crash does not cost exactness. Take a file-backed database over a flat index through any
  life and stop its process, between two calls or in the middle of any call, leaving any log
  that the fsync policy of the session permits. As long as what may be stored is within the
  limits of the file format, reopening it under its dimension and metric, with or without a
  cache, succeeds, and finds under every identifier something its writes allow; and from
  there on the database is again an exact nearest-neighbour map: in any sequence of calls whose
  writes and checkpoints the files take, every result is the one the specification gives from
  the recovered contents, so that each search returns the nearest of what was recovered and
  written since, or refuses a malformed filter.
\<close>

theorem reopened_flat_spec:
  assumes laws: "engine_laws L \<alpha> ok" and acc: "accept_laws (lib_index L) \<alpha>"
    and exact: "exact_laws (lib_index L) \<alpha> V R" and wal: "wal_laws L P disk"
    and load: "\<forall>dur. usable dur \<longrightarrow> load_law L P t disk files path dur"
    and life: "db_life L P V t disk files path usable dur db A"
    and here: "lk_value (db_inner db) = Persisted p" and left: "left_behind L P disk (db_dim db) call p bs l n"
    and room: "call \<noteq> None \<Longrightarrow> allowed_fits L t (db_dim db) (call_effect (db_dim db) call A)"
    and valid: "all_valid V (call_effect (db_dim db) call A)" and us: "usable (cfg_durability cfg)"
    and same: "cfg_dim cfg = db_dim db" "cfg_metric cfg = db_metric db"
    and kind: "co_kind (db_core P db) = Flat"
  shows "\<exists>db'. open_with L P path cfg (files bs l n) = Some (Inr db')
    \<and> within (db_contents P db') (call_effect (db_dim db) call A)
    \<and> (\<forall>ops rs db''. db_run L P V ops db' = Some (rs, db'') \<and> list_all (op_valid V) ops
          \<and> (\<forall>(op, r) \<in> set (zip ops rs). touches_files op \<longrightarrow> is_ok r) \<longrightarrow>
        spec_run R (db_dim db) (db_metric db) (db_contents P db') (zip ops rs) (db_contents P db''))"
proof -
  let ?B = "call_effect (db_dim db) call A"
  from db_life_durable [OF life laws acc wal load] same(1)
  have dur: "durable_db L P t disk \<alpha> ok (du_fsync dur) A db" and nz: "cfg_dim cfg \<noteq> 0" by auto
  note kept = left_behind_db [OF laws acc dur here left]
  have fits: "allowed_fits L t (db_dim db) ?B" using room kept(5) by (cases call) simp_all
  have k: "co_kind (ps_index P p) = Flat" using kind here by (simp add: db_core_def)
  from load us have "load_law L P t disk files path (cfg_durability cfg)" by blast
  from reopened_flat [OF laws acc exact wal this kept(8,2) _ kept(1) k nz] kept(3,4) fits same obtain db' p' where
    db': "open_with L P path cfg (files bs l n) = Some (Inr db')" "within (db_contents P db') ?B"
      "lk_value (db_inner db') = Persisted p'"
    and flat: "flat_db L \<alpha> ok (db_dim db) (db_metric db) (db_contents P db') (in_mem P db')" by auto
  have readable: "readable V (db_contents P db')"
    using valid db'(2) unfolding readable_def all_valid_def within_def by metis
  have "spec_run R (db_dim db) (db_metric db) (db_contents P db') (zip ops rs) (db_contents P db'')"
    if run: "db_run L P V ops db' = Some (rs, db'')" and ops: "list_all (op_valid V) ops"
      and ack: "\<forall>(op, r) \<in> set (zip ops rs). touches_files op \<longrightarrow> is_ok r" for ops rs db''
  proof -
    from run_in_mem [OF wal db'(3) run ack] have "db_run L P V ops (in_mem P db') = Some (rs, in_mem P db'')" by blast
    with flat_db_run [OF laws acc exact flat readable ops, of P] obtain M where
      "spec_run R (db_dim db) (db_metric db) (db_contents P db') (zip ops rs) M"
      "flat_db L \<alpha> ok (db_dim db) (db_metric db) M (in_mem P db'')" by auto
    with flat_db_contents [of L \<alpha> ok "db_dim db" "db_metric db" M "in_mem P db''" P] show ?thesis by simp
  qed
  with db'(1,2) show ?thesis by blast
qed

section \<open>A file-backed database\<close>

abbreviation exact_life where
  "exact_life \<equiv> db_life exact_engine exact_files ex_vocab Ptr64 file_disk file_left () (\<lambda>_. True) (cfg_durability exact_cfg)"

lemma exact_always: "du_fsync (cfg_durability exact_cfg) = Always"
  by (simp add: exact_cfg_def config_defs default_durability_def)

lemma exact_created:
  obtains c p where "open_with exact_engine exact_files () exact_cfg None
      = Some (Inr \<lparr>db_dim = 2, db_metric = Euclidean, db_inner = rwlock_new (Persisted p)\<rparr>)"
    "fp_core p = c" "flat_core_on exact_engine exact_contents (\<lambda>_. True) 2 Euclidean Map.empty c"
proof -
  from exact_mem_open obtain c where new: "core_new exact_engine 2 Euclidean (cfg_core exact_cfg) = Inr c"
      "\<lparr>db_dim = 2, db_metric = Euclidean, db_inner = rwlock_new (Memory c)\<rparr> = exact_mem"
    by (auto simp: open_in_memory_with_def config_into_parts_def ok_iff)
  with flat_db_opened [OF exact_engine_laws exact_kept exact_mem_open exact_cfg_sel(3)]
  have c: "core_new exact_engine 2 Euclidean (cfg_core exact_cfg) = Inr c"
    "flat_core_on exact_engine exact_contents (\<lambda>_. True) 2 Euclidean Map.empty c"
    unfolding new(2) [symmetric] by (simp_all add: flat_db_def rwlock_new_def)
  from c(1) have ids: "co_dim c = 2" "co_metric c = Euclidean" "co_kind c = Flat"
    "is_ok (any_new exact_lib Flat 2 Euclidean)" "co_store c = store_new"
    using exact_cfg_sel(3) by (auto simp: core_new_def ok_iff config_index_kind_def)
  then have st: "storable exact_engine Ptr64 c" by (simp add: storable_def store_inv_new store_contents_new)
  have "core_len c \<le> usize_max Ptr64" by (simp add: ids(5) core_len_def store_len_def store_new_def)
  from encode_fits [OF storable_fits [OF st this]] obtain w where w: "core_save exact_engine c buffer = (Inr (), w)"
    by (simp add: core_save_def)
  let ?pcfg = "persist_cfg exact_files () (cfg_durability exact_cfg)"
  let ?p = "fp_open c (wr_out w) [] ?pcfg"
  have "ps_open_with exact_files c ?pcfg None = Inr ?p" by (simp add: file_persist_def w)
  then have "open_with exact_engine exact_files () exact_cfg None
      = Some (Inr \<lparr>db_dim = 2, db_metric = Euclidean, db_inner = rwlock_new (Persisted ?p)\<rparr>)"
    using c(1) by (simp add: open_with_def config_into_parts_def require_nonzero_dim_def Let_def)
  with c(2) show thesis by (intro that [of ?p c]) simp_all
qed

text \<open>One vector written since it was created.\<close>

lemma exact_life_written:
  obtains db p where "exact_life db demo_allowed" "lk_value (db_inner db) = Persisted p"
    "db_dim db = 2" "db_metric db = Euclidean" "co_kind (db_core exact_files db) = Flat"
proof -
  from exact_created obtain c p where
    open0: "open_with exact_engine exact_files () exact_cfg None
      = Some (Inr \<lparr>db_dim = 2, db_metric = Euclidean, db_inner = rwlock_new (Persisted p)\<rparr>)"
    and c: "fp_core p = c" "flat_core_on exact_engine exact_contents (\<lambda>_. True) 2 Euclidean Map.empty c" .
  let ?db = "\<lparr>db_dim = 2, db_metric = Euclidean, db_inner = rwlock_new (Persisted p)\<rparr>"
  let ?op = "OUpsert (U64 1) [0, 0] None :: (demo_meta, exact_filter) db_op"
  have life: "exact_life ?db (exactly Map.empty)"
    by (rule db_life.created [where fs = None, OF _ open0]) simp_all
  have len: "length [0, 0 :: f32] = 2" by simp
  from flat_insert [OF exact_engine_laws exact_kept c(2) len, of "U64 1" None] obtain c1 where
    c1: "core_insert exact_engine (U64 1) [0, 0] None c = Some (Inr (), c1)"
      "flat_core_on exact_engine exact_contents (\<lambda>_. True) 2 Euclidean [U64 1 \<mapsto> ([0, 0], None)] c1" by blast
  let ?p1 = "(fp_logged (Put (U64 1) ([0, 0], None)) p)\<lparr>fp_core := c1\<rparr>"
  let ?db1 = "db_set (Persisted ?p1) ?db"
  have "ps_insert exact_files (U64 1) [0, 0] None p = Some (Inr (), ?p1)"
    using c1(1) by (simp add: file_persist_def fp_write_def c(1))
  then have exec: "db_exec exact_engine exact_files ex_vocab ?op ?db = Some (Inr OutUnit, ?db1)"
    by (simp add: db_upsert_def check_dim_def db_write_panicking_eq rwlock_new_def)
  have "possible demo_allowed = {U64 1}" by (auto simp: possible_def demo_allowed_at)
  then have "allowed_fits exact_engine Ptr64 2 demo_allowed"
    by (auto simp: allowed_fits_def demo_allowed_at row_fits_def split: if_splits)
  with db_life.used [OF life exec] have "exact_life ?db1 demo_allowed" by (simp add: demo_allowed_def exact_always)
  moreover have "co_kind c1 = Flat" using c1(2) by (simp add: flat_core_on_def)
  ultimately show thesis by (intro that [of ?db1 ?p1]) (simp_all add: db_core_def)
qed

text \<open>The vector is found again in the reopened database, at its distance from the query.\<close>

theorem reopened_flat_spec_witness:
  "\<exists>(p :: (exact_core, demo_meta) file_ps) db' hits db''.
     open_with exact_engine exact_files () exact_cfg (Some (fp_snapshot p, fp_log p)) = Some (Inr db')
     \<and> db_run exact_engine exact_files ex_vocab [OSearch [7, 7] 3 None] db' = Some ([Inr (OutHits hits)], db'')
     \<and> nearest ex_ranking Euclidean [7, 7] 3 [U64 1 \<mapsto> ([0, 0], None)] hits"
proof -
  from exact_life_written obtain db p where life: "exact_life db demo_allowed"
    and here: "lk_value (db_inner db) = Persisted p" and ids: "db_dim db = 2" "db_metric db = Euclidean"
    and kind: "co_kind (db_core exact_files db) = Flat" .
  let ?op = "OSearch [7, 7] 3 None :: (demo_meta, exact_filter) db_op"
  let ?none = "None :: (demo_meta, exact_filter) db_op option"
  have valid: "all_valid ex_vocab (call_effect (db_dim db) ?none demo_allowed)"
    by (simp add: all_valid_def ex_vocab_def)
  have load: "\<forall>dur. True \<longrightarrow> load_law exact_engine exact_files Ptr64 file_disk file_left () dur"
    by (simp add: file_load_law)
  have left: "left_behind exact_engine exact_files file_disk (db_dim db) ?none p (fp_snapshot p) (fp_log p)
      (length (fp_log p))"
    by (simp add: left_behind_def file_disk_def survives_def)
  have same: "cfg_dim exact_cfg = db_dim db" "cfg_metric exact_cfg = db_metric db" by (simp_all add: ids)
  from reopened_flat_spec [OF exact_engine_laws exact_kept file_wal_laws load life here left _ valid TrueI same kind]
  obtain db' where db': "open_with exact_engine exact_files () exact_cfg (Some (fp_snapshot p, fp_log p)) = Some (Inr db')"
      "within (db_contents exact_files db') demo_allowed"
    and spec: "\<And>rs db''. db_run exact_engine exact_files ex_vocab [?op] db' = Some (rs, db'') \<Longrightarrow>
        \<forall>(op, r) \<in> set (zip [?op] rs). touches_files op \<longrightarrow> is_ok r \<Longrightarrow>
        spec_run ex_ranking 2 Euclidean (db_contents exact_files db') (zip [?op] rs) (db_contents exact_files db'')"
    unfolding ids by auto
  have M: "db_contents exact_files db' = [U64 1 \<mapsto> ([0, 0], None)]"
    using db'(2) by (auto simp: within_def demo_allowed_at fun_eq_iff split: if_splits)
  obtain r db'' where run: "search_inner exact_engine exact_files ex_vocab [7, 7] 3 None db' = (r, db'')" by fastforce
  then have run1: "db_run exact_engine exact_files ex_vocab [?op] db' = Some ([map_sum (\<lambda>e. e) OutHits r], db'')" by simp
  from spec [OF run1] obtain hits where hits: "r = Inr hits"
    "nearest ex_ranking Euclidean [7, 7] 3 [U64 1 \<mapsto> ([0, 0], None)] hits"
    by (cases r) (auto simp: M found_def)
  from run1 have "db_run exact_engine exact_files ex_vocab [?op] db' = Some ([Inr (OutHits hits)], db'')"
    unfolding hits(1) map_sum.simps .
  with db'(1) hits(2) show ?thesis by blast
qed

end
