(* ===== verification/Iqdb_Search_Tests.thy ===== *)
theory Iqdb_Search_Tests
  imports Iqdb_Engine_Tests Iqdb_Nearest_Crash Iqdb_Async_Props
begin

text \<open>
  The crate's own tests that search a flat index (in the \<open>tests\<close> modules of engine/index.rs,
  engine/mod.rs, handle.rs and async_db.rs), run on the model. They pass over every index
  library with an exact flat index (\<open>exact_laws\<close>), under a ranking for which the vector the
  test expects is the nearer one.
\<close>

section \<open>The nearest of a few\<close>

lemma nearest_first:
  assumes near: "nearest R mt q k M hits" and "0 < k" and fin: "finite (dom M)" and here: "M i = Some (v, m)"
    and nearer: "\<And>j w n. M j = Some (w, n) \<Longrightarrow> j \<noteq> i \<Longrightarrow> rk_dist R mt q v < rk_dist R mt q w"
  shows "\<exists>h hs. hits = h # hs \<and> rk_id R h = i"
proof -
  from here fin have "card (dom M) \<noteq> 0" by (metis card_0_eq domI emptyE)
  with near assms(2) have "hits \<noteq> []" by (auto simp: nearest_def)
  then obtain h hs where hits: "hits = h # hs" by (cases hits) auto
  from near have entry: "\<exists>w n. M (rk_id R g) = Some (w, n) \<and> rk_distance R g = rk_dist R mt q w" if "g \<in> set hits" for g
    using that by (simp add: nearest_def)
  have far: "rk_id R g = i \<or> rk_dist R mt q v < rk_distance R g" if "g \<in> set hits" for g
    using entry [OF that] nearer by metis
  have "\<exists>g \<in> set hits. rk_id R g = i"
  proof (rule ccontr)
    assume no: "\<not> (\<exists>g \<in> set hits. rk_id R g = i)"
    then have "i \<notin> rk_id R ` set hits" by auto
    with near here hits have "rk_distance R h \<le> rk_dist R mt q v" unfolding nearest_def by force
    with far [of h] no hits show False by auto
  qed
  then obtain g where g: "g \<in> set hits" "rk_id R g = i" by blast
  with entry [OF g(1)] here have "rk_distance R g = rk_dist R mt q v" by auto
  moreover have "rk_distance R h \<le> rk_distance R g"
    using near g(1) hits by (auto simp: nearest_def)
  ultimately have "rk_id R h = i" using far [of h] hits by auto
  with hits show ?thesis by blast
qed

text \<open>Two vectors, the first of them nearer.\<close>

lemma nearest_of_two:
  assumes near: "nearest R mt q k [a \<mapsto> (v, m), b \<mapsto> (w, n)] hits" and k: "0 < k" and ids: "a \<noteq> b"
    and nearer: "rk_dist R mt q v < rk_dist R mt q w"
  shows "\<exists>h hs. hits = h # hs \<and> rk_id R h = a" and "k = 2 \<Longrightarrow> map (rk_id R) hits = [a, b]"
proof -
  show first: "\<exists>h hs. hits = h # hs \<and> rk_id R h = a"
    by (rule nearest_first [OF near k]) (use ids nearer in \<open>auto split: if_splits\<close>)
  assume "k = 2"
  with near ids have len: "length hits = 2" and dist: "distinct (map (rk_id R) hits)"
    and in_map: "\<And>h. h \<in> set hits \<Longrightarrow> rk_id R h \<in> {a, b}"
    by (auto simp: nearest_def card_insert_if split: if_splits)
  from len obtain h g where "hits = [h, g]" by (auto simp: numeral_eq_Suc length_Suc_conv)
  with first dist in_map [of g] show "map (rk_id R) hits = [a, b]" by auto
qed

definition f32_tenth :: f32 where "f32_tenth = 0x3DCCCCCD"
definition f32_10 :: f32 where "f32_10 = 0x41200000"

text \<open>Search parameters as \<open>SearchParams::new\<close> makes them have no filter.\<close>

definition unfiltered :: "('p, 'flt) vocabulary \<Rightarrow> bool" where
  "unfiltered V \<longleftrightarrow> (\<forall>k mt. params_filter_update V None (params_new V k mt) = params_new V k mt)"

section \<open>The index\<close>

definition test_flat_index ::
    "('fl, 'hn, 'iv, 'm, 'p, 'h, 'z) index_lib \<Rightarrow> ('p, 'flt) vocabulary \<Rightarrow> ('h, 'flt, 'm, 'd) ranking
      \<Rightarrow> ('fl, 'hn, 'iv) any_index option" where
  "test_flat_index I V R = do {
     idx \<leftarrow> unwrap (any_new I Flat 2 Euclidean);
     check (\<not> any_needs_training I idx);
     let (res, idx) = any_insert I (U64 1) [0, 0] None idx;
     unwrap res;
     let (res, idx) = any_insert I (U64 2) [f32_3, f32_4] None idx;
     unwrap res;
     let (res, idx) = any_search I [0, 0] (params_new V 1 Euclidean) idx;
     hits \<leftarrow> unwrap res;
     h \<leftarrow> vec_index hits 0;
     check (rk_id R h = U64 1);
     Some idx
   }"

text \<open>A flat index with what it holds, and what the calls do to it.\<close>

definition flat_on ::
    "('fl, 'hn, 'iv, 'm, 'p, 'h, 'z) index_lib \<Rightarrow> (('fl, 'hn, 'iv) any_index \<Rightarrow> 'm index_contents)
      \<Rightarrow> usize \<Rightarrow> metric \<Rightarrow> 'm index_contents \<Rightarrow> ('fl, 'hn, 'iv) any_index \<Rightarrow> bool" where
  "flat_on I \<alpha> d mt M x \<longleftrightarrow>
     (\<exists>y. x = AnyFlat y) \<and> any_dim I x = d \<and> any_metric I x = mt \<and> \<alpha> x = M"

lemma flat_on_new:
  assumes "library_laws I \<alpha>" and "accept_laws I \<alpha>" and "exact_laws I \<alpha> V R" and "any_new I Flat d mt = Inr x"
  shows "flat_on I \<alpha> d mt Map.empty x"
proof -
  from assms(4) have "\<exists>y. x = AnyFlat y" by (auto simp: any_new_def ok_iff)
  moreover have "any_dim I x = d" using assms(2,4) unfolding accept_laws_def by blast
  moreover have "\<alpha> x = Map.empty" using assms(1,4) by (auto simp: library_laws_def new_laws_def)
  ultimately show ?thesis using exact_laws_metric(6) [OF assms(3,4)] by (simp add: flat_on_def)
qed

lemma flat_on_insert:
  assumes lib: "library_laws I \<alpha>" and acc: "accept_laws I \<alpha>" and exact: "exact_laws I \<alpha> V R"
    and on: "flat_on I \<alpha> d mt M x" and "length v = d" and "M i = None"
  obtains x' where "any_insert I i v m x = (Inr (), x')" "flat_on I \<alpha> d mt (M(i \<mapsto> (v, m))) x'"
proof -
  obtain r x' where run: "any_insert I i v m x = (r, x')" by fastforce
  from on obtain y where y: "x = AnyFlat y" "any_dim I x = d" "any_metric I x = mt" "\<alpha> x = M"
    by (auto simp: flat_on_def)
  have "any_dim I (snd (any_insert I i v m x)) = any_dim I x \<and> (\<not> any_needs_training I x \<and> length v = any_dim I x
      \<and> \<alpha> x i = None \<longrightarrow> is_ok (fst (any_insert I i v m x)))"
    using acc unfolding accept_laws_def by blast
  with run y assms(5,6) have dim: "any_dim I x' = d" and r: "is_ok r" by simp_all
  from lib have "index_laws (any_core I) \<alpha>" by (simp add: library_laws_def)
  from index_laws_insert [OF this, of i v m x r x'] run y(4) assms(6) r have "\<alpha> x' = M(i \<mapsto> (v, m))" by simp
  moreover have "any_metric I x' = mt"
    using exact_laws_metric(1) [OF exact, of i v m y] run y(1,3) by (simp del: any_insert.simps)
  moreover have "\<exists>z. x' = AnyFlat z" using run y(1) by (auto simp: apsnd_eq)
  ultimately have "flat_on I \<alpha> d mt (M(i \<mapsto> (v, m))) x'" using dim by (simp add: flat_on_def)
  with run is_ok_unit [OF r] show thesis by (intro that) simp_all
qed

lemma flat_on_search:
  assumes exact: "exact_laws I \<alpha> V R" and "unfiltered V" and on: "flat_on I \<alpha> d mt M x" and "length q = d" and "0 < k"
    and "M \<noteq> Map.empty"
  obtains hits x' where "any_search I q (params_new V k mt) x = (Inr hits, x')" "nearest R mt q k M hits"
proof -
  from on obtain y where y: "x = AnyFlat y" "any_dim I x = d" "any_metric I x = mt" "\<alpha> x = M"
    by (auto simp: flat_on_def)
  obtain r y' where run: "ix_search (flat_core I) q (params_new V k mt) y = (r, y')" by fastforce
  from assms(2) have "params_filter_update V None (params_new V k mt) = params_new V k mt" by (simp add: unfiltered_def)
  moreover from exact_laws_search [OF exact assms(5), of q y mt None] y assms(4)
  have "\<exists>hits. fst (ix_search (flat_core I) q (params_filter_update V None (params_new V k mt)) y) = Inr hits
      \<and> nearest R mt q k M hits" using assms(6) by (simp add: found_def)
  ultimately obtain hits where "r = Inr hits" "nearest R mt q k M hits" using y run by auto
  with run y(1) show thesis by (intro that [of hits "AnyFlat y'"]) simp_all
qed

lemma test_flat_index_passes:
  assumes "library_laws I \<alpha>" and "accept_laws I \<alpha>" and exact: "exact_laws I \<alpha> V R" and V: "unfiltered V"
    and new: "is_ok (any_new I Flat 2 Euclidean)"
    and nearer: "rk_dist R Euclidean [0, 0] [0, 0] < rk_dist R Euclidean [0, 0] [f32_3, f32_4]"
  shows "test_flat_index I V R \<noteq> None"
proof -
  from new obtain x0 where x0: "any_new I Flat 2 Euclidean = Inr x0" by (auto simp: is_ok_iff)
  note on0 = flat_on_new [OF assms(1-3) x0]
  from flat_on_insert [OF assms(1-3) on0, of "[0, 0]" "U64 1" None] obtain x1 where
    x1: "any_insert I (U64 1) [0, 0] None x0 = (Inr (), x1)" "flat_on I \<alpha> 2 Euclidean [U64 1 \<mapsto> ([0, 0], None)] x1" by auto
  from flat_on_insert [OF assms(1-3) x1(2), of "[f32_3, f32_4]" "U64 2" None] obtain x2 where
    x2: "any_insert I (U64 2) [f32_3, f32_4] None x1 = (Inr (), x2)"
      "flat_on I \<alpha> 2 Euclidean [U64 1 \<mapsto> ([0, 0], None), U64 2 \<mapsto> ([f32_3, f32_4], None)] x2" by auto
  from flat_on_search [OF exact V x2(2), of "[0, 0]" 1] obtain hits x3 where
    x3: "any_search I [0, 0] (params_new V 1 Euclidean) x2 = (Inr hits, x3)"
    and near: "nearest R Euclidean [0, 0] 1 [U64 1 \<mapsto> ([0, 0], None), U64 2 \<mapsto> ([f32_3, f32_4], None)] hits" by auto
  from nearest_of_two(1) [OF near] nearer obtain h hs where "hits = h # hs" "rk_id R h = U64 1" by auto
  moreover have "\<not> any_needs_training I x0" using on0 by (auto simp: flat_on_def)
  ultimately show ?thesis
    using x0 x1(1) x2(1) x3 by (simp add: test_flat_index_def vec_index_def)
qed

section \<open>The engine\<close>

definition save_load ::
    "('fl, 'hn, 'iv, 'cx, 'cc, 'cs, 'm, 'p, 'h, 'z) core_lib \<Rightarrow> target
      \<Rightarrow> ('fl, 'hn, 'iv, 'cx, 'cc, 'm) iqdb_core \<Rightarrow> ('fl, 'hn, 'iv, 'cx, 'cc, 'm) iqdb_core option" where
  "save_load L t c = do {
     let (res, bytes) = core_save L c buffer;
     unwrap res;
     loaded \<leftarrow> core_load L t (wr_out bytes);
     unwrap loaded
   }"

definition test_core_round_trip ::
    "('fl, 'hn, 'iv, 'cx, 'cc, 'cs, 'm, 'p, 'h, 'z) core_lib \<Rightarrow> target \<Rightarrow> ('p, 'flt) vocabulary
      \<Rightarrow> ('h, 'flt, 'm, 'd) ranking \<Rightarrow> ('fl, 'hn, 'iv, 'cx, 'cc, 'm) iqdb_core option" where
  "test_core_round_trip L t V R = do {
     c \<leftarrow> test_core L Flat 2 Euclidean;
     (res, c) \<leftarrow> core_insert L (U64 1) [0, 0] None c;
     unwrap res;
     (res, c) \<leftarrow> core_insert L (U64 2) [f32_3, f32_4] None c;
     unwrap res;
     check (core_len c = 2);
     let (res, c) = core_search L [0, 0] (params_new V 1 Euclidean) c;
     hits \<leftarrow> unwrap res;
     h \<leftarrow> vec_index hits 0;
     check (rk_id R h = U64 1);
     restored \<leftarrow> save_load L t c;
     check (core_len restored = 2);
     check (core_dim restored = 2);
     check (core_metric restored = Euclidean);
     let (res, restored) = core_search L [0, 0] (params_new V 1 Euclidean) restored;
     hits \<leftarrow> unwrap res;
     h \<leftarrow> vec_index hits 0;
     check (rk_id R h = U64 1);
     Some restored
   }"

lemma test_core_flat:
  assumes "engine_laws L \<alpha> ok" and "accept_laws (lib_index L) \<alpha>" and "exact_laws (lib_index L) \<alpha> V R"
    and "is_ok (any_new (lib_index L) Flat d mt)"
  obtains c where "test_core L Flat d mt = Some c" "flat_core_on L \<alpha> ok d mt Map.empty c" "co_metric c = mt"
proof -
  from assms(4) obtain c where c: "core_new L d mt \<lparr>cc_index = Flat, cc_cache = None\<rparr> = Inr c"
    by (auto simp: core_new_def is_ok_iff)
  then have "co_metric c = mt" by (auto simp: core_new_def ok_iff)
  with core_new_flat [OF assms(1-3) c] c show thesis by (intro that) (simp_all add: test_core_def)
qed

text \<open>Saving and loading such an engine gives another one with the same contents.\<close>

lemma save_load_flat:
  assumes laws: "engine_laws L \<alpha> ok" and acc: "accept_laws (lib_index L) \<alpha>"
    and exact: "exact_laws (lib_index L) \<alpha> V R" and c: "flat_core_on L \<alpha> ok d mt M c" and mt: "co_metric c = mt"
    and st: "storable L t c" and len: "core_len c \<le> usize_max t"
  obtains c0 where "save_load L t c = Some c0" "flat_core_on L \<alpha> ok d mt M c0" "co_metric c0 = mt"
proof -
  obtain w where w: "core_save L c buffer = (Inr (), w)"
    by (simp add: core_save_def encode_fits [OF storable_fits [OF st len]])
  from load_saved [OF laws acc st len, of "wr_out w"] w obtain c0 where
    c0: "core_load L t (wr_out w) = Some (Inr c0)" "replayable L \<alpha> ok c0" "core_contents c0 = core_contents c"
      "co_dim c0 = co_dim c" "co_metric c0 = co_metric c" "co_kind c0 = co_kind c" by auto
  from c have kind: "co_kind c = Flat" and "co_dim c = d" "core_contents c = M"
    by (simp_all add: flat_core_on_def replays_def)
  moreover from flat_index_load [OF laws exact c0(1)] c0(5,6) kind mt
  have "any_metric (lib_index L) (core_index L c0) = mt" by (simp add: flat_index_def)
  ultimately have "flat_core_on L \<alpha> ok d mt M c0" using c0(2-4,6) by (simp add: flat_core_on_def replays_def)
  with w c0(1,5) mt show thesis by (intro that) (simp_all add: save_load_def)
qed

lemma flat_core_find:
  assumes laws: "engine_laws L \<alpha> ok" and exact: "exact_laws (lib_index L) \<alpha> V R" and V: "unfiltered V"
    and c: "flat_core_on L \<alpha> ok d mt M c" and "length q = d" and "0 < k" and "M \<noteq> Map.empty"
  obtains hits c' where "core_search L q (params_new V k mt) c = (Inr hits, c')" "nearest R mt q k M hits"
    "flat_core_on L \<alpha> ok d mt M c'" "core_frame c c'"
proof -
  obtain r c' where run: "core_search L q (params_new V k mt) c = (r, c')" by fastforce
  from V have "params_new V k mt = params_filter_update V None (params_new V k mt)" by (simp add: unfiltered_def)
  from flat_search(2) [OF laws exact c run this assms(6,5,7)] obtain hits where
    "r = Inr hits" "nearest R mt q k M hits" by (auto simp: found_def)
  with run flat_search(1) [OF laws exact c run] core_search_frame [OF run] show thesis by (intro that) simp_all
qed

lemma test_core_round_trip_passes:
  assumes laws: "engine_laws L \<alpha> ok" and acc: "accept_laws (lib_index L) \<alpha>"
    and exact: "exact_laws (lib_index L) \<alpha> V R" and V: "unfiltered V"
    and new: "is_ok (any_new (lib_index L) Flat 2 Euclidean)"
    and nearer: "rk_dist R Euclidean [0, 0] [0, 0] < rk_dist R Euclidean [0, 0] [f32_3, f32_4]"
  shows "test_core_round_trip L t V R \<noteq> None"
proof -
  let ?on = "flat_core_on L \<alpha> ok 2 Euclidean" and ?q = "[0, 0] :: vec"
  let ?M = "[U64 1 \<mapsto> ([0, 0], None), U64 2 \<mapsto> ([f32_3, f32_4], None)]"
  from test_core_flat [OF laws acc exact new] obtain c0 where
    c0: "test_core L Flat 2 Euclidean = Some c0" "?on Map.empty c0" "co_metric c0 = Euclidean" .
  from flat_insert [OF laws acc exact c0(2), of "[0, 0]" "U64 1" None] obtain c1 where
    c1: "core_insert L (U64 1) [0, 0] None c0 = Some (Inr (), c1)" "?on [U64 1 \<mapsto> ([0, 0], None)] c1" by auto
  from flat_insert [OF laws acc exact c1(2), of "[f32_3, f32_4]" "U64 2" None] obtain c2 where
    c2: "core_insert L (U64 2) [f32_3, f32_4] None c1 = Some (Inr (), c2)" "?on ?M c2" by auto
  have len: "core_len c = 2" if "?on ?M c" for c
    using that replays_reads(1) [of L \<alpha> ok 2 ?M c] by (simp add: flat_core_on_def)
  from flat_core_find [OF laws exact V c2(2), of ?q 1] obtain hits c3 where
    c3: "core_search L ?q (params_new V 1 Euclidean) c2 = (Inr hits, c3)" "nearest R Euclidean ?q 1 ?M hits"
      "?on ?M c3" "core_frame c2 c3" by auto
  have mt: "co_metric c3 = Euclidean"
    using core_insert_ids [OF c1(1)] core_insert_ids [OF c2(1)] c0(3) c3(4) by (simp add: core_frame_def)
  have "2 \<le> usize_max t" by (cases t) simp_all
  moreover from this have "core_len c3 \<le> usize_max t" using len [OF c3(3)] by simp
  moreover have "storable L t c3"
    using flat_core_onD(1,4) [OF c3(3)] c3(3) mt new calculation(1)
    by (auto simp: storable_def core_wf_def flat_core_on_def replays_def row_fits_def split: if_splits)
  ultimately obtain c4 where c4: "save_load L t c3 = Some c4" "?on ?M c4" "co_metric c4 = Euclidean"
    using save_load_flat [OF laws acc exact c3(3) mt] by blast
  from flat_core_find [OF laws exact V c4(2), of ?q 1] obtain hits' c5 where
    c5: "core_search L ?q (params_new V 1 Euclidean) c4 = (Inr hits', c5)" "nearest R Euclidean ?q 1 ?M hits'"
      "?on ?M c5" "core_frame c4 c5" by auto
  from nearest_of_two(1) [OF c3(2)] nearest_of_two(1) [OF c5(2)] nearer obtain h hs h' hs' where
    "hits = h # hs" "rk_id R h = U64 1" "hits' = h' # hs'" "rk_id R h' = U64 1" by auto
  moreover have "core_dim c4 = 2" using c4(2) by (simp add: flat_core_on_def replays_def)
  ultimately show ?thesis
    using c0(1) c1(1) c2(1) len [OF c2(2)] c3(1) c4(1,3) len [OF c4(2)] c5(1)
    by (simp add: test_core_round_trip_def vec_index_def)
qed

text \<open>
  What the cache test expects of a cache: it counts a hit when it answers a search it has
  answered before, and starts with none.
\<close>

definition count_laws ::
    "('i, 'cx, 'cc, 'cs, 'm, 'p, 'h, 'z) cache_lib \<Rightarrow> ('cs \<Rightarrow> usize) \<Rightarrow> ('cx \<Rightarrow> vec \<Rightarrow> 'p \<Rightarrow> bool) \<Rightarrow> bool" where
  "count_laws C hits known \<longleftrightarrow>
     (\<forall>x cfg q p. hits (cx_stats C (cx_with_config C x cfg)) = 0 \<and> \<not> known (cx_with_config C x cfg) q p)
     \<and> (\<forall>q p y r y'. ix_search (cx_core C) q p y = (r, y') \<longrightarrow>
          hits (cx_stats C y') = (if known y q p then Suc (hits (cx_stats C y)) else hits (cx_stats C y))
          \<and> (is_ok r \<longrightarrow> known y' q p))"

lemma index_call_plain:
  "core_index_insert L i v m c = (r, c') \<Longrightarrow> co_index c = Plain x \<Longrightarrow> \<exists>x'. co_index c' = Plain x'"
  "core_index_delete L i c = (r', c') \<Longrightarrow> co_index c = Plain x \<Longrightarrow> \<exists>x'. co_index c' = Plain x'"
  by (auto simp: core_index_insert_def core_index_delete_def apsnd_eq split: prod.splits)

lemma core_insert_plain:
  assumes "core_insert L i v m c = Some (r, c')" and "co_index c = Plain x"
  shows "\<exists>x'. co_index c' = Plain x'"
  using assms(1)
proof (cases rule: core_insert_cases)
  case (fresh st)
  with index_call_plain(1) [OF fresh(3)] assms(2) show ?thesis by simp
next
  case (stuck st e)
  with index_call_plain(2) [OF stuck(3)] assms(2) show ?thesis by simp
next
  case (replaced st c1)
  with index_call_plain(2) [OF replaced(3)] index_call_plain(1) [OF replaced(4)] assms(2) show ?thesis by auto
qed (use assms(2) in simp)

definition test_set_cache ::
    "('fl, 'hn, 'iv, 'cx, 'cc, 'cs, 'm, 'p, 'h, 'z) core_lib \<Rightarrow> ('p, 'flt) vocabulary \<Rightarrow> ('cs \<Rightarrow> usize) \<Rightarrow> 'cc
      \<Rightarrow> ('fl, 'hn, 'iv, 'cx, 'cc, 'm) iqdb_core option" where
  "test_set_cache L V hits capacity_16 = do {
     c \<leftarrow> test_core L Flat 2 Cosine;
     (res, c) \<leftarrow> core_insert L (U64 1) [f32_1, 0] None c;
     unwrap res;
     check (core_cache_stats L c = None);
     let (res, c) = core_set_cache L (Some capacity_16) c;
     unwrap res;
     check (core_cache_stats L c \<noteq> None);
     let params = params_new V 1 Cosine;
     let (res, c) = core_search L [f32_1, 0] params c;
     unwrap res;
     let (res, c) = core_search L [f32_1, 0] params c;
     unwrap res;
     stats \<leftarrow> core_cache_stats L c;
     check (hits stats = 1);
     check (core_len c = 1);
     Some c
   }"

text \<open>A search through a cache.\<close>

lemma cached_search:
  assumes "count_laws (lib_cache L) hits known" and "co_index c = Cached y" and "core_search L q p c = (Inr r, c')"
  shows "\<exists>y'. co_index c' = Cached y' \<and> known y' q p
    \<and> hits (cx_stats (lib_cache L) y') = (if known y q p then Suc else id) (hits (cx_stats (lib_cache L) y))"
proof -
  from assms(2,3) obtain y' where "ix_search (cx_core (lib_cache L)) q p y = (Inr r, y')" "co_index c' = Cached y'"
    by (auto simp: core_search_def apsnd_eq)
  with assms(1) show ?thesis unfolding count_laws_def by force
qed

lemma test_set_cache_passes:
  assumes laws: "engine_laws L \<alpha> ok" and acc: "accept_laws (lib_index L) \<alpha>"
    and exact: "exact_laws (lib_index L) \<alpha> V R" and V: "unfiltered V"
    and new: "is_ok (any_new (lib_index L) Flat 2 Cosine)" and counts: "count_laws (lib_cache L) hits known"
  shows "test_set_cache L V hits capacity_16 \<noteq> None"
proof -
  let ?on = "flat_core_on L \<alpha> ok 2 Cosine" and ?q = "[f32_1, 0]" and ?p = "params_new V 1 Cosine"
  let ?M = "[U64 1 \<mapsto> ([f32_1, 0], None)]"
  from test_core_flat [OF laws acc exact new] obtain c0 where
    c0: "test_core L Flat 2 Cosine = Some c0" "?on Map.empty c0" "co_metric c0 = Cosine" .
  from flat_insert [OF laws acc exact c0(2), of ?q "U64 1" None] obtain c1 where
    c1: "core_insert L (U64 1) ?q None c0 = Some (Inr (), c1)" "?on ?M c1" by auto
  have plain: "core_cache_stats L c1 = None"
  proof -
    obtain x where "co_index c0 = Plain x"
      using c0(1) by (auto simp: test_core_def unwrap_def core_new_def cl_wrap_def ok_iff split: sum.splits)
    with core_insert_plain [OF c1(1)] show ?thesis by (auto simp: core_cache_stats_def)
  qed
  have ids: "co_dim c1 = 2" "co_metric c1 = Cosine"
    using core_insert_ids [OF c1(1)] c0(2,3) by (simp_all add: flat_core_on_def replays_def)
  obtain r c2 where sc: "core_set_cache L (Some capacity_16) c1 = (r, c2)" by fastforce
  from sc new ids have r: "r = Inr ()" and y2: "co_index c2 = Cached (cx_with_config (lib_cache L)
      (cl_into_inner (lib_cache L) (co_index c1)) capacity_16)"
    by (auto simp: core_set_cache_def is_ok_iff cl_wrap_def)
  from c1(2) have "replayable L \<alpha> ok c1" by (simp add: flat_core_on_def replays_def)
  from replayable_set_cache [OF laws this sc] flat_core_on_index [OF c1(2)] core_set_cache_frame [OF sc] c1(2)
  have c2: "?on ?M c2" by (auto simp: flat_core_on_def replays_def flat_index_def core_frame_def)
  from flat_core_find [OF laws exact V c2, of ?q 1] obtain h3 c3 where
    c3: "core_search L ?q ?p c2 = (Inr h3, c3)" "nearest R Cosine ?q 1 ?M h3" "?on ?M c3" "core_frame c2 c3" by auto
  from flat_core_find [OF laws exact V c3(3), of ?q 1] obtain h4 c4 where
    c4: "core_search L ?q ?p c3 = (Inr h4, c4)" "nearest R Cosine ?q 1 ?M h4" "?on ?M c4" "core_frame c3 c4" by auto
  from cached_search [OF counts y2 c3(1)] counts obtain y3 where y3: "co_index c3 = Cached y3" "known y3 ?q ?p"
    "hits (cx_stats (lib_cache L) y3) = 0" by (auto simp: count_laws_def)
  from cached_search [OF counts y3(1) c4(1)] y3(2,3) obtain y4 where
    "co_index c4 = Cached y4" "hits (cx_stats (lib_cache L) y4) = 1" by auto
  moreover have "core_len c4 = 1"
    using c4(3) replays_reads(1) [of L \<alpha> ok 2 ?M c4] by (simp add: flat_core_on_def)
  ultimately show ?thesis
    using c0(1) c1(1) plain sc r y2 c3(1) c4(1)
    by (simp add: test_set_cache_def core_cache_stats_def)
qed

section \<open>The handle\<close>

definition test_search_empty ::
    "('fl, 'hn, 'iv, 'cx, 'cc, 'cs, 'm, 'p, 'h, 'z) core_lib
      \<Rightarrow> ('fl, 'hn, 'iv, 'cx, 'cc, 'm, 'ps, 'pa, 'x, 'fs) persistence \<Rightarrow> ('p, 'flt) vocabulary
      \<Rightarrow> ('fl, 'hn, 'iv, 'cx, 'cc, 'm, 'ps) database option" where
  "test_search_empty L P V = do {
     db \<leftarrow> unwrap (open_in_memory L 2 Cosine);
     q \<leftarrow> vec2 V f32_1 0;
     let (res, db) = db_search L P V q 5 db;
     hits \<leftarrow> unwrap res;
     check (hits = []);
     Some db
   }"

definition test_search_order ::
    "('fl, 'hn, 'iv, 'cx, 'cc, 'cs, 'm, 'p, 'h, 'z) core_lib
      \<Rightarrow> ('fl, 'hn, 'iv, 'cx, 'cc, 'm, 'ps, 'pa, 'x, 'fs) persistence \<Rightarrow> ('p, 'flt) vocabulary
      \<Rightarrow> ('h, 'flt, 'm, 'd) ranking \<Rightarrow> ('fl, 'hn, 'iv, 'cx, 'cc, 'm, 'ps) database option" where
  "test_search_order L P V R = do {
     db \<leftarrow> unwrap (open_in_memory L 2 Euclidean);
     v \<leftarrow> vec2 V 0 0;
     (res, db) \<leftarrow> db_upsert L P (U64 1) v None db;
     unwrap res;
     v \<leftarrow> vec2 V f32_10 f32_10;
     (res, db) \<leftarrow> db_upsert L P (U64 2) v None db;
     unwrap res;
     q \<leftarrow> vec2 V f32_tenth f32_tenth;
     let (res, db) = db_search L P V q 2 db;
     hits \<leftarrow> unwrap res;
     h \<leftarrow> vec_index hits 0;
     check (rk_id R h = U64 1);
     h \<leftarrow> vec_index hits 1;
     check (rk_id R h = U64 2);
     Some db
   }"

text \<open>An in-memory database over a flat index, and what its calls do.\<close>

lemma open_flat_db:
  assumes "engine_laws L \<alpha> ok" and "accept_laws (lib_index L) \<alpha>" and "exact_laws (lib_index L) \<alpha> V R"
    and "is_ok (any_new (lib_index L) Flat d mt)" and "d \<noteq> 0"
  obtains db where "open_in_memory L d mt = Inr db" "flat_db L \<alpha> ok d mt Map.empty db"
    "db_contents P db = Map.empty"
proof -
  from default_core_replays [OF assms(1,2,4)] obtain c where "core_new L d mt default_core_config = Inr c" .
  note op = open_mem_on [OF this assms(5)]
  then have "open_in_memory_with L (config_new d mt) = Inr (mem_on d mt c)" by (simp add: open_in_memory_def)
  from flat_db_opened [OF assms(1-3) this] have on: "flat_db L \<alpha> ok d mt Map.empty (mem_on d mt c)"
    by (simp add: config_defs)
  from that [OF op on flat_db_contents [OF on]] show thesis .
qed

lemma flat_db_put:
  assumes laws: "engine_laws L \<alpha> ok" and acc: "accept_laws (lib_index L) \<alpha>"
    and exact: "exact_laws (lib_index L) \<alpha> V R" and db: "flat_db L \<alpha> ok d mt M db" and "length v = d"
  obtains db' where "db_upsert L P i v m db = Some (Inr (), db')" "flat_db L \<alpha> ok d mt (M(i \<mapsto> (v, m))) db'"
proof -
  from db obtain c where ids: "db_dim db = d" "db_metric db = mt" and c: "lk_value (db_inner db) = Memory c"
    "flat_core_on L \<alpha> ok d mt M c" by (auto simp: flat_db_def)
  from flat_insert [OF laws acc exact c(2) assms(5), of i m] obtain c' where
    "core_insert L i v m c = Some (Inr (), c')" "flat_core_on L \<alpha> ok d mt (M(i \<mapsto> (v, m))) c'" .
  with ids c(1) assms(5) show thesis
    by (intro that [of "db_set (Memory c') db"])
      (simp_all add: db_upsert_def check_dim_def db_write_panicking_eq flat_db_def)
qed

lemma flat_db_find:
  assumes "engine_laws L \<alpha> ok" and "exact_laws (lib_index L) \<alpha> V R" and "flat_db L \<alpha> ok d mt M db"
    and "length q = d" and "0 < k"
  obtains hits db' where "db_search L P V q k db = (Inr hits, db')" "nearest R mt q k M hits"
    "flat_db L \<alpha> ok d mt M db'"
proof -
  obtain r db' where run: "search_inner L P V q k None db = (r, db')" by fastforce
  from flat_db_search [OF assms(1-3) run] assms(4,5) obtain hits where
    "r = Inr hits" "nearest R mt q k M hits" "flat_db L \<alpha> ok d mt M db'"
    by (cases r; cases "M = Map.empty") (auto simp: found_def nearest_empty)
  with run show thesis by (intro that) (simp_all add: db_search_def)
qed

lemma test_search_empty_passes:
  assumes "engine_laws L \<alpha> ok" and "accept_laws (lib_index L) \<alpha>" and "exact_laws (lib_index L) \<alpha> V R"
    and "is_ok (any_new (lib_index L) Flat 2 Cosine)" and "vector_new V [f32_1, 0] = Inr [f32_1, 0]"
  shows "test_search_empty L P V \<noteq> None"
proof -
  from open_flat_db [OF assms(1-4), where P = P] obtain db where
    db: "open_in_memory L 2 Cosine = Inr db" "flat_db L \<alpha> ok 2 Cosine Map.empty db" "db_contents P db = Map.empty"
    by auto
  from flat_db_find [OF assms(1,3) db(2), where q = "[f32_1, 0]" and k = 5 and P = P] obtain hits db' where
    "db_search L P V [f32_1, 0] 5 db = (Inr hits, db')" "nearest R Cosine [f32_1, 0] 5 Map.empty hits"
      "flat_db L \<alpha> ok 2 Cosine Map.empty db'" by auto
  with db(1) assms(5) show ?thesis by (simp add: test_search_empty_def vec2_def nearest_def)
qed

lemma test_search_order_passes:
  assumes laws: "engine_laws L \<alpha> ok" and acc: "accept_laws (lib_index L) \<alpha>"
    and exact: "exact_laws (lib_index L) \<alpha> V R" and new: "is_ok (any_new (lib_index L) Flat 2 Euclidean)"
    and vecs: "vector_new V [0, 0] = Inr [0, 0]" "vector_new V [f32_10, f32_10] = Inr [f32_10, f32_10]"
      "vector_new V [f32_tenth, f32_tenth] = Inr [f32_tenth, f32_tenth]"
    and nearer: "rk_dist R Euclidean [f32_tenth, f32_tenth] [0, 0]
      < rk_dist R Euclidean [f32_tenth, f32_tenth] [f32_10, f32_10]"
  shows "test_search_order L P V R \<noteq> None"
proof -
  let ?on = "flat_db L \<alpha> ok 2 Euclidean" and ?q = "[f32_tenth, f32_tenth]"
  let ?M = "[U64 1 \<mapsto> ([0, 0], None), U64 2 \<mapsto> ([f32_10, f32_10], None)]"
  from open_flat_db [OF laws acc exact new, where P = P] obtain db0 where
    db0: "open_in_memory L 2 Euclidean = Inr db0" "?on Map.empty db0" "db_contents P db0 = Map.empty" by auto
  from flat_db_put [OF laws acc exact db0(2), where v = "[0, 0]" and P = P and i = "U64 1" and m = None] obtain db1 where
    db1: "db_upsert L P (U64 1) [0, 0] None db0 = Some (Inr (), db1)" "?on [U64 1 \<mapsto> ([0, 0], None)] db1" by auto
  from flat_db_put [OF laws acc exact db1(2), where v = "[f32_10, f32_10]" and P = P and i = "U64 2" and m = None] obtain db2 where
    db2: "db_upsert L P (U64 2) [f32_10, f32_10] None db1 = Some (Inr (), db2)" "?on ?M db2" by auto
  from flat_db_find [OF laws exact db2(2), where q = ?q and k = 2 and P = P] obtain hits db3 where
    db3: "db_search L P V ?q 2 db2 = (Inr hits, db3)" "nearest R Euclidean ?q 2 ?M hits" "?on ?M db3" by auto
  from nearest_of_two(2) [OF db3(2)] nearer have "map (rk_id R) hits = [U64 1, U64 2]" by simp
  then obtain h g where "hits = [h, g]" "rk_id R h = U64 1" "rk_id R g = U64 2" by auto
  with db0(1) db1(1) db2(1) db3(1) vecs show ?thesis
    by (simp add: test_search_order_def vec2_def vec_index_def)
qed

section \<open>The async adapter\<close>

text \<open>The tasks of the tests run on any pool that returns what its tasks return.\<close>

definition test_async_crud ::
    "(error + unit, ('fl, 'hn, 'iv, 'cx, 'cc, 'm, 'ps) database) pool_spawner
      \<Rightarrow> (error + (vec \<times> 'm option) option, ('fl, 'hn, 'iv, 'cx, 'cc, 'm, 'ps) database) pool_spawner
      \<Rightarrow> (error + 'h list, ('fl, 'hn, 'iv, 'cx, 'cc, 'm, 'ps) database) pool_spawner
      \<Rightarrow> (error + bool, ('fl, 'hn, 'iv, 'cx, 'cc, 'm, 'ps) database) pool_spawner
      \<Rightarrow> (error + unit, (('fl, 'hn, 'iv, 'cx, 'cc, 'm) iqdb_core, 'ps) storage
           + ('fl, 'hn, 'iv, 'cx, 'cc, 'm, 'ps) database arc option) spawner
      \<Rightarrow> ('fl, 'hn, 'iv, 'cx, 'cc, 'cs, 'm, 'p, 'h, 'z) core_lib
      \<Rightarrow> ('fl, 'hn, 'iv, 'cx, 'cc, 'm, 'ps, 'pa, 'x, 'fs) persistence \<Rightarrow> ('p, 'flt) vocabulary
      \<Rightarrow> ('h, 'flt, 'm, 'd) ranking
      \<Rightarrow> ((('fl, 'hn, 'iv, 'cx, 'cc, 'm) iqdb_core, 'ps) storage
           + ('fl, 'hn, 'iv, 'cx, 'cc, 'm, 'ps) database arc option) option" where
  "test_async_crud sp_unit sp_row sp_hits sp_bool sp_close L P V R = do {
     db \<leftarrow> unwrap (async_open_in_memory L 2 Euclidean);
     check (async_is_empty P db);
     v \<leftarrow> vec2 V 0 0;
     (res, db) \<leftarrow> async_upsert sp_unit L P (U64 1) v None db;
     unwrap res;
     v \<leftarrow> vec2 V f32_3 f32_4;
     (res, db) \<leftarrow> async_upsert sp_unit L P (U64 2) v None db;
     unwrap res;
     check (async_len P db = 2);
     (res, db) \<leftarrow> async_get sp_row P V (U64 2) db;
     found \<leftarrow> unwrap res;
     (got, _) \<leftarrow> found;
     check (got = [f32_3, f32_4]);
     q \<leftarrow> vec2 V f32_tenth f32_tenth;
     (res, db) \<leftarrow> async_search sp_hits L P V q 1 db;
     hits \<leftarrow> unwrap res;
     h \<leftarrow> vec_index hits 0;
     check (rk_id R h = U64 1);
     (res, db) \<leftarrow> async_delete sp_bool L P (U64 1) db;
     existed \<leftarrow> unwrap res;
     check existed;
     check (async_len P db = 1);
     (res, left) \<leftarrow> async_close sp_close P db;
     unwrap res;
     Some left
   }"

text \<open>A clone is a second reference to the same database.\<close>

definition test_async_clone ::
    "(error + unit, ('fl, 'hn, 'iv, 'cx, 'cc, 'm, 'ps) database) pool_spawner
      \<Rightarrow> ('fl, 'hn, 'iv, 'cx, 'cc, 'cs, 'm, 'p, 'h, 'z) core_lib
      \<Rightarrow> ('fl, 'hn, 'iv, 'cx, 'cc, 'm, 'ps, 'pa, 'x, 'fs) persistence \<Rightarrow> ('p, 'flt) vocabulary
      \<Rightarrow> ('fl, 'hn, 'iv, 'cx, 'cc, 'm, 'ps) database async_iqdb option" where
  "test_async_clone sp_unit L P V = do {
     db \<leftarrow> unwrap (async_open_in_memory L 2 Cosine);
     let shared = async_clone db;
     v \<leftarrow> vec2 V f32_1 0;
     (res, shared) \<leftarrow> async_upsert sp_unit L P (U64 1) v None shared;
     unwrap res;
     check (async_len P shared = 1);
     Some shared
   }"

definition test_async_zero_dim ::
    "('fl, 'hn, 'iv, 'cx, 'cc, 'cs, 'm, 'p, 'h, 'z) core_lib
      \<Rightarrow> (error + ('fl, 'hn, 'iv, 'cx, 'cc, 'm, 'ps) database async_iqdb) option" where
  "test_async_zero_dim L = do {
     let opened = async_open_in_memory L 0 Cosine;
     check (\<not> is_ok opened);
     Some opened
   }"

lemma test_async_zero_dim_passes: "test_async_zero_dim L \<noteq> None"
  by (simp add: test_async_zero_dim_def Let_def async_open_in_memory_def open_in_memory_def
      open_in_memory_with_def config_into_parts_def config_new_def require_nonzero_dim_def)

lemma flat_db_reads:
  assumes on: "flat_db L \<alpha> ok d mt M db"
  shows "db_len P db = card (dom M)" and "db_is_empty P db \<longleftrightarrow> M = Map.empty"
    and "M i = Some (v, m) \<Longrightarrow> vector_new V v = Inr v \<Longrightarrow> db_get P V db i = Some (Inr (Some (v, m)))"
proof -
  from on obtain c where c: "lk_value (db_inner db) = Memory c" "flat_core_on L \<alpha> ok d mt M c"
    by (auto simp: flat_db_def)
  note D = flat_core_onD [OF c(2)]
  have core: "db_core P db = c" using c(1) by (simp add: db_core_def)
  have inv: "store_inv (co_store (db_core P db))" using D(1) core by (simp add: core_wf_def)
  show "db_len P db = card (dom M)"
    using store_len_card [OF inv] D(4) by (simp add: db_len_def core core_len_def)
  show "db_is_empty P db \<longleftrightarrow> M = Map.empty"
    using D(4) D(5) by (simp add: db_is_empty_def core core_is_empty_def store_is_empty_iff)
  show "db_get P V db i = Some (Inr (Some (v, m)))" if "M i = Some (v, m)" "vector_new V v = Inr v"
    using db_get_contents [OF inv, of V i] that D(4) core by simp
qed

lemma flat_db_drop:
  assumes laws: "engine_laws L \<alpha> ok" and acc: "accept_laws (lib_index L) \<alpha>"
    and exact: "exact_laws (lib_index L) \<alpha> V R" and db: "flat_db L \<alpha> ok d mt M db"
  obtains db' where "db_delete L P i db = Some (Inr (i \<in> dom M), db')" "flat_db L \<alpha> ok d mt (M(i := None)) db'"
proof -
  from db obtain c where ids: "db_dim db = d" "db_metric db = mt" and c: "lk_value (db_inner db) = Memory c"
    "flat_core_on L \<alpha> ok d mt M c" by (auto simp: flat_db_def)
  from flat_delete [OF laws acc exact c(2), of i] obtain c' where
    "core_delete L i c = Some (Inr (), c')" "flat_core_on L \<alpha> ok d mt (M(i := None)) c'" .
  with ids c(1) replays_reads(2) [of L \<alpha> ok d M c i] c(2) show thesis
    by (intro that [of "db_set (Memory c') db"])
      (simp_all add: db_delete_def db_write_panicking_eq flat_db_def flat_core_on_def)
qed

text \<open>The calls through a handle.\<close>

lemma owned_calls:
  "spawn_law sp_unit \<Longrightarrow> db_upsert L P i v m db = Some (u, db') \<Longrightarrow>
     async_upsert sp_unit L P i v m (owned n db) = Some (u, owned n db')"
  "spawn_law sp_bool \<Longrightarrow> db_delete L P i db = Some (b, db') \<Longrightarrow>
     async_delete sp_bool L P i (owned n db) = Some (b, owned n db')"
  "spawn_law sp_row \<Longrightarrow> db_get P V db i = Some x \<Longrightarrow> async_get sp_row P V i (owned n db) = Some (x, owned n db)"
  "spawn_law sp_hits \<Longrightarrow> db_search L P V q k db = (h, db') \<Longrightarrow>
     async_search sp_hits L P V q k (owned n db) = Some (h, owned n db')"
  "async_len P (owned n db) = db_len P db" "async_is_empty P (owned n db) \<longleftrightarrow> db_is_empty P db"
  by (simp_all add: async_upsert_def async_delete_def async_get_def async_search_def async_len_def
      async_is_empty_def offload_owned) (simp_all add: owned_def)

lemma close_sole:
  "spawn_law sp \<Longrightarrow> lk_value (db_inner db) = Memory c \<Longrightarrow>
     async_close sp P (owned 0 db) = Some (Inr (), Inl (Memory c))"
  by (simp add: close_owned db_close_def)

lemma test_async_crud_passes:
  assumes laws: "engine_laws L \<alpha> ok" and acc: "accept_laws (lib_index L) \<alpha>"
    and exact: "exact_laws (lib_index L) \<alpha> V R" and new: "is_ok (any_new (lib_index L) Flat 2 Euclidean)"
    and pool: "spawn_law sp_unit" "spawn_law sp_row" "spawn_law sp_hits" "spawn_law sp_bool" "spawn_law sp_close"
    and vecs: "vector_new V [0, 0] = Inr [0, 0]" "vector_new V [f32_3, f32_4] = Inr [f32_3, f32_4]"
      "vector_new V [f32_tenth, f32_tenth] = Inr [f32_tenth, f32_tenth]"
    and nearer: "rk_dist R Euclidean [f32_tenth, f32_tenth] [0, 0]
      < rk_dist R Euclidean [f32_tenth, f32_tenth] [f32_3, f32_4]"
  shows "test_async_crud sp_unit sp_row sp_hits sp_bool sp_close L P V R \<noteq> None"
proof -
  let ?on = "flat_db L \<alpha> ok 2 Euclidean" and ?q = "[f32_tenth, f32_tenth]"
  let ?M = "[U64 1 \<mapsto> ([0, 0], None), U64 2 \<mapsto> ([f32_3, f32_4], None)]"
  from open_flat_db [OF laws acc exact new, where P = P] obtain db0 where
    db0: "open_in_memory L 2 Euclidean = Inr db0" "?on Map.empty db0" "db_contents P db0 = Map.empty" by auto
  then have opened: "async_open_in_memory L 2 Euclidean = Inr (owned 0 db0)"
    by (simp add: async_open_in_memory_def owned_def arc_new_def)
  from flat_db_put [OF laws acc exact db0(2), where v = "[0, 0]" and P = P and i = "U64 1" and m = None] obtain db1 where
    db1: "db_upsert L P (U64 1) [0, 0] None db0 = Some (Inr (), db1)" "?on [U64 1 \<mapsto> ([0, 0], None)] db1" by auto
  from flat_db_put [OF laws acc exact db1(2), where v = "[f32_3, f32_4]" and P = P and i = "U64 2" and m = None] obtain db2
    where db2: "db_upsert L P (U64 2) [f32_3, f32_4] None db1 = Some (Inr (), db2)" "?on ?M db2" by auto
  from flat_db_find [OF laws exact db2(2), where q = ?q and k = 1 and P = P] obtain hits db3 where
    db3: "db_search L P V ?q 1 db2 = (Inr hits, db3)" "nearest R Euclidean ?q 1 ?M hits" "?on ?M db3" by auto
  from flat_db_drop [OF laws acc exact db3(3), where P = P and i = "U64 1"] obtain db4 where
    db4: "db_delete L P (U64 1) db3 = Some (Inr True, db4)" "?on (?M(U64 1 := None)) db4" by auto
  from nearest_of_two(1) [OF db3(2)] nearer obtain h hs where hits: "hits = h # hs" "rk_id R h = U64 1" by auto
  have get: "db_get P V db2 (U64 2) = Some (Inr (Some ([f32_3, f32_4], None)))"
    by (rule flat_db_reads(3) [OF db2(2)]) (simp_all add: vecs)
  have len: "db_len P db2 = 2" "db_len P db4 = 1"
    by (simp_all add: flat_db_reads(1) [OF db2(2)] flat_db_reads(1) [OF db4(2)])
  from db4(2) obtain c where c: "lk_value (db_inner db4) = Memory c" by (auto simp: flat_db_def)
  note calls = owned_calls(1) [OF pool(1) db1(1)] owned_calls(1) [OF pool(1) db2(1)] owned_calls(3) [OF pool(2) get]
    owned_calls(4) [OF pool(3) db3(1)] owned_calls(2) [OF pool(4) db4(1)] close_sole [OF pool(5) c] owned_calls(5,6)
  show ?thesis
    by (simp add: test_async_crud_def vec2_def vec_index_def opened flat_db_reads(2) [OF db0(2)] calls [simplified]
        vecs len hits)
qed

lemma test_async_clone_passes:
  assumes laws: "engine_laws L \<alpha> ok" and acc: "accept_laws (lib_index L) \<alpha>"
    and exact: "exact_laws (lib_index L) \<alpha> V R" and new: "is_ok (any_new (lib_index L) Flat 2 Cosine)"
    and pool: "spawn_law sp_unit" and vec: "vector_new V [f32_1, 0] = Inr [f32_1, 0]"
  shows "test_async_clone sp_unit L P V \<noteq> None"
proof -
  from open_flat_db [OF laws acc exact new, where P = P] obtain db0 where
    db0: "open_in_memory L 2 Cosine = Inr db0" "flat_db L \<alpha> ok 2 Cosine Map.empty db0"
      "db_contents P db0 = Map.empty" by auto
  from flat_db_put [OF laws acc exact db0(2), where v = "[f32_1, 0]" and P = P and i = "U64 1" and m = None]
  obtain db1 where
    db1: "db_upsert L P (U64 1) [f32_1, 0] None db0 = Some (Inr (), db1)"
      "flat_db L \<alpha> ok 2 Cosine [U64 1 \<mapsto> ([f32_1, 0], None)] db1" by auto
  have len: "db_len P db1 = 1" by (simp add: flat_db_reads(1) [OF db1(2)])
  have shared: "async_clone \<lparr>ai_inner = arc_new db0\<rparr> = owned 1 db0" using owned_clones [of 1 db0] by simp
  show ?thesis
    by (simp add: test_async_clone_def async_open_in_memory_def db0(1) vec2_def vec Let_def async_upsert_def
        shared offload_owned [OF pool] db1(1) [simplified] owned_calls(5) len [simplified])
qed

section \<open>On a concrete library\<close>

lemma search_tests_on_exact:
  "test_flat_index exact_lib ex_vocab ex_ranking \<noteq> None"
  "test_core_round_trip exact_engine Ptr64 ex_vocab ex_ranking \<noteq> None"
  "test_search_empty exact_engine exact_files ex_vocab \<noteq> None"
  "test_async_clone direct_spawn exact_engine exact_files ex_vocab \<noteq> None"
proof -
  have lib: "library_laws exact_lib exact_contents" by (rule exact_library_laws)
  have acc: "accept_laws exact_lib exact_contents" by (rule exact_accept_laws)
  have exact: "exact_laws exact_lib exact_contents ex_vocab ex_ranking" by (rule exact_exact_laws)
  have plain: "unfiltered ex_vocab" by (simp add: unfiltered_def ex_vocab_def)
  have opens: "is_ok (any_new exact_lib Flat d mt)" for d mt
    by (simp add: any_new_def exact_lib_def ex_new_def)
  have opens': "is_ok (any_new (lib_index exact_engine) Flat d mt)" for d mt by (simp add: opens)
  have nearer: "rk_dist ex_ranking Euclidean [0, 0] [0, 0] < rk_dist ex_ranking Euclidean [0, 0] [f32_3, f32_4]"
    by (simp add: ex_ranking_def ex_distance_def f32_3_def f32_4_def)
  have vec: "vector_new ex_vocab v = Inr v" for v by (simp add: ex_vocab_def)
  show "test_flat_index exact_lib ex_vocab ex_ranking \<noteq> None"
    by (rule test_flat_index_passes [OF lib acc exact plain opens nearer])
  show "test_core_round_trip exact_engine Ptr64 ex_vocab ex_ranking \<noteq> None"
    by (rule test_core_round_trip_passes [OF exact_engine_laws exact_kept plain opens' nearer])
  show "test_search_empty exact_engine exact_files ex_vocab \<noteq> None"
    by (rule test_search_empty_passes [OF exact_engine_laws exact_kept opens' vec])
  show "test_async_clone direct_spawn exact_engine exact_files ex_vocab \<noteq> None"
    by (rule test_async_clone_passes [OF exact_engine_laws exact_kept opens' direct_spawn_law vec])
qed

end
