(* ===== verification/Spec2Isabelle.thy ===== *)
theory Spec2Isabelle
  imports Iqdb_Codec_Props Iqdb_Core_Snapshot Iqdb_Crash_Props Iqdb_Lock_Props Iqdb_Async_Props
    Iqdb_Engine_Tests Iqdb_Handle_Cache Iqdb_Search_Tests
begin

text \<open>
  A verification library for the embedded vector database \<open>iqdb\<close> (the crate under src/src).

  The program. A database fixes a dimension and a distance metric and stores vectors with
  optional metadata under identifiers. Its heart is the core engine \<open>IqdbCore\<close>
  (engine/mod.rs): an authoritative row store (engine/store.rs), a derived search index that
  dispatches to one of three index families (engine/index.rs), an optional result cache
  around the index, and a payload codec (engine/codec.rs) through which the store is saved
  and rebuilt. The public handle (handle.rs) puts the engine behind a lock, in memory or
  inside a snapshot plus write-ahead log; config.rs holds its options, error.rs its errors,
  async_db.rs an adapter that runs it on a thread pool.

  What is a parameter. The index families, the bulk builder, the cache, the metadata map, the
  conversion between error types, the persisted index with its file system, the vector
  vocabulary and the task pool live in other crates. They are records of functions
  (\<open>index_lib\<close>, \<open>cache_lib\<close>, \<open>meta_lib\<close>, \<open>core_lib\<close>, \<open>persist_lib\<close>, \<open>vocabulary\<close>) that the definitions take as
  arguments; what the code relies on is stated as predicates on these records
  (\<open>meta_laws\<close>, \<open>index_laws\<close>, \<open>ivf_laws\<close>, \<open>build_laws\<close>, \<open>new_laws\<close>, \<open>cache_laws\<close>,
  together \<open>engine_laws\<close>; \<open>accept_laws\<close>, \<open>wal_laws\<close>, \<open>load_law\<close> for durability; \<open>exact_laws\<close>,
  that a flat index answers with the nearest vectors it holds, and refuses a malformed filter;
  \<open>pool_law\<close>, that a task returns what its closure returns), and \<open>Iqdb_Meta_Instance\<close>,
  \<open>Iqdb_Lib_Instance\<close>, \<open>Iqdb_Persist_Instance\<close> and \<open>Iqdb_Exact_Instance\<close> give concrete functions
  that satisfy them, on which the witnesses run.

  Conventions. A \<open>Result\<close> is a sum with the error on the left; a panic is \<open>None\<close>; a mutable
  receiver is a state that is returned; a search returns the index it leaves, because a cache
  counts hits behind a shared reference. Floating-point numbers are their bit patterns, on
  which neither the codec nor the engine computes. \<open>usize\<close> is a natural number, bounded by
  the \<open>target\<close> where the code converts it.

  The theories.
  \<^item> \<open>Iqdb_Prelude\<close>, \<open>Iqdb_Bytes\<close>, \<open>Iqdb_Types\<close>: machine types, the error combinators, vector
    accesses that can panic, little-endian bytes, UTF-8 strings, the shared vocabulary.
  \<^item> \<open>Iqdb_Io\<close>: readers and writers, and the interfaces \<open>reader\<close>, \<open>wire\<close> and \<open>closed_wire\<close>
    of a wire format, with what follows for any format (round trip, truncation, short writes,
    sequences).
  \<^item> \<open>Iqdb_Codec\<close> is the codec; \<open>Iqdb_Codec_Format\<close> shows that each of its parts is a wire
    format, \<open>Iqdb_Codec_Sound\<close> that each accepts only what it can write back,
    \<open>Iqdb_Codec_Portable\<close> compares platforms and classifies the encoder's errors, and
    \<open>Iqdb_Codec_Props\<close> states the properties.
  \<^item> \<open>Iqdb_Map_Spec\<close>: the abstract specification, a finite map changed by writes, as the
    interface \<open>keyed_store\<close>; \<open>Iqdb_Store\<close>: the row store, which implements it.
  \<^item> \<open>Iqdb_Config\<close>: config.rs.
  \<^item> \<open>Iqdb_Index\<close>: \<open>AnyIndex\<close> and \<open>CacheLayer\<close>; \<open>Iqdb_Index_Laws\<close>: the contracts of the
    parameters, and that the dispatching layers keep them.
  \<^item> \<open>Iqdb_Core\<close>: \<open>IqdbCore\<close>, every operation; \<open>Iqdb_Core_Laws\<close> and \<open>Iqdb_Core_Inv\<close>: its
    invariants and their preservation; \<open>Iqdb_Core_Machine\<close>: the engine as a step relation
    with its reachable states; \<open>Iqdb_Core_Sim\<close>: it implements \<open>keyed_store\<close>, and a cache
    cannot be observed; \<open>Iqdb_Core_Props\<close>, \<open>Iqdb_Core_Index_Props\<close>, \<open>Iqdb_Core_Snapshot\<close>:
    the properties.
  \<^item> \<open>Iqdb_Error\<close>: error.rs. \<open>Iqdb_Handle\<close>: \<open>Storage\<close>, the lock and every method of \<open>Iqdb\<close>
    (handle.rs); \<open>Iqdb_Handle_Laws\<close>: what they do to the core inside, and that the in-memory
    handle implements \<open>keyed_store\<close>; \<open>Iqdb_Handle_Props\<close>: histories, searches, batches,
    refused arguments, poisoned locks; \<open>Iqdb_Handle_Cache\<close>: a cache cannot be observed.
  \<^item> \<open>Iqdb_Calls\<close>: a call of the handle as a value, and runs of calls. \<open>Iqdb_Concurrent\<close>: any
    number of threads on one handle, as a step relation over the critical sections of the
    methods, with the history of invocations, effects and responses;
    \<open>Iqdb_Concurrent_Props\<close>: linearizability, the type of the stored data.
  \<^item> \<open>Iqdb_Lock\<close>: the \<open>RwLock\<close> of a shared handle. Each method is a script of the steps its
    body takes, taking and giving back guards included, and threads take these steps one at a
    time, readers side by side; which of the waiting threads the lock lets in is left open.
    \<open>Iqdb_Lock_Props\<close>: what the guards exclude, that the runs under the lock are the
    interleavings of \<open>Iqdb_Concurrent\<close>, and that nothing deadlocks and every call is answered.
  \<^item> \<open>Iqdb_Durability\<close>: replaying a log, and loading what was saved; \<open>Iqdb_Recovery\<close>: the
    contract of the snapshot and log (\<open>wal_laws\<close>, \<open>load_law\<close>) under the configuration they are
    opened with, and the invariant \<open>durable\<close> that what is on disk holds the live contents. A
    write is logged, and a log is replayed, only if \<open>wal_enabled\<close> is set; what the log is sure
    to hold after a stop is what the fsync policy has synced: everything under \<open>Always\<close>, under
    the other policies possibly nothing since the last snapshot; \<open>Iqdb_Allowed\<close>: the specification
    of what an identifier may hold once writes can be refused; \<open>Iqdb_Life\<close>: a file-backed
    database created, used, and reopened after its process stopped, between two calls or inside
    any one of them; \<open>Iqdb_Persist_Instance\<close>: files held as values, which satisfy the contract;
    \<open>Iqdb_Durability_Props\<close>: crash recovery, type checks on reopening, agreement of the two
    backends; \<open>Iqdb_Crash_Props\<close>: a process that stops while threads share its database.
  \<^item> \<open>Iqdb_Accepting\<close>: an engine whose writes have all succeeded. \<open>Iqdb_Nearest\<close>: the promise
    of the database as its users see it, a map whose searches give the nearest vectors
    (\<open>spec_run\<close>; a malformed filter is refused, unless there is nothing to search), and that an
    in-memory handle over a flat index keeps it; \<open>Iqdb_Exact_Instance\<close>:
    an index that sorts, which satisfies \<open>exact_laws\<close>; \<open>Iqdb_Nearest_Props\<close>: the promise for
    one caller and for any number of threads; \<open>Iqdb_Nearest_Crash\<close>: and for a file-backed
    database that is reopened after its process stopped.
  \<^item> \<open>Iqdb_Async\<close>: async_db.rs over a reference-counted handle, sessions on it, and the step
    relation of its clones and tasks; \<open>Iqdb_Async_Props\<close>: a session, its constructor and its
    \<open>close\<close> included, is one on the handle, and what closing does while others use the database.
  \<^item> \<open>Iqdb_Tests\<close>, \<open>Iqdb_Engine_Tests\<close>, \<open>Iqdb_Search_Tests\<close>: the crate's own unit and property
    tests, run on the model: a test is a computation that a failed assertion ends in \<open>None\<close>,
    and it passes for every index library, metadata map and vocabulary the crate could be
    linked with; the tests that search a flat index, for every exact one.

  No definition needs fuel: every loop of the modelled code runs over a list or a count that
  is known before it starts.

  What durability rests on besides. Recovery is stated for writes within the limits of the
  snapshot format (\<open>allowed_fits\<close>: keys that are not empty, lengths below \<open>2 ^ 32\<close>), since
  \<open>empty_key_unreadable\<close> shows that beyond them a snapshot cannot be read again.

  Not modelled. What the index families compute (distances, recall): that a flat index is exact
  is its contract, and nothing is assumed of the answers of the other two; the allocation hints
  (\<open>with_capacity\<close>, the pre-allocation bound), which do not affect results; formatting of
  the upstream errors and of \<open>Debug\<close>; what a panicking writer leaves in memory, since a
  panic ends a run here and no modelled state panics; and the crate root, which only
  re-exports. A batch search is not atomic in the code either: between threads it is the
  sequence of its searches, so it has no step of its own.
\<close>

end
